theory Spec2Isabelle
  imports Complex_Main
begin

section \<open>Values shared by the service and the maintenance scripts\<close>

text \<open>
  JavaScript exceptions are values: a rejected promise or a thrown error is one of the
  constructors below. Timestamps (\<^verbatim>\<open>new Date()\<close>) are natural numbers handed in by
  the caller. Strings are ASCII character lists.
\<close>

datatype js_error = NetworkError | TypeError | StoreError

type_synonym features = "(string \<times> rat) list"

record alternative_source_info =
  asi_source :: string
  asi_confidence :: "rat option"
  asi_forced :: bool
  asi_simplified :: bool
  asi_artistOnly :: bool
  asi_totalSources :: "nat option"

text \<open>
  One element of a \<^verbatim>\<open>trackMatrix\<close>, as \<^verbatim>\<open>trackProfiles.push({...})\<close> in
  \<^verbatim>\<open>server.js\<close> builds it.
\<close>

record track_profile =
  trackId :: string
  tp_name :: string
  tp_artist :: "string option"
  tp_popularity :: "nat option"
  tp_isRecentRelease :: bool
  albumInfo :: "string option"
  previewUrl :: string
  audioSource :: "string option"
  alternativeSourceInfo :: "alternative_source_info option"
  essentiaFeatures :: features
  analyzedAt :: nat
  analysisRound :: nat

record genre_mapping =
  inferredGenres :: "string list"
  gm_source :: string
  gm_confidence :: rat

section \<open>The \<^verbatim>\<open>artistGenres\<close> collection\<close>

text \<open>
  \<^verbatim>\<open>essentiaAudioProfile\<close> of an artist document. A field that is absent (or, for
  \<^verbatim>\<open>trackMatrix\<close>, not an array) is \<open>None\<close>. The four values the batch driver copies
  verbatim from the analysis response (\<^verbatim>\<open>recentEvolution\<close>, \<^verbatim>\<open>averageFeatures\<close>,
  \<^verbatim>\<open>spectralFeatures\<close>, \<^verbatim>\<open>metadata\<close>) are one uninterpreted payload.
\<close>

record 'p essentia_profile =
  trackMatrix :: "track_profile list option"
  genreMapping :: "genre_mapping option"
  profile_payload :: "'p option"

record 'p artist_doc =
  name :: "string option"
  artistName :: "string option"
  displayName :: "string option"
  spotifyId :: "string option"
  genres :: "string list option"
  essentiaProfileBuilt :: "bool option"
  essentiaProfileStaged :: "bool option"
  essentiaProfileDate :: "nat option"
  essentiaAudioProfile :: "'p essentia_profile option"
  essentiaVersion :: "string option"
  essentiaTrackMatrix :: "track_profile list option"

text \<open>
  A collection is the list of its documents in cursor order, each with its \<^verbatim>\<open>_id\<close>.
  MongoDB keeps the \<^verbatim>\<open>_id\<close>s of a collection distinct.
\<close>

type_synonym 'd collection = "(nat \<times> 'd) list"

text \<open>
  \<^verbatim>\<open>updateOne({_id: i}, u)\<close> without upsert: the first document with that \<^verbatim>\<open>_id\<close> is
  updated; \<^verbatim>\<open>modifiedCount\<close> is 1 when the update changed it and 0 otherwise (also
  when nothing matched). A filter on an undefined \<^verbatim>\<open>_id\<close> matches nothing.
\<close>

fun update_first :: "nat \<Rightarrow> ('d \<Rightarrow> 'd) \<Rightarrow> 'd collection \<Rightarrow> nat \<times> 'd collection" where
  "update_first i f [] = (0, [])"
| "update_first i f ((j, d) # rest) =
     (if j = i then ((if f d = d then 0 else 1), (j, f d) # rest)
      else (case update_first i f rest of (n, rest') \<Rightarrow> (n, (j, d) # rest')))"

definition updateOne :: "nat option \<Rightarrow> ('d \<Rightarrow> 'd) \<Rightarrow> 'd collection \<Rightarrow> nat \<times> 'd collection" where
  "updateOne i f docs = (case i of None \<Rightarrow> (0, docs) | Some k \<Rightarrow> update_first k f docs)"

text \<open>\<^verbatim>\<open>updateMany({_id: {$in: ids}}, u)\<close>: every document whose \<^verbatim>\<open>_id\<close> is listed.\<close>

definition updateMany :: "nat list \<Rightarrow> ('d \<Rightarrow> 'd) \<Rightarrow> 'd collection \<Rightarrow> nat \<times> 'd collection" where
  "updateMany ids f docs =
     (length (filter (\<lambda>(j, d). j \<in> set ids \<and> f d \<noteq> d) docs),
      map (\<lambda>(j, d). if j \<in> set ids then (j, f d) else (j, d)) docs)"

definition find_doc :: "nat \<Rightarrow> 'd collection \<Rightarrow> 'd option" where
  "find_doc i docs = map_of docs i"

text \<open>The length of the persisted track matrix; 0 when the profile or the matrix is missing.\<close>

definition matrix_of :: "('p, 'z) artist_doc_scheme \<Rightarrow> track_profile list" where
  "matrix_of d =
     (case essentiaAudioProfile d of
        None \<Rightarrow> []
      | Some p \<Rightarrow> (case trackMatrix p of None \<Rightarrow> [] | Some tm \<Rightarrow> tm))"

section \<open>The flag scanner (\<^verbatim>\<open>scripts/essentia_flag_scanner.js\<close>)\<close>

text \<open>
  \<^verbatim>\<open>hasMatrix\<close>: \<^verbatim>\<open>Array.isArray(doc.essentiaAudioProfile && ....trackMatrix) && length > 0\<close>.
\<close>

definition hasMatrix :: "('p, 'z) artist_doc_scheme \<Rightarrow> bool" where
  "hasMatrix d =
     (case essentiaAudioProfile d of
        None \<Rightarrow> False
      | Some p \<Rightarrow> (case trackMatrix p of None \<Rightarrow> False | Some tm \<Rightarrow> length tm > 0))"

text \<open>
  The cursor \<^verbatim>\<open>find({essentiaProfileBuilt: true})\<close>, read while \<^verbatim>\<open>checked < limit\<close>;
  \<^verbatim>\<open>toClear\<close> collects the \<^verbatim>\<open>_id\<close>s of the documents read that have no matrix.
\<close>

definition scan_cursor :: "('p, 'z) artist_doc_scheme collection \<Rightarrow> ('p, 'z) artist_doc_scheme collection" where
  "scan_cursor docs = filter (\<lambda>(i, d). essentiaProfileBuilt d = Some True) docs"

definition toClear :: "int \<Rightarrow> ('p, 'z) artist_doc_scheme collection \<Rightarrow> nat list" where
  "toClear limit docs =
     map fst (filter (\<lambda>(i, d). \<not> hasMatrix d) (take (nat limit) (scan_cursor docs)))"

text \<open>The update \<^verbatim>\<open>{$unset: {essentiaProfileBuilt: '', essentiaProfileDate: ''}}\<close>.\<close>

definition unset_built :: "('p, 'z) artist_doc_scheme \<Rightarrow> ('p, 'z) artist_doc_scheme" where
  "unset_built d = d\<lparr>essentiaProfileBuilt := None, essentiaProfileDate := None\<rparr>"

text \<open>
  The scanner's main function: the collection after the run and the printed
  \<^verbatim>\<open>cleared\<close> count (when the repair ran). \<^verbatim>\<open>clear\<close> is \<^verbatim>\<open>--clear\<close>, \<^verbatim>\<open>dryRun\<close> is
  \<^verbatim>\<open>--dryRun\<close> or \<^verbatim>\<open>--dry\<close>.
\<close>

definition scanner :: "int \<Rightarrow> bool \<Rightarrow> bool \<Rightarrow> ('p, 'z) artist_doc_scheme collection
    \<Rightarrow> nat option \<times> ('p, 'z) artist_doc_scheme collection" where
  "scanner limit clear dryRun docs =
     (let ids = toClear limit docs in
      if clear \<and> length ids > 0 then
        (if dryRun then (None, docs)
         else (case updateMany ids unset_built docs of (n, docs') \<Rightarrow> (Some n, docs')))
      else (None, docs))"


section \<open>The migration of the top-level matrix (\<^verbatim>\<open>unnamed/part_000\<close>)\<close>

text \<open>
  \<^verbatim>\<open>$set: {'essentiaAudioProfile.trackMatrix': top}\<close> writes the nested field and keeps
  the profile's other fields; it creates the profile when the document has none.
\<close>

definition set_nested_matrix :: "track_profile list \<Rightarrow> ('p, 'z) artist_doc_scheme
    \<Rightarrow> ('p, 'z) artist_doc_scheme" where
  "set_nested_matrix tm d =
     d\<lparr>essentiaAudioProfile :=
         Some (case essentiaAudioProfile d of
                 None \<Rightarrow> \<lparr>trackMatrix = Some tm, genreMapping = None, profile_payload = None\<rparr>
               | Some p \<Rightarrow> p\<lparr>trackMatrix := Some tm\<rparr>)\<rparr>"

text \<open>
  The update of one document: the nested matrix, \<^verbatim>\<open>essentiaProfileBuilt: true\<close> and the
  date are set; with \<^verbatim>\<open>--remove-old\<close> the top-level field is unset.
\<close>

definition migrate_update :: "bool \<Rightarrow> nat \<Rightarrow> track_profile list \<Rightarrow> ('p, 'z) artist_doc_scheme
    \<Rightarrow> ('p, 'z) artist_doc_scheme" where
  "migrate_update removeOld now tm d =
     (let d1 = (set_nested_matrix tm d)\<lparr>essentiaProfileBuilt := Some True,
                                          essentiaProfileDate := Some now\<rparr>
      in if removeOld then d1\<lparr>essentiaTrackMatrix := None\<rparr> else d1)"

text \<open>
  The operations the script queues: one \<^verbatim>\<open>updateOne\<close> by \<^verbatim>\<open>_id\<close> for every document
  whose top-level \<^verbatim>\<open>essentiaTrackMatrix\<close> is a non-empty array (an absent field and a
  value that is not an array are both \<open>None\<close>). No track count is compared.
\<close>

definition migration_ops :: "bool \<Rightarrow> nat \<Rightarrow> ('p, 'z) artist_doc_scheme collection
    \<Rightarrow> (nat \<times> track_profile list) list" where
  "migration_ops removeOld now docs =
     concat (map (\<lambda>(i, d). case essentiaTrackMatrix d of
                               None \<Rightarrow> []
                             | Some tm \<Rightarrow> if length tm = 0 then [] else [(i, tm)]) docs)"

definition migrate :: "bool \<Rightarrow> bool \<Rightarrow> nat \<Rightarrow> ('p, 'z) artist_doc_scheme collection
    \<Rightarrow> ('p, 'z) artist_doc_scheme collection" where
  "migrate apply_flag removeOld now docs =
     (if \<not> apply_flag then docs
      else fold (\<lambda>(i, tm) ds. snd (updateOne (Some i) (migrate_update removeOld now tm) ds))
                (migration_ops removeOld now docs) docs)"

section \<open>The batch driver (\<^verbatim>\<open>batch-artist-audio-coverage.js\<close>, second version)\<close>

text \<open>
  The store the driver writes to: the collection, the \<^verbatim>\<open>updateOne\<close> calls issued so far
  with what each returned (\<open>Inr modifiedCount\<close>) or threw, and the faults still to come:
  the head of \<open>faults\<close> says whether the next write throws. A write that throws changes
  nothing.
\<close>

datatype write_tag = ProfileWrite | BuiltWrite | StagedWrite

record 'd db =
  coll :: "'d collection"
  wlog :: "(write_tag \<times> (js_error + nat)) list"
  faults :: "bool list"

definition db_updateOne :: "write_tag \<Rightarrow> nat option \<Rightarrow> ('d \<Rightarrow> 'd) \<Rightarrow> 'd db
    \<Rightarrow> (js_error + nat) \<times> 'd db" where
  "db_updateOne tag i f s =
     (if faults s \<noteq> [] \<and> hd (faults s)
      then (Inl StoreError,
            s\<lparr>wlog := wlog s @ [(tag, Inl StoreError)], faults := tl (faults s)\<rparr>)
      else (case updateOne i f (coll s) of
              (n, docs') \<Rightarrow>
                (Inr n, s\<lparr>coll := docs', wlog := wlog s @ [(tag, Inr n)],
                          faults := tl (faults s)\<rparr>)))"

text \<open>The command line: \<^verbatim>\<open>--maxTracks\<close> (default 10) and the flags.\<close>

record batch_cfg =
  maxTracks :: int
  appleFirst :: bool
  soundcloudPass :: bool
  soundcloudOnly :: bool
  dryRun :: bool
  force :: bool
  fastModeFlag :: bool

text \<open>The JSON body \<^verbatim>\<open>callAnalyze\<close> posts to \<^verbatim>\<open>/api/analyze-artist\<close>.\<close>

record analyze_body =
  b_artistName :: string
  b_spotifyId :: "string option"
  b_existingGenres :: "string list"
  b_maxTracks :: int
  b_fastMode :: bool
  b_previewStrategy :: string
  b_forceSoundCloudTest :: bool

text \<open>
  What the driver reads of the service's answer: \<^verbatim>\<open>success\<close>, \<^verbatim>\<open>trackMatrix\<close>,
  \<^verbatim>\<open>genreMapping\<close>, \<^verbatim>\<open>metadata.version\<close>, and the values it copies verbatim.
\<close>

record 'p analysis_response =
  r_success :: bool
  r_trackMatrix :: "track_profile list option"
  r_genreMapping :: "genre_mapping option"
  r_payload :: "'p option"
  r_version :: "string option"

text \<open>
  The outside world of the driver: the \<^verbatim>\<open>audio_features\<close> counts and the service, each
  indexed by the number of calls made before (two calls may answer differently), and the
  text of an \<^verbatim>\<open>_id\<close>.
\<close>

record 'p batch_env =
  countDocuments :: "nat \<Rightarrow> string \<Rightarrow> js_error + nat"
  analyze_service :: "nat \<Rightarrow> analyze_body \<Rightarrow> js_error + 'p analysis_response"
  idString :: "nat \<Rightarrow> string"

record 'd batch_state =
  store :: "'d db"
  requests :: "analyze_body list"
  improved :: nat
  skipped :: nat
  scTriggered :: nat
  errors :: nat
  writesSucceeded :: nat
  writesFailed :: nat
  stagedCreated :: nat
  results :: "string list"

text \<open>JavaScript truthiness of a string that may be absent, and of a flag.\<close>

definition truthy :: "string option \<Rightarrow> bool" where
  "truthy s = (case s of None \<Rightarrow> False | Some x \<Rightarrow> x \<noteq> [])"

definition flag_set :: "bool option \<Rightarrow> bool" where
  "flag_set b = (b = Some True)"

text \<open>
  \<^verbatim>\<open>artist.name || artist.artistName || artist.displayName ||
  (artist._id && artist._id.toString()) || null\<close>.
\<close>

definition aName_of :: "'p batch_env \<Rightarrow> nat option \<Rightarrow> ('q, 'z) artist_doc_scheme \<Rightarrow> string option" where
  "aName_of env aid artist =
     (if truthy (name artist) then name artist
      else if truthy (artistName artist) then artistName artist
      else if truthy (displayName artist) then displayName artist
      else (case aid of
              None \<Rightarrow> None
            | Some i \<Rightarrow> if truthy (Some (idString env i)) then Some (idString env i) else None))"

text \<open>
  \<^verbatim>\<open>stagedLen\<close>: the length of \<^verbatim>\<open>artist.essentiaAudioProfile.trackMatrix\<close> when it is
  an array, else 0. \<^verbatim>\<open>remainingTracks = Math.max(0, maxTracks - stagedLen)\<close>.
\<close>

definition stagedLen :: "('p, 'z) artist_doc_scheme \<Rightarrow> nat" where
  "stagedLen artist =
     (case essentiaAudioProfile artist of
        None \<Rightarrow> 0
      | Some p \<Rightarrow> (case trackMatrix p of None \<Rightarrow> 0 | Some tm \<Rightarrow> length tm))"

definition remainingTracks :: "batch_cfg \<Rightarrow> ('p, 'z) artist_doc_scheme \<Rightarrow> int" where
  "remainingTracks cfg artist = max 0 (maxTracks cfg - int (stagedLen artist))"

text \<open>\<^verbatim>\<open>remainingTracks || maxTracks\<close>: 0 is falsy.\<close>

definition requested_maxTracks :: "batch_cfg \<Rightarrow> ('p, 'z) artist_doc_scheme \<Rightarrow> int" where
  "requested_maxTracks cfg artist =
     (if remainingTracks cfg artist \<noteq> 0 then remainingTracks cfg artist else maxTracks cfg)"

text \<open>The two flag updates.\<close>

definition set_built :: "nat \<Rightarrow> ('p, 'z) artist_doc_scheme \<Rightarrow> ('p, 'z) artist_doc_scheme" where
  "set_built now d =
     d\<lparr>essentiaProfileBuilt := Some True, essentiaProfileDate := Some now,
       essentiaProfileStaged := None\<rparr>"

definition set_staged :: "nat \<Rightarrow> ('p, 'z) artist_doc_scheme \<Rightarrow> ('p, 'z) artist_doc_scheme" where
  "set_staged now d = d\<lparr>essentiaProfileStaged := Some True, essentiaProfileDate := Some now\<rparr>"

text \<open>
  ``If staged already meets or exceeds maxTracks, mark built and skip reprocessing'':
  the \<^verbatim>\<open>updateOne\<close> in its \<^verbatim>\<open>try\<close>; a throw counts \<^verbatim>\<open>writesFailed\<close>.
\<close>

definition mark_built_from_staged :: "nat \<Rightarrow> nat option
    \<Rightarrow> ('p, 'z) artist_doc_scheme batch_state \<Rightarrow> ('p, 'z) artist_doc_scheme batch_state" where
  "mark_built_from_staged now aid st =
     (case db_updateOne BuiltWrite aid (set_built now) (store st) of
        (Inl e, s') \<Rightarrow> st\<lparr>store := s', writesFailed := writesFailed st + 1\<rparr>
      | (Inr n, s') \<Rightarrow>
          if n > 0 then st\<lparr>store := s', writesSucceeded := writesSucceeded st + 1\<rparr>
          else st\<lparr>store := s'\<rparr>)"

text \<open>
  The profile object the driver builds from the last analysis, and the update that
  stores it: \<^verbatim>\<open>$set: {essentiaAudioProfile: profile, essentiaVersion: ...}\<close> replaces the
  whole profile.
\<close>

definition profile_of :: "'p analysis_response \<Rightarrow> 'p essentia_profile" where
  "profile_of la =
     \<lparr>trackMatrix = Some (case r_trackMatrix la of None \<Rightarrow> [] | Some tm \<Rightarrow> tm),
      genreMapping = r_genreMapping la,
      profile_payload = r_payload la\<rparr>"

definition set_profile :: "'p analysis_response \<Rightarrow> ('p, 'z) artist_doc_scheme
    \<Rightarrow> ('p, 'z) artist_doc_scheme" where
  "set_profile la d =
     d\<lparr>essentiaAudioProfile := Some (profile_of la),
       essentiaVersion := Some (if truthy (r_version la) then the (r_version la) else ''2.0'')\<rparr>"

definition tmLen :: "'p analysis_response \<Rightarrow> nat" where
  "tmLen la = (case trackMatrix (profile_of la) of None \<Rightarrow> 0 | Some tm \<Rightarrow> length tm)"

text \<open>
  ``Write the profile first, then set the built flag only after verifying the profile
  was written''. A throw of any of the writes is caught and logged; the counters of the
  branch are then not reached.
\<close>

definition write_artist_profile :: "batch_cfg \<Rightarrow> nat \<Rightarrow> nat option \<Rightarrow> 'p analysis_response option
    \<Rightarrow> ('p, 'z) artist_doc_scheme batch_state \<Rightarrow> ('p, 'z) artist_doc_scheme batch_state" where
  "write_artist_profile cfg now aid lastAnalysis st =
     (case lastAnalysis of
        None \<Rightarrow> st
      | Some la \<Rightarrow>
          if r_success la \<and> \<not> dryRun cfg then
            (case db_updateOne ProfileWrite aid (set_profile la) (store st) of
               (Inl e, s1) \<Rightarrow> st\<lparr>store := s1\<rparr>
             | (Inr n, s1) \<Rightarrow>
                 if n > 0 \<and> int (tmLen la) \<ge> maxTracks cfg then
                   (case db_updateOne BuiltWrite aid (set_built now) s1 of
                      (Inl e, s2) \<Rightarrow> st\<lparr>store := s2\<rparr>
                    | (Inr k, s2) \<Rightarrow>
                        st\<lparr>store := s2, writesSucceeded := writesSucceeded st + 1\<rparr>)
                 else if n > 0 \<and> tmLen la > 0 then
                   (case db_updateOne StagedWrite aid (set_staged now) s1 of
                      (Inl e, s2) \<Rightarrow> st\<lparr>store := s2\<rparr>
                    | (Inr k, s2) \<Rightarrow>
                        st\<lparr>store := s2, stagedCreated := stagedCreated st + 1,
                           writesSucceeded := writesSucceeded st + 1\<rparr>)
                 else st\<lparr>store := s1, writesFailed := writesFailed st + 1\<rparr>)
          else st)"

text \<open>\<^verbatim>\<open>callAnalyze\<close>: the body with \<^verbatim>\<open>...extraBody\<close> spread last, sent to the service.\<close>

definition analyze_request :: "batch_cfg \<Rightarrow> string \<Rightarrow> ('p, 'z) artist_doc_scheme \<Rightarrow> bool
    \<Rightarrow> analyze_body" where
  "analyze_request cfg aName artist forceSC =
     \<lparr>b_artistName = aName,
      b_spotifyId = spotifyId artist,
      b_existingGenres = (case genres artist of None \<Rightarrow> [] | Some g \<Rightarrow> g),
      b_maxTracks = requested_maxTracks cfg artist,
      b_fastMode = fastModeFlag cfg,
      b_previewStrategy = ''apple_primary'',
      b_forceSoundCloudTest = forceSC\<rparr>"

definition callAnalyze :: "'p batch_env \<Rightarrow> analyze_body \<Rightarrow> 'd batch_state
    \<Rightarrow> (js_error + 'p analysis_response) \<times> 'd batch_state" where
  "callAnalyze env body st =
     (analyze_service env (length (requests st)) body, st\<lparr>requests := requests st @ [body]\<rparr>)"

text \<open>
  The body of the \<^verbatim>\<open>try\<close> for one artist: the Apple pass, the second pass (``SoundCloud
  removed'': it asks for \<^verbatim>\<open>apple_primary\<close> with \<^verbatim>\<open>forceSoundCloudTest\<close>), then the
  profile write. The first component is the exception that reaches the \<^verbatim>\<open>catch\<close> of the
  loop body, if any; the state is the one at that point.
\<close>

definition apple_pass :: "batch_cfg \<Rightarrow> 'p batch_env \<Rightarrow> string
    \<Rightarrow> ('p, 'y) artist_doc_scheme \<Rightarrow> ('p, 'z) artist_doc_scheme batch_state
    \<Rightarrow> js_error option \<times> 'p analysis_response option \<times> ('p, 'z) artist_doc_scheme batch_state" where
  "apple_pass cfg env aName artist st =
     (if \<not> soundcloudOnly cfg \<and> appleFirst cfg
      then (case callAnalyze env (analyze_request cfg aName artist False) st of
              (Inl e, st1) \<Rightarrow> (Some e, None, st1)
            | (Inr appleResp, st1) \<Rightarrow> (None, Some appleResp, st1))
      else (None, None, st))"

definition second_pass :: "batch_cfg \<Rightarrow> 'p batch_env \<Rightarrow> string
    \<Rightarrow> ('p, 'y) artist_doc_scheme \<Rightarrow> 'p analysis_response option
    \<Rightarrow> ('p, 'z) artist_doc_scheme batch_state
    \<Rightarrow> js_error option \<times> 'p analysis_response option \<times> ('p, 'z) artist_doc_scheme batch_state" where
  "second_pass cfg env aName artist lastAnalysis st =
     (if soundcloudPass cfg \<or> soundcloudOnly cfg
      then (case countDocuments env 1 aName of
              Inl e \<Rightarrow> (Some e, lastAnalysis, st)
            | Inr postAppleVectors \<Rightarrow>
                if int postAppleVectors < maxTracks cfg - 1
                then (case callAnalyze env (analyze_request cfg aName artist True)
                             (st\<lparr>scTriggered := scTriggered st + 1\<rparr>) of
                        (Inl e, st1) \<Rightarrow> (Some e, lastAnalysis, st1)
                      | (Inr scResp, st1) \<Rightarrow> (None, Some scResp, st1))
                else (None, lastAnalysis, st))
      else (None, lastAnalysis, st))"

definition analysis_passes :: "batch_cfg \<Rightarrow> 'p batch_env \<Rightarrow> nat \<Rightarrow> string \<Rightarrow> nat option
    \<Rightarrow> ('p, 'y) artist_doc_scheme \<Rightarrow> ('p, 'z) artist_doc_scheme batch_state
    \<Rightarrow> js_error option \<times> ('p, 'z) artist_doc_scheme batch_state" where
  "analysis_passes cfg env now aName aid artist st =
     (case apple_pass cfg env aName artist st of
        (Some e, last1, st1) \<Rightarrow> (Some e, st1)
      | (None, last1, st1) \<Rightarrow>
          (case second_pass cfg env aName artist last1 st1 of
             (Some e, last2, st2) \<Rightarrow> (Some e, st2)
           | (None, last2, st2) \<Rightarrow>
               (let st3 = write_artist_profile cfg now aid last2 st2
                in (None, st3\<lparr>improved := improved st3 + 1,
                              results := results st3 @ [''done'']\<rparr>))))"

text \<open>
  One iteration of the loop over the artists. \<open>aid\<close> and \<open>artist\<close> are the document as
  the driver loaded it (an artist read from a file has no \<^verbatim>\<open>_id\<close>). The first count
  stands outside every \<^verbatim>\<open>try\<close>: its exception leaves the loop (\<open>Inl\<close>).
\<close>

definition process_artist :: "batch_cfg \<Rightarrow> 'p batch_env \<Rightarrow> nat \<Rightarrow> nat option
    \<Rightarrow> ('p, 'y) artist_doc_scheme \<Rightarrow> ('p, 'z) artist_doc_scheme batch_state
    \<Rightarrow> js_error + ('p, 'z) artist_doc_scheme batch_state" where
  "process_artist cfg env now aid artist st =
     (case aName_of env aid artist of
        None \<Rightarrow> Inr (st\<lparr>skipped := skipped st + 1, results := results st @ [''error'']\<rparr>)
      | Some aName \<Rightarrow>
          (case countDocuments env 0 aName of
             Inl e \<Rightarrow> Inl e
           | Inr existingVectors \<Rightarrow>
               if int (stagedLen artist) \<ge> maxTracks cfg \<and> \<not> flag_set (essentiaProfileBuilt artist)
               then (let st1 = mark_built_from_staged now aid st
                     in Inr (st1\<lparr>skipped := skipped st1 + 1,
                                 results := results st1 @ [''already_staged_built'']\<rparr>))
               else if flag_set (essentiaProfileBuilt artist) \<and> \<not> force cfg
               then Inr (st\<lparr>skipped := skipped st + 1, results := results st @ [''skip_profile'']\<rparr>)
               else if int existingVectors \<ge> maxTracks cfg
               then Inr (st\<lparr>skipped := skipped st + 1, results := results st @ [''skip'']\<rparr>)
               else if dryRun cfg
               then Inr (st\<lparr>skipped := skipped st + 1, results := results st @ [''dry-skip'']\<rparr>)
               else (case analysis_passes cfg env now aName aid artist st of
                       (Some e, st') \<Rightarrow>
                         Inr (st'\<lparr>errors := errors st' + 1, results := results st' @ [''error'']\<rparr>)
                     | (None, st') \<Rightarrow> Inr st')))"

text \<open>
  The artists the driver iterates (lines 225--248). From the collection it loads the
  documents that have no \<^verbatim>\<open>essentiaAudioProfile\<close>, no \<^verbatim>\<open>trackMatrix\<close> in it, an empty
  \<^verbatim>\<open>trackMatrix\<close>, or \<^verbatim>\<open>essentiaProfileStaged: true\<close> (the genre filters of \<^verbatim>\<open>--edm\<close> and
  \<^verbatim>\<open>--genre\<close> and the limit only narrow this), and of each document only the projected
  fields \<^verbatim>\<open>name\<close>, \<^verbatim>\<open>spotifyId\<close>, \<^verbatim>\<open>genres\<close>, \<^verbatim>\<open>essentiaProfileBuilt\<close>,
  \<^verbatim>\<open>essentiaAudioProfile\<close>, \<^verbatim>\<open>essentiaProfileStaged\<close> (and the \<^verbatim>\<open>_id\<close>). With
  \<^verbatim>\<open>--fromFile\<close> an artist is a name and nothing else.
\<close>

definition missingProfileOrEmpty :: "('p, 'z) artist_doc_scheme \<Rightarrow> bool" where
  "missingProfileOrEmpty d =
     ((case essentiaAudioProfile d of
         None \<Rightarrow> True
       | Some p \<Rightarrow> trackMatrix p = None \<or> trackMatrix p = Some [])
      \<or> essentiaProfileStaged d = Some True)"

definition projection :: "('p, 'z) artist_doc_scheme \<Rightarrow> 'p artist_doc" where
  "projection d =
     \<lparr>name = name d, artistName = None, displayName = None, spotifyId = spotifyId d,
      genres = genres d, essentiaProfileBuilt = essentiaProfileBuilt d,
      essentiaProfileStaged = essentiaProfileStaged d, essentiaProfileDate = None,
      essentiaAudioProfile = essentiaAudioProfile d, essentiaVersion = None,
      essentiaTrackMatrix = None\<rparr>"

definition from_file :: "string \<Rightarrow> 'p artist_doc" where
  "from_file n =
     \<lparr>name = Some n, artistName = None, displayName = None, spotifyId = None,
      genres = None, essentiaProfileBuilt = None, essentiaProfileStaged = None,
      essentiaProfileDate = None, essentiaAudioProfile = None, essentiaVersion = None,
      essentiaTrackMatrix = None\<rparr>"

text \<open>
  An artist as the driver holds it, for a collection: a line of the file (no \<^verbatim>\<open>_id\<close>), or
  the projection of a document that the query selects.
\<close>

definition loaded :: "nat option \<Rightarrow> 'p artist_doc \<Rightarrow> ('p, 'z) artist_doc_scheme collection
    \<Rightarrow> bool" where
  "loaded aid artist docs =
     (case aid of
        None \<Rightarrow> truthy (name artist) \<and> artist = from_file (the (name artist))
      | Some i \<Rightarrow>
          (case find_doc i docs of
             None \<Rightarrow> False
           | Some d \<Rightarrow> missingProfileOrEmpty d \<and> artist = projection d))"

text \<open>
  The loop over the loaded artists; \<open>clock k\<close> is the date of the writes for the
  \<open>k\<close>-th artist. An exception of the first count ends the run there.
\<close>

fun batch_loop :: "batch_cfg \<Rightarrow> 'p batch_env \<Rightarrow> (nat \<Rightarrow> nat) \<Rightarrow> nat
    \<Rightarrow> (nat option \<times> 'p artist_doc) list \<Rightarrow> ('p, 'z) artist_doc_scheme batch_state
    \<Rightarrow> js_error option \<times> ('p, 'z) artist_doc_scheme batch_state" where
  "batch_loop cfg env clock k [] st = (None, st)"
| "batch_loop cfg env clock k ((aid, artist) # rest) st =
     (case process_artist cfg env (clock k) aid artist st of
        Inl e \<Rightarrow> (Some e, st)
      | Inr st' \<Rightarrow> batch_loop cfg env clock (k + 1) rest st')"

section \<open>The profile matrix builder (\<^verbatim>\<open>unnamed/part_004\<close>)\<close>

text \<open>
  The builder iterates the documents without \<^verbatim>\<open>essentiaAudioProfile\<close>. For an artist
  whose analysis succeeded it sets the top-level
  \<^verbatim>\<open>essentiaTrackMatrix\<close>, an \<^verbatim>\<open>essentiaAudioProfile\<close> object that has no \<^verbatim>\<open>trackMatrix\<close>
  field (it holds the averages, the tracks under \<^verbatim>\<open>tracks\<close> and the metadata: the
  payload), \<^verbatim>\<open>essentiaProfileBuilt: true\<close>, the date and the version. The fields
  \<^verbatim>\<open>essentiaGenreMapping\<close>, \<^verbatim>\<open>essentiaRecentEvolution\<close> and \<^verbatim>\<open>stagingAnalysis\<close> it
  also sets are not fields of the model. An answer \<open>Inl\<close> is a fetch that threw or a
  response that was not ok; then, and when \<^verbatim>\<open>success\<close> is false, nothing is written. No
  track count is looked at.
\<close>

definition builder_update :: "nat \<Rightarrow> track_profile list option \<Rightarrow> 'p option
    \<Rightarrow> ('p, 'z) artist_doc_scheme \<Rightarrow> ('p, 'z) artist_doc_scheme" where
  "builder_update now tm payload d =
     d\<lparr>essentiaTrackMatrix := tm,
       essentiaAudioProfile :=
         Some \<lparr>trackMatrix = None, genreMapping = None, profile_payload = payload\<rparr>,
       essentiaProfileBuilt := Some True, essentiaProfileDate := Some now,
       essentiaVersion := Some ''2.0-staged''\<rparr>"

definition builder_step :: "nat \<Rightarrow> nat \<Rightarrow> js_error + 'p analysis_response
    \<Rightarrow> ('p, 'z) artist_doc_scheme collection \<Rightarrow> ('p, 'z) artist_doc_scheme collection" where
  "builder_step now i answer docs =
     (case answer of
        Inl e \<Rightarrow> docs
      | Inr la \<Rightarrow>
          if r_success la
          then snd (updateOne (Some i) (builder_update now (r_trackMatrix la) (r_payload la)) docs)
          else docs)"

section \<open>Reading the store\<close>




text \<open>
  A document before and after: when \<^verbatim>\<open>essentiaProfileBuilt\<close> was turned on in between,
  the matrix is at least \<^verbatim>\<open>maxTracks\<close> long.
\<close>

definition built_ok :: "batch_cfg \<Rightarrow> ('p, 'z) artist_doc_scheme \<Rightarrow> ('p, 'z) artist_doc_scheme
    \<Rightarrow> bool" where
  "built_ok cfg d d' =
     (\<not> flag_set (essentiaProfileBuilt d) \<and> flag_set (essentiaProfileBuilt d')
      \<longrightarrow> maxTracks cfg \<le> int (length (matrix_of d')))"


section \<open>String helpers of \<^verbatim>\<open>server.js\<close>\<close>

text \<open>
  Strings are ASCII: \<^verbatim>\<open>toLowerCase\<close> maps \<open>A\<close>..\<open>Z\<close>, and the regular expression class
  \<^verbatim>\<open>\s\<close> is the six ASCII white-space characters.
\<close>

definition lower_char :: "char \<Rightarrow> char" where
  "lower_char c =
     (case map_of (zip ''ABCDEFGHIJKLMNOPQRSTUVWXYZ'' ''abcdefghijklmnopqrstuvwxyz'') c of
        None \<Rightarrow> c
      | Some l \<Rightarrow> l)"

definition toLowerCase :: "string \<Rightarrow> string" where
  "toLowerCase s = map lower_char s"

definition is_space :: "char \<Rightarrow> bool" where
  "is_space c = (c \<in> set [CHR '' '', CHR 0x09, CHR 0x0A, CHR 0x0B, CHR 0x0C, CHR 0x0D])"

definition trim :: "string \<Rightarrow> string" where
  "trim s = rev (dropWhile is_space (rev (dropWhile is_space s)))"

text \<open>\<^verbatim>\<open>hay.startsWith(needle)\<close>, \<^verbatim>\<open>hay.includes(needle)\<close> and \<^verbatim>\<open>hay.indexOf(needle)\<close>.\<close>

definition startsWith :: "string \<Rightarrow> string \<Rightarrow> bool" where
  "startsWith hay needle = (take (length needle) hay = needle)"

fun str_includes :: "string \<Rightarrow> string \<Rightarrow> bool" where
  "str_includes [] needle = (needle = [])"
| "str_includes (c # cs) needle = (startsWith (c # cs) needle \<or> str_includes cs needle)"

fun indexOf :: "string \<Rightarrow> string \<Rightarrow> nat option" where
  "indexOf [] needle = (if needle = [] then Some 0 else None)"
| "indexOf (c # cs) needle =
     (if startsWith (c # cs) needle then Some 0 else map_option Suc (indexOf cs needle))"

text \<open>
  \<^verbatim>\<open>base.replace(/\([^)]*\)/gi, '')\<close>: from the left, every \<open>(\<close> that has a \<open>)\<close> after it
  is removed together with the text up to the first such \<open>)\<close>. The fuel is the length
  of the string, which the scan never exceeds.
\<close>

fun strip_parens_fuel :: "nat \<Rightarrow> string \<Rightarrow> string" where
  "strip_parens_fuel 0 s = s"
| "strip_parens_fuel (Suc n) [] = []"
| "strip_parens_fuel (Suc n) (c # cs) =
     (if c = CHR ''('' \<and> CHR '')'' \<in> set cs
      then strip_parens_fuel n (tl (dropWhile (\<lambda>x. x \<noteq> CHR '')'') cs))
      else c # strip_parens_fuel n cs)"

definition strip_parens :: "string \<Rightarrow> string" where
  "strip_parens s = strip_parens_fuel (length s) s"

text \<open>\<^verbatim>\<open>s.replace(/\s{2,}/g, ' ')\<close>: a run of two or more white-space characters becomes one space.\<close>

function collapse_spaces :: "string \<Rightarrow> string" where
  "collapse_spaces [] = []"
| "collapse_spaces [c] = [c]"
| "collapse_spaces (c # d # cs) =
     (if is_space c \<and> is_space d
      then CHR '' '' # collapse_spaces (dropWhile is_space cs)
      else c # collapse_spaces (d # cs))"
  by pat_completeness auto
termination
  by (relation "measure length") (auto simp: le_imp_less_Suc length_dropWhile_le less_SucI)

text \<open>\<^verbatim>\<open>/remix|mixed|edit|reform|version/i.test(s)\<close>.\<close>

definition remix_suffix :: "string \<Rightarrow> bool" where
  "remix_suffix s =
     (\<exists>w \<in> set [''remix'', ''mixed'', ''edit'', ''reform'', ''version'']. str_includes (toLowerCase s) w)"

text \<open>
  \<^verbatim>\<open>simplifyName\<close>: the simplified name, and whether the call counted a suffix strip
  (\<^verbatim>\<open>acquisitionStats.previewRecovery.suffixStrips++\<close>).
\<close>

definition simplifyName :: "string \<Rightarrow> string \<times> bool" where
  "simplifyName nm =
     (if nm = [] then (nm, False)
      else
        (let base = trim (strip_parens nm) in
         case indexOf base '' - '' of
           None \<Rightarrow> (trim (collapse_spaces base), False)
         | Some dashIdx \<Rightarrow>
             if remix_suffix (drop (dashIdx + 3) base)
             then (trim (collapse_spaces (trim (take dashIdx base))), True)
             else (trim (collapse_spaces base), False)))"

text \<open>
  \<^verbatim>\<open>/mzstatic|audio-ssl\.itunes\.apple\.com/i.test(url)\<close>, and the search term of the
  iTunes lookup, \<^verbatim>\<open>`${artist} ${track}`.replace(/[^\w\s]/gi, '')\<close>.
\<close>

definition apple_host :: "string \<Rightarrow> bool" where
  "apple_host url =
     (str_includes (toLowerCase url) ''mzstatic''
      \<or> str_includes (toLowerCase url) ''audio-ssl.itunes.apple.com'')"

definition is_word_char :: "char \<Rightarrow> bool" where
  "is_word_char c =
     (c \<in> set ''abcdefghijklmnopqrstuvwxyzABCDEFGHIJKLMNOPQRSTUVWXYZ0123456789_'')"

definition apple_term :: "string \<Rightarrow> string \<Rightarrow> string" where
  "apple_term artist nm = filter (\<lambda>c. is_word_char c \<or> is_space c) (artist @ '' '' @ nm)"

text \<open>\<^verbatim>\<open>[...new Set(arr.filter(Boolean))]\<close>: empty strings dropped, first occurrences kept.\<close>

definition unique :: "string list \<Rightarrow> string list" where
  "unique xs = rev (fold (\<lambda>x acc. if x \<in> set acc then acc else x # acc) (filter (\<lambda>x. x \<noteq> []) xs) [])"


section \<open>The data of \<^verbatim>\<open>POST /api/analyze-artist\<close>\<close>

text \<open>
  A track as the catalogue returns it. \<open>artists\<close> holds the artists' names;
  \<^verbatim>\<open>track.artists[0]?.name\<close> is \<open>None\<close> on an empty list, and \<^verbatim>\<open>track.artists[0].name\<close>
  throws there.
\<close>

record track =
  track_id :: string
  track_name :: string
  artists :: "string list"
  popularity :: "nat option"
  preview_url :: "string option"
  applePreview :: bool
  isRecentRelease :: bool
  album :: "string option"

record album_item =
  album_id :: string
  album_name :: string
  release_year :: "int option"

record itunes_item =
  it_trackId :: string
  it_trackName :: string
  it_artistName :: string
  it_collectionName :: "string option"
  it_previewUrl :: "string option"

record sc_result =
  sc_streamUrl :: "string option"
  sc_previewUrl :: "string option"
  sc_confidence :: "rat option"

record best_source =
  bs_streamUrl :: "string option"
  bs_source :: string
  bs_confidence :: "rat option"

record alt_result =
  bestSource :: "best_source option"
  totalSources :: nat

text \<open>
  What \<^verbatim>\<open>await fetch(...)\<close> followed by \<^verbatim>\<open>response.json()\<close> gives: an exception, a
  response that is not \<^verbatim>\<open>ok\<close>, or the parsed body of an \<^verbatim>\<open>ok\<close> response.
\<close>

datatype 'a fetched = Throws js_error | NotOk | Ok 'a

text \<open>The provider calls a request makes, in the order it makes them.\<close>

datatype provider_call =
    SoundCloudCall "string option" string
  | ItunesCall string int
  | SpotifySearchCall string string
  | AggregatorCall "string option" string
  | EssentiaCall string

text \<open>
  The outside world of one request. A provider is asked with the number of provider
  calls made before in the request, so that the same question may be answered
  differently the second time. \<open>scClientId\<close> is whether
  \<^verbatim>\<open>process.env.SOUNDCLOUD_CLIENT_ID\<close> is set, \<open>marketsEnv\<close> the parsed
  \<^verbatim>\<open>SPOTIFY_PREVIEW_MARKETS\<close>, \<open>elapsedMs\<close> the value of \<^verbatim>\<open>Date.now() - startTime\<close>
  after round 1, \<open>dbConnected\<close> whether \<^verbatim>\<open>db\<close> is defined, \<open>persistThrows\<close> whether the
  upsert of the profile throws.
\<close>

record env =
  scClientId :: bool
  marketsEnv :: "string list"
  searchSoundCloudAudio :: "nat \<Rightarrow> string option \<Rightarrow> string \<Rightarrow> js_error + sc_result option"
  itunes_search :: "nat \<Rightarrow> string \<Rightarrow> int \<Rightarrow> itunes_item list fetched"
  spotify_search :: "nat \<Rightarrow> string \<Rightarrow> string \<Rightarrow> track list fetched"
  findAlternativeAudioSource :: "nat \<Rightarrow> string option \<Rightarrow> string \<Rightarrow> js_error + alt_result"
  analyzeAudioWithEssentia :: "nat \<Rightarrow> string \<Rightarrow> js_error + features"
  getSpotifyToken :: "string option"
  spotify_top_tracks :: "string \<Rightarrow> track list fetched"
  spotify_albums :: "string \<Rightarrow> album_item list fetched"
  spotify_album_tracks :: "string \<Rightarrow> track list fetched"
  spotify_artist_search :: "string \<Rightarrow> track list fetched"
  currentYear :: int
  clock :: nat
  elapsedMs :: nat
  dbConnected :: bool
  persistThrows :: bool

text \<open>
  A JavaScript number, as far as comparisons tell numbers apart: a finite value, \<^verbatim>\<open>NaN\<close>
  and the two infinities; \<^verbatim>\<open>n >= x\<close> and \<^verbatim>\<open>n < x\<close> for a count \<open>n\<close> (both are false
  for \<^verbatim>\<open>NaN\<close>).
\<close>

datatype js_number = Num rat | NaN | PosInfinity | NegInfinity

definition reached :: "nat \<Rightarrow> js_number \<Rightarrow> bool" where
  "reached n x =
     (case x of Num q \<Rightarrow> q \<le> of_nat n | NaN \<Rightarrow> False | PosInfinity \<Rightarrow> False
      | NegInfinity \<Rightarrow> True)"

definition below :: "nat \<Rightarrow> js_number \<Rightarrow> bool" where
  "below n x =
     (case x of Num q \<Rightarrow> of_nat n < q | NaN \<Rightarrow> False | PosInfinity \<Rightarrow> True
      | NegInfinity \<Rightarrow> False)"

text \<open>
  The body of the request, before the defaults of the destructuring. Of
  \<^verbatim>\<open>maxPreviewRecoveryAttempts\<close> the handler reads whether it is truthy and what
  \<^verbatim>\<open>Number()\<close> makes of it: \<open>None\<close> is a missing or falsy field, \<open>Some x\<close> a truthy field
  with \<^verbatim>\<open>Number(field) = x\<close>; \<open>x\<close> is any number (a negative one, 0 for the string
  \<^verbatim>\<open>'0'\<close>, \<^verbatim>\<open>NaN\<close> for a string that is no number).
\<close>

record request =
  req_artistName :: "string option"
  req_spotifyId :: "string option"
  req_maxTracks :: "int option"
  req_includeRecentReleases :: "bool option"
  req_existingGenres :: "string list option"
  req_accessToken :: "string option"
  req_fastMode :: "bool option"
  req_maxPreviewRecoveryAttempts :: "js_number option"
  req_previewStrategy :: "string option"
  req_forceSoundCloudTest :: bool

text \<open>
  What the handler fixes before the rounds: the defaults applied, the token, the
  lower-cased strategy and \<^verbatim>\<open>acquisitionStats.forceSoundCloudTest\<close> (\<open>forceFlag\<close>).
\<close>

record cfg =
  c_artistName :: string
  c_maxTracks :: int
  c_fastMode :: bool
  c_maxPreviewRecoveryAttempts :: "js_number option"
  spotifyToken :: "string option"
  previewStrategy :: string
  forceFlag :: bool

definition useApplePrimary :: "cfg \<Rightarrow> bool" where
  "useApplePrimary c = (previewStrategy c = ''apple_primary'')"

definition soundcloudPrimary :: "cfg \<Rightarrow> bool" where
  "soundcloudPrimary c = (previewStrategy c = ''soundcloud_primary'')"

text \<open>The inner \<^verbatim>\<open>forceSoundCloudTest\<close> of \<^verbatim>\<open>acquirePreviewForTrack\<close> (line 434).\<close>

definition forceSoundCloudTest :: "cfg \<Rightarrow> bool" where
  "forceSoundCloudTest c = (soundcloudPrimary c \<or> forceFlag c)"

text \<open>
  \<^verbatim>\<open>maxPreviewRecoveryAttempts ? Number(maxPreviewRecoveryAttempts) : (fastMode ? 20 : 120)\<close>
  (lines 410--412): the override is taken as it is, also when it is not positive.
\<close>

definition perTrackRecoveryLimit :: "cfg \<Rightarrow> js_number" where
  "perTrackRecoveryLimit c =
     (case c_maxPreviewRecoveryAttempts c of
        Some x \<Rightarrow> x
      | None \<Rightarrow> Num (if c_fastMode c then 20 else 120))"

text \<open>
  \<^verbatim>\<open>acquisitionStats\<close>: the counters the request updates. The coverage percentage and
  the sample of tracks without preview, which are only reported, are left out.
\<close>

record first_hit =
  fh_market :: string
  fh_pattern :: string
  fh_artist :: string
  fh_relaxed :: bool

record acquisitionStats =
  initialTracks :: nat
  methods_top :: nat
  methods_recent :: nat
  fallback_search :: bool
  fallback_appleMode :: bool
  previewSourceCounts :: "string \<Rightarrow> nat"
  round1_attempted :: nat
  round1_withPreview :: nat
  round2_withPreview :: nat
  spotifyPreviewRecovered :: nat
  soundcloudRescue :: nat
  pr_attempts :: nat
  pr_queries :: nat
  pr_hits :: nat
  pr_marketsTried :: "string list"
  pr_firstHit :: "first_hit option"
  pr_relaxedAttempts :: nat
  pr_suffixStrips :: nat
  previewRecoveryLimited :: bool
  spotifyPreviewSuppressed :: nat
  spotifySuppressedRestored :: nat
  sc_attempts :: nat
  sc_hits :: nat
  sc_queries :: "string list"
  appleOverrideSpotify :: nat
  spotifyRecoveryDisabled :: bool

definition initial_stats :: acquisitionStats where
  "initial_stats =
     \<lparr>initialTracks = 0, methods_top = 0, methods_recent = 0, fallback_search = False,
      fallback_appleMode = False, previewSourceCounts = (\<lambda>k. 0), round1_attempted = 0,
      round1_withPreview = 0, round2_withPreview = 0, spotifyPreviewRecovered = 0,
      soundcloudRescue = 0, pr_attempts = 0, pr_queries = 0, pr_hits = 0, pr_marketsTried = [],
      pr_firstHit = None, pr_relaxedAttempts = 0, pr_suffixStrips = 0,
      previewRecoveryLimited = False, spotifyPreviewSuppressed = 0,
      spotifySuppressedRestored = 0, sc_attempts = 0, sc_hits = 0, sc_queries = [],
      appleOverrideSpotify = 0, spotifyRecoveryDisabled = False\<rparr>"

text \<open>
  The variables of one \<^verbatim>\<open>acquirePreviewForTrack\<close> call together with what it shares
  with the request: the statistics and the provider calls made so far.
\<close>

record acq =
  v_previewUrl :: "string option"
  v_audioSource :: "string option"
  v_alternativeSourceInfo :: "alternative_source_info option"
  originalApplePreview :: "string option"
  originalSpotifyPreview :: "string option"
  perTrackAttempts :: nat
  recovered :: "track option"
  stats :: acquisitionStats
  calls :: "provider_call list"

text \<open>\<^verbatim>\<open>a || b\<close> on strings that may be absent.\<close>

definition js_or :: "string option \<Rightarrow> string option \<Rightarrow> string option" where
  "js_or a b = (if truthy a then a else b)"

text \<open>\<^verbatim>\<open>track.artists[0]?.name\<close>.\<close>

definition primaryArtist :: "track \<Rightarrow> string option" where
  "primaryArtist t = (case artists t of [] \<Rightarrow> None | a # rest \<Rightarrow> Some a)"

text \<open>Interpolating a name that may be undefined into a template string.\<close>

definition tmpl :: "string option \<Rightarrow> string" where
  "tmpl s = (case s of None \<Rightarrow> ''undefined'' | Some x \<Rightarrow> x)"

text \<open>
  Recording a SoundCloud query in \<^verbatim>\<open>soundcloudDiagnostics\<close>: the attempt is counted,
  and the normalised query text is kept while fewer than 12 are stored and it is new.
\<close>

definition normalize_query :: "string \<Rightarrow> string" where
  "normalize_query q = trim (collapse_spaces (map (\<lambda>c. if is_space c then CHR '' '' else c) q))"

definition note_sc_query :: "string \<Rightarrow> acquisitionStats \<Rightarrow> acquisitionStats" where
  "note_sc_query q s =
     (let s1 = s\<lparr>sc_attempts := sc_attempts s + 1\<rparr> in
      if length (sc_queries s1) < 12 \<and> normalize_query q \<notin> set (sc_queries s1)
      then s1\<lparr>sc_queries := sc_queries s1 @ [normalize_query q]\<rparr>
      else s1)"


section \<open>\<^verbatim>\<open>acquirePreviewForTrack\<close>\<close>

text \<open>Asking a provider: the answer for this call number, and the call recorded.\<close>

definition call_soundcloud :: "env \<Rightarrow> string option \<Rightarrow> string \<Rightarrow> acq
    \<Rightarrow> (js_error + sc_result option) \<times> acq" where
  "call_soundcloud e artist nm a =
     (searchSoundCloudAudio e (length (calls a)) artist nm,
      a\<lparr>calls := calls a @ [SoundCloudCall artist nm]\<rparr>)"

definition call_itunes :: "env \<Rightarrow> string \<Rightarrow> int \<Rightarrow> acq \<Rightarrow> itunes_item list fetched \<times> acq" where
  "call_itunes e term_text lmt a =
     (itunes_search e (length (calls a)) term_text lmt,
      a\<lparr>calls := calls a @ [ItunesCall term_text lmt]\<rparr>)"

definition call_spotify :: "env \<Rightarrow> string \<Rightarrow> string \<Rightarrow> acq \<Rightarrow> track list fetched \<times> acq" where
  "call_spotify e pattern market a =
     (spotify_search e (length (calls a)) pattern market,
      a\<lparr>calls := calls a @ [SpotifySearchCall pattern market]\<rparr>)"

definition call_aggregator :: "env \<Rightarrow> string option \<Rightarrow> string \<Rightarrow> acq
    \<Rightarrow> (js_error + alt_result) \<times> acq" where
  "call_aggregator e artist nm a =
     (findAlternativeAudioSource e (length (calls a)) artist nm,
      a\<lparr>calls := calls a @ [AggregatorCall artist nm]\<rparr>)"

text \<open>
  \<^verbatim>\<open>findApplePreviewUrl\<close> and \<^verbatim>\<open>findApplePreviewUrlBroader\<close>: a network error and a
  response that is not ok both give \<^verbatim>\<open>null\<close>.
\<close>

definition findApplePreviewUrl :: "env \<Rightarrow> string \<Rightarrow> string \<Rightarrow> acq \<Rightarrow> string option \<times> acq" where
  "findApplePreviewUrl e artist nm a =
     (case call_itunes e (apple_term artist nm) 1 a of
        (Throws err, a') \<Rightarrow> (None, a')
      | (NotOk, a') \<Rightarrow> (None, a')
      | (Ok found, a') \<Rightarrow>
          (case found of [] \<Rightarrow> (None, a') | r # rest \<Rightarrow> (it_previewUrl r, a')))"

definition findApplePreviewUrlBroader :: "env \<Rightarrow> string \<Rightarrow> string \<Rightarrow> acq \<Rightarrow> string option \<times> acq" where
  "findApplePreviewUrlBroader e artist nm a =
     (case call_itunes e artist 10 a of
        (Throws err, a') \<Rightarrow> (None, a')
      | (NotOk, a') \<Rightarrow> (None, a')
      | (Ok found, a') \<Rightarrow>
          (case filter (\<lambda>r. truthy (it_previewUrl r)) found of
             [] \<Rightarrow> (None, a')
           | r # rest \<Rightarrow> (it_previewUrl r, a')))"

text \<open>
  Lines 392--407: the known preview, its source, and the two suppressions. Under
  \<^verbatim>\<open>soundcloud_primary\<close> only a Spotify preview is suppressed (and remembered); with
  \<^verbatim>\<open>forceSoundCloudTest\<close> in the body every preview is.
\<close>

definition init_acq :: "cfg \<Rightarrow> track \<Rightarrow> acquisitionStats \<Rightarrow> provider_call list \<Rightarrow> acq" where
  "init_acq c t s cs =
     (let oap = (if truthy (preview_url t) \<and> (applePreview t \<or> apple_host (the (preview_url t)))
                 then preview_url t else None);
          src = (if truthy (preview_url t)
                 then (if truthy oap then Some ''apple'' else Some ''spotify'') else None);
          a0 = \<lparr>v_previewUrl = preview_url t, v_audioSource = src,
                v_alternativeSourceInfo = None, originalApplePreview = oap,
                originalSpotifyPreview = None, perTrackAttempts = 0, recovered = None,
                stats = s, calls = cs\<rparr>;
          a1 = (if truthy (v_previewUrl a0) \<and> previewStrategy c = ''soundcloud_primary''
                   \<and> v_audioSource a0 = Some ''spotify''
                then a0\<lparr>originalSpotifyPreview := v_previewUrl a0, v_previewUrl := None,
                        v_audioSource := None,
                        stats := (stats a0)\<lparr>spotifyPreviewSuppressed :=
                                               spotifyPreviewSuppressed (stats a0) + 1\<rparr>\<rparr>
                else a0)
      in if truthy (v_previewUrl a1) \<and> forceFlag c
         then a1\<lparr>v_previewUrl := None, v_audioSource := None\<rparr>
         else a1)"

text \<open>A SoundCloud answer that carries a stream or preview URL, and taking it.\<close>

definition sc_hit :: "sc_result option \<Rightarrow> bool" where
  "sc_hit r = (case r of None \<Rightarrow> False
               | Some x \<Rightarrow> truthy (sc_streamUrl x) \<or> truthy (sc_previewUrl x))"

definition conf_or :: "rat option \<Rightarrow> rat \<Rightarrow> rat" where
  "conf_or c dflt = (case c of None \<Rightarrow> dflt | Some v \<Rightarrow> if v \<noteq> 0 then v else dflt)"

definition take_soundcloud :: "sc_result \<Rightarrow> rat \<Rightarrow> bool \<Rightarrow> bool \<Rightarrow> bool \<Rightarrow> acq \<Rightarrow> acq" where
  "take_soundcloud x dflt forced simplified artistOnly a =
     a\<lparr>v_previewUrl := js_or (sc_streamUrl x) (sc_previewUrl x),
       v_audioSource := Some ''soundcloud'',
       v_alternativeSourceInfo :=
         Some \<lparr>asi_source = ''soundcloud'', asi_confidence = Some (conf_or (sc_confidence x) dflt),
               asi_forced = forced, asi_simplified = simplified, asi_artistOnly = artistOnly,
               asi_totalSources = None\<rparr>,
       stats := (stats a)\<lparr>soundcloudRescue := soundcloudRescue (stats a) + 1,
                          sc_hits := sc_hits (stats a) + 1\<rparr>\<rparr>"

text \<open>
  One SoundCloud query inside a \<^verbatim>\<open>try\<close>: the query is noted, the provider asked, a hit
  taken. The first component is the exception the provider threw, if any. (The test
  \<^verbatim>\<open>!previewUrl\<close> written again before the simplified hit repeats the guard of its block.)
\<close>

definition sc_query :: "env \<Rightarrow> string \<Rightarrow> string option \<Rightarrow> string \<Rightarrow> rat \<Rightarrow> bool \<Rightarrow> bool \<Rightarrow> bool
    \<Rightarrow> acq \<Rightarrow> js_error option \<times> acq" where
  "sc_query e q artist nm dflt forced simplified artistOnly a =
     (case call_soundcloud e artist nm (a\<lparr>stats := note_sc_query q (stats a)\<rparr>) of
        (Inl err, a') \<Rightarrow> (Some err, a')
      | (Inr r, a') \<Rightarrow>
          if sc_hit r
          then (None, take_soundcloud (the r) dflt forced simplified artistOnly a')
          else (None, a'))"

text \<open>Lines 437--457: the early SoundCloud query of the forced test; the \<^verbatim>\<open>catch\<close> is empty.\<close>

definition early_soundcloud :: "env \<Rightarrow> cfg \<Rightarrow> track \<Rightarrow> acq \<Rightarrow> acq" where
  "early_soundcloud e c t a =
     (if \<not> truthy (v_previewUrl a) \<and> forceSoundCloudTest c \<and> scClientId e
      then snd (sc_query e (tmpl (primaryArtist t) @ '' :: '' @ track_name t)
                  (primaryArtist t) (track_name t) (85 / 100) True False False a)
      else a)"

text \<open>
  Lines 460--499: the relaxed queries. The simplified name is searched when it differs
  from the name; the artist-only query follows when there is still no preview. An
  exception of the first query leaves the \<^verbatim>\<open>try\<close>, so the second is not made.
\<close>

definition relaxed_soundcloud :: "env \<Rightarrow> cfg \<Rightarrow> track \<Rightarrow> acq \<Rightarrow> acq" where
  "relaxed_soundcloud e c t a =
     (if \<not> truthy (v_previewUrl a) \<and> (forceSoundCloudTest c \<or> soundcloudPrimary c) \<and> scClientId e
      then
        (let simple = fst (simplifyName (track_name t));
             a0 = (if snd (simplifyName (track_name t))
                   then a\<lparr>stats := (stats a)\<lparr>pr_suffixStrips := pr_suffixStrips (stats a) + 1\<rparr>\<rparr>
                   else a);
             r1 = (if simple \<noteq> [] \<and> simple \<noteq> track_name t
                   then sc_query e (tmpl (primaryArtist t) @ '' :: '' @ simple)
                          (primaryArtist t) simple (8 / 10) False True False a0
                   else (None, a0))
         in case r1 of
              (Some err, a1) \<Rightarrow> a1
            | (None, a1) \<Rightarrow>
                if \<not> truthy (v_previewUrl a1)
                then snd (sc_query e (tmpl (primaryArtist t)) (primaryArtist t) []
                            (7 / 10) False False True a1)
                else a1)
      else a)"

text \<open>
  Lines 502--522: the Apple lookups of \<^verbatim>\<open>apple_primary\<close>, skipped under the forced test.
  Inside its \<^verbatim>\<open>try\<close> the exact lookup assigns its result to \<^verbatim>\<open>previewUrl\<close> whatever it is.
\<close>

definition apple_primary_step :: "env \<Rightarrow> cfg \<Rightarrow> track \<Rightarrow> acq \<Rightarrow> acq" where
  "apple_primary_step e c t a =
     (if useApplePrimary c \<and> \<not> forceSoundCloudTest c
      then
        (let hadSpotify = truthy (v_previewUrl a);
             a2 = (if artists t \<noteq> [] \<and> track_name t \<noteq> []
                   then
                     (let a1 = (if \<not> truthy (v_previewUrl a)
                                then (case findApplePreviewUrl e (hd (artists t)) (track_name t) a of
                                        (u, a') \<Rightarrow>
                                          if truthy u
                                          then a'\<lparr>v_previewUrl := u, v_audioSource := Some ''apple''\<rparr>
                                          else a'\<lparr>v_previewUrl := u\<rparr>)
                                else a)
                      in if \<not> truthy (v_previewUrl a1)
                         then (case findApplePreviewUrlBroader e (hd (artists t)) (track_name t) a1 of
                                 (u, a') \<Rightarrow>
                                   if truthy u
                                   then a'\<lparr>v_previewUrl := u, v_audioSource := Some ''apple_broad''\<rparr>
                                   else a')
                         else a1)
                   else a)
         in if truthy (v_previewUrl a2) \<and> truthy (v_audioSource a2) \<and> hadSpotify
               \<and> startsWith (the (v_audioSource a2)) ''apple''
            then a2\<lparr>stats := (stats a2)\<lparr>appleOverrideSpotify := appleOverrideSpotify (stats a2) + 1\<rparr>\<rparr>
            else a2)
      else a)"


section \<open>The Spotify recovery of the balanced strategy (lines 525--614)\<close>

definition dq :: string where
  "dq = [CHR 0x22]"

text \<open>The two exact and the two relaxed search patterns for one artist candidate.\<close>

definition exact_patterns :: "string \<Rightarrow> string \<Rightarrow> string list" where
  "exact_patterns nm cand =
     [''track:'' @ dq @ nm @ dq @ '' artist:'' @ dq @ cand @ dq,
      ''track:'' @ dq @ nm @ dq @ '' '' @ dq @ cand @ dq]"

definition relaxed_patterns :: "string \<Rightarrow> string \<Rightarrow> string list" where
  "relaxed_patterns simple cand =
     [''track:'' @ dq @ simple @ dq @ '' artist:'' @ dq @ cand @ dq,
      simple @ '' '' @ cand]"

text \<open>
  \<^verbatim>\<open>it.preview_url && (it.id === track.id || it.name.toLowerCase() === nm.toLowerCase())\<close>.
\<close>

definition recovery_match :: "track \<Rightarrow> string \<Rightarrow> track \<Rightarrow> bool" where
  "recovery_match t nm it =
     (truthy (preview_url it)
      \<and> (track_id it = track_id t \<or> toLowerCase (track_name it) = toLowerCase nm))"

definition count_query :: "bool \<Rightarrow> acquisitionStats \<Rightarrow> acquisitionStats" where
  "count_query relaxed s =
     (let s1 = s\<lparr>pr_attempts := pr_attempts s + 1\<rparr>;
          s2 = (if relaxed then s1\<lparr>pr_relaxedAttempts := pr_relaxedAttempts s1 + 1\<rparr> else s1)
      in s2\<lparr>pr_queries := pr_queries s2 + 1\<rparr>)"

definition count_hit :: "string \<Rightarrow> string \<Rightarrow> string \<Rightarrow> bool \<Rightarrow> acquisitionStats \<Rightarrow> acquisitionStats" where
  "count_hit m pattern cand relaxed s =
     (let s1 = s\<lparr>pr_hits := pr_hits s + 1\<rparr> in
      if pr_firstHit s1 = None
      then s1\<lparr>pr_firstHit := Some \<lparr>fh_market = m, fh_pattern = pattern, fh_artist = cand,
                                     fh_relaxed = relaxed\<rparr>\<rparr>
      else s1)"

text \<open>
  The loop over the patterns of one candidate. It ends when the attempt budget is used
  up (\<^verbatim>\<open>previewRecoveryLimited\<close>), at a hit, or with the exception of a fetch; a
  response that is not ok, or one without a match, counts one attempt and goes on.
\<close>

fun patterns_loop :: "env \<Rightarrow> cfg \<Rightarrow> track \<Rightarrow> string \<Rightarrow> string \<Rightarrow> bool \<Rightarrow> string
    \<Rightarrow> string list \<Rightarrow> acq \<Rightarrow> js_error option \<times> acq" where
  "patterns_loop e c t m cand relaxed nm [] a = (None, a)"
| "patterns_loop e c t m cand relaxed nm (p # ps) a =
     (if reached (perTrackAttempts a) (perTrackRecoveryLimit c)
      then (None, a\<lparr>stats := (stats a)\<lparr>previewRecoveryLimited := True\<rparr>\<rparr>)
      else
        (case call_spotify e p m (a\<lparr>stats := count_query relaxed (stats a)\<rparr>) of
           (Throws err, a1) \<Rightarrow> (Some err, a1)
         | (NotOk, a1) \<Rightarrow>
             patterns_loop e c t m cand relaxed nm ps
               (a1\<lparr>perTrackAttempts := perTrackAttempts a1 + 1\<rparr>)
         | (Ok found, a1) \<Rightarrow>
             (case filter (recovery_match t nm) found of
                [] \<Rightarrow>
                  patterns_loop e c t m cand relaxed nm ps
                    (a1\<lparr>perTrackAttempts := perTrackAttempts a1 + 1\<rparr>)
              | hit # rest \<Rightarrow>
                  (None, a1\<lparr>recovered := Some hit,
                             stats := count_hit m p cand relaxed (stats a1)\<rparr>))))"

text \<open>
  The loop over the artist candidates in one market. After the exact patterns it leaves
  on a hit or on a used-up budget (\<^verbatim>\<open>perTrackAttempts >= perTrackRecoveryLimit\<close>);
  otherwise, when \<^verbatim>\<open>perTrackAttempts < perTrackRecoveryLimit\<close>, the name is simplified and
  the relaxed patterns follow when the simplified name differs; then the next candidate
  is tried (also after a relaxed hit: the source tests \<^verbatim>\<open>recovered\<close> only after the exact
  patterns). With a limit that is \<^verbatim>\<open>NaN\<close> neither comparison holds.
\<close>

fun cand_loop :: "env \<Rightarrow> cfg \<Rightarrow> track \<Rightarrow> string \<Rightarrow> string list \<Rightarrow> acq \<Rightarrow> js_error option \<times> acq" where
  "cand_loop e c t m [] a = (None, a)"
| "cand_loop e c t m (cand # cands) a =
     (case patterns_loop e c t m cand False (track_name t)
             (exact_patterns (track_name t) cand) a of
        (Some err, a1) \<Rightarrow> (Some err, a1)
      | (None, a1) \<Rightarrow>
          if recovered a1 \<noteq> None then (None, a1)
          else if reached (perTrackAttempts a1) (perTrackRecoveryLimit c) then (None, a1)
          else if below (perTrackAttempts a1) (perTrackRecoveryLimit c)
          then
            (let simple = fst (simplifyName (track_name t));
                 a2 = (if snd (simplifyName (track_name t))
                       then a1\<lparr>stats := (stats a1)\<lparr>pr_suffixStrips :=
                                                        pr_suffixStrips (stats a1) + 1\<rparr>\<rparr>
                       else a1)
             in if simple \<noteq> [] \<and> simple \<noteq> track_name t
                then (case patterns_loop e c t m cand True simple
                             (relaxed_patterns simple cand) a2 of
                        (Some err, a3) \<Rightarrow> (Some err, a3)
                      | (None, a3) \<Rightarrow> cand_loop e c t m cands a3)
                else cand_loop e c t m cands a2)
          else cand_loop e c t m cands a1)"

fun market_loop :: "env \<Rightarrow> cfg \<Rightarrow> track \<Rightarrow> string list \<Rightarrow> string list \<Rightarrow> acq
    \<Rightarrow> js_error option \<times> acq" where
  "market_loop e c t cands [] a = (None, a)"
| "market_loop e c t cands (m # ms) a =
     (let a0 = (if m \<in> set (pr_marketsTried (stats a)) then a
                else a\<lparr>stats := (stats a)\<lparr>pr_marketsTried := pr_marketsTried (stats a) @ [m]\<rparr>\<rparr>)
      in case cand_loop e c t m cands a0 of
           (Some err, a1) \<Rightarrow> (Some err, a1)
         | (None, a1) \<Rightarrow>
             if recovered a1 \<noteq> None then (None, a1)
             else if reached (perTrackAttempts a1) (perTrackRecoveryLimit c) then (None, a1)
             else market_loop e c t cands ms a1)"

text \<open>
  The markets (only the first one in fast mode, \<^verbatim>\<open>'US'\<close> when the list is empty) and
  the artist candidates: the track's first artist, the requested artist, the track's
  other artists.
\<close>

definition recovery_markets :: "env \<Rightarrow> cfg \<Rightarrow> string list" where
  "recovery_markets e c =
     (if c_fastMode c
      then [case marketsEnv e of [] \<Rightarrow> ''US'' | m # ms \<Rightarrow> m]
      else marketsEnv e)"

definition artistCandidates :: "cfg \<Rightarrow> track \<Rightarrow> string list" where
  "artistCandidates c t =
     unique ((case artists t of [] \<Rightarrow> [] | a # rest \<Rightarrow> [a]) @ [c_artistName c] @ tl (artists t))"

text \<open>
  The recovery step with its \<^verbatim>\<open>try\<close>: an exception of a fetch ends the whole step and
  is dropped; a recovered track with a preview becomes the preview.
\<close>

definition spotify_recovery :: "env \<Rightarrow> cfg \<Rightarrow> track \<Rightarrow> acq \<Rightarrow> acq" where
  "spotify_recovery e c t a =
     (if \<not> truthy (v_previewUrl a) \<and> truthy (spotifyToken c) \<and> \<not> useApplePrimary c
         \<and> \<not> forceSoundCloudTest c \<and> \<not> soundcloudPrimary c
      then
        (case market_loop e c t (artistCandidates c t) (recovery_markets e c)
                (a\<lparr>recovered := None\<rparr>) of
           (Some err, a1) \<Rightarrow> a1
         | (None, a1) \<Rightarrow>
             (case recovered a1 of
                None \<Rightarrow> a1
              | Some hit \<Rightarrow>
                  if truthy (preview_url hit)
                  then a1\<lparr>v_previewUrl := preview_url hit, v_audioSource := Some ''spotify'',
                          stats := (stats a1)\<lparr>spotifyPreviewRecovered :=
                                                 spotifyPreviewRecovered (stats a1) + 1\<rparr>\<rparr>
                  else a1))
      else a)"

section \<open>The remaining steps of \<^verbatim>\<open>acquirePreviewForTrack\<close> (lines 615--684)\<close>

definition note_recovery_disabled :: "cfg \<Rightarrow> acq \<Rightarrow> acq" where
  "note_recovery_disabled c a =
     (if (useApplePrimary c \<or> forceSoundCloudTest c \<or> soundcloudPrimary c) \<and> \<not> truthy (v_previewUrl a)
      then a\<lparr>stats := (stats a)\<lparr>spotifyRecoveryDisabled := True\<rparr>\<rparr>
      else a)"

text \<open>
  Steps (2) and (3), balanced strategy only. \<^verbatim>\<open>track.artists[0].name\<close> throws on a track
  without artists, inside the \<^verbatim>\<open>try\<close>: the lookup is then not made.
\<close>

definition apple_exact_step :: "env \<Rightarrow> cfg \<Rightarrow> track \<Rightarrow> acq \<Rightarrow> acq" where
  "apple_exact_step e c t a =
     (if \<not> truthy (v_previewUrl a) \<and> \<not> useApplePrimary c \<and> \<not> forceSoundCloudTest c
         \<and> \<not> soundcloudPrimary c
      then (case artists t of
              [] \<Rightarrow> a
            | ar # rest \<Rightarrow>
                (case findApplePreviewUrl e ar (track_name t) a of
                   (u, a') \<Rightarrow>
                     if truthy u then a'\<lparr>v_previewUrl := u, v_audioSource := Some ''apple''\<rparr>
                     else a'\<lparr>v_previewUrl := u\<rparr>))
      else a)"

definition apple_broad_step :: "env \<Rightarrow> cfg \<Rightarrow> track \<Rightarrow> acq \<Rightarrow> acq" where
  "apple_broad_step e c t a =
     (if \<not> truthy (v_previewUrl a) \<and> \<not> useApplePrimary c \<and> \<not> forceSoundCloudTest c
         \<and> \<not> soundcloudPrimary c
      then (case artists t of
              [] \<Rightarrow> a
            | ar # rest \<Rightarrow>
                (case findApplePreviewUrlBroader e ar (track_name t) a of
                   (u, a') \<Rightarrow>
                     if truthy u then a'\<lparr>v_previewUrl := u, v_audioSource := Some ''apple_broad''\<rparr>
                     else a'\<lparr>v_previewUrl := u\<rparr>))
      else a)"

text \<open>Step (4): the plain SoundCloud query, when a client id is configured.\<close>

definition soundcloud_step :: "env \<Rightarrow> track \<Rightarrow> acq \<Rightarrow> acq" where
  "soundcloud_step e t a =
     (if \<not> truthy (v_previewUrl a) \<and> scClientId e
      then snd (sc_query e (tmpl (primaryArtist t) @ '' :: '' @ track_name t)
                  (primaryArtist t) (track_name t) (8 / 10) False False False a)
      else a)"

text \<open>Step (5): the aggregator of the minor sources.\<close>

definition aggregator_step :: "env \<Rightarrow> track \<Rightarrow> acq \<Rightarrow> acq" where
  "aggregator_step e t a =
     (if \<not> truthy (v_previewUrl a)
      then (case call_aggregator e (primaryArtist t) (track_name t) a of
              (Inl err, a') \<Rightarrow> a'
            | (Inr r, a') \<Rightarrow>
                (case bestSource r of
                   None \<Rightarrow> a'
                 | Some b \<Rightarrow>
                     if truthy (bs_streamUrl b)
                     then a'\<lparr>v_previewUrl := bs_streamUrl b, v_audioSource := Some (bs_source b),
                             v_alternativeSourceInfo :=
                               Some \<lparr>asi_source = bs_source b, asi_confidence = bs_confidence b,
                                     asi_forced = False, asi_simplified = False,
                                     asi_artistOnly = False,
                                     asi_totalSources = Some (totalSources r)\<rparr>\<rparr>
                     else a'))
      else a)"

text \<open>
  Step (6) and the two restorations. The last test reads
  \<^verbatim>\<open>soundcloudPrimary && !forceSoundCloudTest\<close> with the inner \<^verbatim>\<open>forceSoundCloudTest\<close>.
\<close>

definition spotify_fallback_step :: "cfg \<Rightarrow> track \<Rightarrow> acq \<Rightarrow> acq" where
  "spotify_fallback_step c t a =
     (if useApplePrimary c \<and> \<not> forceSoundCloudTest c \<and> \<not> soundcloudPrimary c
         \<and> \<not> truthy (v_previewUrl a) \<and> truthy (preview_url t)
      then a\<lparr>v_previewUrl := preview_url t, v_audioSource := Some ''spotify''\<rparr>
      else a)"

definition restore_apple_step :: "cfg \<Rightarrow> acq \<Rightarrow> acq" where
  "restore_apple_step c a =
     (if \<not> truthy (v_previewUrl a) \<and> (soundcloudPrimary c \<or> forceSoundCloudTest c)
         \<and> truthy (originalApplePreview a)
      then a\<lparr>v_previewUrl := originalApplePreview a, v_audioSource := Some ''apple''\<rparr>
      else a)"

definition restore_spotify_step :: "cfg \<Rightarrow> acq \<Rightarrow> acq" where
  "restore_spotify_step c a =
     (if \<not> truthy (v_previewUrl a) \<and> soundcloudPrimary c \<and> \<not> forceSoundCloudTest c
         \<and> truthy (originalSpotifyPreview a)
      then a\<lparr>v_previewUrl := originalSpotifyPreview a, v_audioSource := Some ''spotify'',
              stats := (stats a)\<lparr>spotifySuppressedRestored :=
                                    spotifySuppressedRestored (stats a) + 1\<rparr>\<rparr>
      else a)"

text \<open>
  The whole function. Every provider call stands in a \<^verbatim>\<open>try\<close> of its step, so the
  function returns for every behaviour of the providers.
\<close>

definition acquirePreviewForTrack :: "env \<Rightarrow> cfg \<Rightarrow> track \<Rightarrow> acquisitionStats
    \<Rightarrow> provider_call list \<Rightarrow> acq" where
  "acquirePreviewForTrack e c t s cs =
     restore_spotify_step c
       (restore_apple_step c
         (spotify_fallback_step c t
           (aggregator_step e t
             (soundcloud_step e t
               (apple_broad_step e c t
                 (apple_exact_step e c t
                   (note_recovery_disabled c
                     (spotify_recovery e c t
                       (apple_primary_step e c t
                         (relaxed_soundcloud e c t
                           (early_soundcloud e c t
                             (init_acq c t s cs))))))))))))"


section \<open>Genres (\<^verbatim>\<open>buildGenreMapping\<close> and its helpers)\<close>

text \<open>
  \<^verbatim>\<open>calculateAverageFeatures\<close> for one feature: the mean of the values that are defined,
  \<open>None\<close> (the key is absent) when there is none. Numbers are rationals: the code
  adds and divides IEEE doubles, and their rounding can put a mean on the other side of
  a threshold of the rules below; the theorems of this file use the inference only as
  an unevaluated term.
\<close>

definition feature_values :: "track_profile list \<Rightarrow> string \<Rightarrow> rat list" where
  "feature_values ps f =
     concat (map (\<lambda>p. case map_of (essentiaFeatures p) f of None \<Rightarrow> [] | Some v \<Rightarrow> [v]) ps)"

definition average_feature :: "track_profile list \<Rightarrow> string \<Rightarrow> rat option" where
  "average_feature ps f =
     (if feature_values ps f = [] then None
      else Some (sum_list (feature_values ps f) / of_nat (length (feature_values ps f))))"

text \<open>Comparisons with a value that may be undefined are false; \<^verbatim>\<open>!x\<close> holds for undefined and 0.\<close>

definition gt :: "rat option \<Rightarrow> rat \<Rightarrow> bool" where
  "gt x b = (case x of None \<Rightarrow> False | Some v \<Rightarrow> v > b)"

definition lt :: "rat option \<Rightarrow> rat \<Rightarrow> bool" where
  "lt x b = (case x of None \<Rightarrow> False | Some v \<Rightarrow> v < b)"

definition falsy_num :: "rat option \<Rightarrow> bool" where
  "falsy_num x = (case x of None \<Rightarrow> True | Some v \<Rightarrow> v = 0)"

definition genre_rules :: "rat option \<Rightarrow> rat option \<Rightarrow> rat option \<Rightarrow> rat option \<Rightarrow> string list" where
  "genre_rules energy tempo danceability valence =
     (if gt energy (75 / 100) \<and> gt tempo 125 \<and> gt danceability (65 / 100)
      then [''edm'', ''electronic'', ''dance'']
      else if gt energy (7 / 10) \<and> gt tempo 120 then [''electronic'', ''dance''] else [])
     @ (if gt tempo 115 \<and> lt tempo 135 \<and> gt danceability (7 / 10)
        then [''house'', ''techno''] else [])
     @ (if gt tempo 130 \<and> gt energy (8 / 10) \<and> gt valence (6 / 10) then [''trance''] else [])
     @ (if gt energy (8 / 10) \<and> gt tempo 140 then [''dubstep'', ''bass''] else [])
     @ (if gt energy (6 / 10) \<and> gt danceability (7 / 10) \<and> gt valence (5 / 10)
        then [''pop'', ''dance-pop''] else [])
     @ (if lt valence (4 / 10) \<and> lt energy (6 / 10) then [''indie'', ''alternative''] else [])
     @ (if lt tempo 100 \<and> lt energy (4 / 10) then [''ambient'', ''downtempo''] else [])
     @ (if gt tempo 80 \<and> lt tempo 110 \<and> gt energy (6 / 10) then [''hip-hop'', ''rap''] else [])"

definition inferGenresFromTracks :: "track_profile list \<Rightarrow> string list" where
  "inferGenresFromTracks ps =
     (if ps = [] then []
      else
        (let energy = average_feature ps ''energy'';
             tempo = average_feature ps ''tempo'';
             danceability = average_feature ps ''danceability'';
             valence = average_feature ps ''valence''
         in if falsy_num energy \<and> falsy_num tempo \<and> falsy_num danceability then []
            else take 3 (unique (genre_rules energy tempo danceability valence))))"

definition name_matches :: "string \<Rightarrow> string list \<Rightarrow> bool" where
  "name_matches nm known = (\<exists>k \<in> set known. str_includes nm k)"

definition inferGenreFromArtistName :: "string \<Rightarrow> string list" where
  "inferGenreFromArtistName artist =
     (let nm = toLowerCase artist in
      if name_matches nm [''deadmau5'', ''skrillex'', ''calvin harris'', ''tiesto'', ''david guetta'',
            ''armin van buuren'', ''martin garrix'', ''diplo'', ''zedd'', ''marshmello'', ''fisher'',
            ''ferry corsten'', ''dvbbs'', ''rezz'', ''porter robinson'', ''richie hawtin'', ''tiga'',
            ''above & beyond'', ''eric prydz'', ''deadmau5'', ''swedish house mafia'', ''axwell'',
            ''steve angello'', ''sebastian ingrosso'']
      then [''edm'', ''electronic'', ''dance'']
      else if name_matches nm [''metallica'', ''iron maiden'', ''black sabbath'', ''suffocation'',
            ''killswitch engage'', ''parkway drive'', ''beartooth'', ''anvil'']
      then [''rock'', ''metal'']
      else if name_matches nm [''wu-tang clan'', ''run the jewels'', ''big sean'', ''russ'']
      then [''hip-hop'', ''rap'']
      else if name_matches nm [''coldplay'', ''shania twain'', ''luke bryan'', ''thomas rhett'']
      then [''pop'']
      else if name_matches nm [''pup'', ''jeff rosenstock'', ''kurt vile'', ''tripping daisy'', ''mest'']
      then [''indie'', ''alternative'']
      else [])"

definition buildGenreMapping :: "track_profile list \<Rightarrow> string \<Rightarrow> string list \<Rightarrow> genre_mapping" where
  "buildGenreMapping ps artist existingGenres =
     (if length existingGenres > 0
      then \<lparr>inferredGenres = take 5 existingGenres, gm_source = ''spotify'', gm_confidence = 1\<rparr>
      else if length (inferGenresFromTracks ps) > 0
      then \<lparr>inferredGenres = inferGenresFromTracks ps, gm_source = ''audio_analysis'',
            gm_confidence = 8 / 10\<rparr>
      else if length (inferGenreFromArtistName artist) > 0
      then \<lparr>inferredGenres = inferGenreFromArtistName artist, gm_source = ''name_inference'',
            gm_confidence = 6 / 10\<rparr>
      else \<lparr>inferredGenres = [], gm_source = ''none'', gm_confidence = 0\<rparr>)"

section \<open>The rounds\<close>

text \<open>
  What the handler accumulates: the statistics, the provider calls, the track profiles,
  the failure reasons, the warnings of the \<^verbatim>\<open>catch\<close> blocks of the rounds, and the
  success counts.
\<close>

record hstate =
  h_stats :: acquisitionStats
  h_calls :: "provider_call list"
  trackProfiles :: "track_profile list"
  failureReasons :: "string list"
  warnings :: "string list"
  round1Success :: nat
  round2Success :: nat

definition bump_source :: "string \<Rightarrow> acquisitionStats \<Rightarrow> acquisitionStats" where
  "bump_source k s = s\<lparr>previewSourceCounts := (previewSourceCounts s)(k := previewSourceCounts s k + 1)\<rparr>"

definition make_profile :: "env \<Rightarrow> nat \<Rightarrow> track \<Rightarrow> acq \<Rightarrow> features \<Rightarrow> track_profile" where
  "make_profile e rnd t a f =
     \<lparr>trackId = track_id t, tp_name = track_name t, tp_artist = primaryArtist t,
      tp_popularity = popularity t, tp_isRecentRelease = isRecentRelease t, albumInfo = album t,
      previewUrl = the (v_previewUrl a), audioSource = v_audioSource a,
      alternativeSourceInfo = v_alternativeSourceInfo a, essentiaFeatures = f,
      analyzedAt = clock e, analysisRound = rnd\<rparr>"

text \<open>
  The body of the \<^verbatim>\<open>try\<close> of one track in round \<open>rnd\<close>: the preview is acquired and
  counted by source; with a preview the extraction runs and the profile is pushed,
  without one the failure reason is noted. The first component is the exception of the
  extraction, thrown before anything is pushed.
\<close>

definition analyze_track :: "env \<Rightarrow> cfg \<Rightarrow> nat \<Rightarrow> track \<Rightarrow> hstate \<Rightarrow> js_error option \<times> hstate" where
  "analyze_track e c rnd t h =
     (let a = acquirePreviewForTrack e c t (h_stats h) (h_calls h);
          s1 = (if truthy (v_previewUrl a) \<and> truthy (v_audioSource a)
                then bump_source (the (v_audioSource a)) (stats a) else stats a)
      in if truthy (v_previewUrl a)
         then
           (case analyzeAudioWithEssentia e (length (calls a)) (the (v_previewUrl a)) of
              Inl err \<Rightarrow>
                (Some err, h\<lparr>h_stats := s1,
                              h_calls := calls a @ [EssentiaCall (the (v_previewUrl a))]\<rparr>)
            | Inr f \<Rightarrow>
                (None,
                 h\<lparr>h_stats := (if rnd = 1
                                then s1\<lparr>round1_withPreview := round1_withPreview s1 + 1\<rparr>
                                else s1\<lparr>round2_withPreview := round2_withPreview s1 + 1\<rparr>),
                   h_calls := calls a @ [EssentiaCall (the (v_previewUrl a))],
                   trackProfiles := trackProfiles h @ [make_profile e rnd t a f],
                   round1Success := (if rnd = 1 then round1Success h + 1 else round1Success h),
                   round2Success := (if rnd = 1 then round2Success h else round2Success h + 1)\<rparr>))
         else
           (None,
            h\<lparr>h_stats := bump_source ''none'' s1, h_calls := calls a,
              failureReasons := failureReasons h
                 @ [if rnd = 1 then ''no_preview_round1'' else ''no_preview_round2'']\<rparr>))"

text \<open>
  The \<^verbatim>\<open>for\<close> loop of a round: the \<^verbatim>\<open>catch\<close> of a track warns and the loop goes on with
  the next track.
\<close>

fun round_loop :: "env \<Rightarrow> cfg \<Rightarrow> nat \<Rightarrow> track list \<Rightarrow> hstate \<Rightarrow> hstate" where
  "round_loop e c rnd [] h = h"
| "round_loop e c rnd (t # ts) h =
     (case analyze_track e c rnd t h of
        (Some err, h1) \<Rightarrow>
          round_loop e c rnd ts (h1\<lparr>warnings := warnings h1 @ [track_name t]\<rparr>)
      | (None, h1) \<Rightarrow> round_loop e c rnd ts h1)"

text \<open>
  The gate of round 2 (line 754). \<^verbatim>\<open>round1Success / round1Tracks.length\<close> is \<^verbatim>\<open>NaN\<close>
  for an empty round 1, and \<^verbatim>\<open>NaN >= 0.4\<close> is false.
\<close>

definition round1SuccessRate_ok :: "nat \<Rightarrow> nat \<Rightarrow> bool" where
  "round1SuccessRate_ok succ attempted =
     (attempted \<noteq> 0 \<and> (of_nat succ / of_nat attempted :: rat) \<ge> 4 / 10)"

definition nearingTimeout :: "env \<Rightarrow> bool" where
  "nearingTimeout e = (elapsedMs e > 22000)"

definition round2_runs :: "env \<Rightarrow> cfg \<Rightarrow> nat \<Rightarrow> nat \<Rightarrow> bool" where
  "round2_runs e c succ attempted =
     (\<not> c_fastMode c \<and> \<not> nearingTimeout e \<and> round1SuccessRate_ok succ attempted
      \<and> c_maxTracks c > 10)"

text \<open>The selection of the tracks of the two rounds (lines 370--379 and 758--760).\<close>

definition topTracks :: "track list \<Rightarrow> track list" where
  "topTracks ts = filter (\<lambda>t. \<not> isRecentRelease t) ts"

definition recentTracks :: "track list \<Rightarrow> track list" where
  "recentTracks ts = filter (\<lambda>t. isRecentRelease t) ts"

definition round1Tracks :: "cfg \<Rightarrow> track list \<Rightarrow> track list" where
  "round1Tracks c ts =
     (if c_fastMode c then take 5 (topTracks ts)
      else take 5 (topTracks ts) @ take 5 (recentTracks ts))"

definition round2Tracks :: "track list \<Rightarrow> track list" where
  "round2Tracks ts = take 5 (drop 5 (topTracks ts)) @ take 5 (drop 5 (recentTracks ts))"

text \<open>
  Round 1 over its tracks, and both rounds: round 2 follows when the gate lets it run.
  The result says whether round 2 ran.
\<close>

definition round1 :: "env \<Rightarrow> cfg \<Rightarrow> track list \<Rightarrow> hstate \<Rightarrow> hstate" where
  "round1 e c ts h =
     round_loop e c 1 (round1Tracks c ts)
       (h\<lparr>h_stats := (h_stats h)\<lparr>round1_attempted := length (round1Tracks c ts)\<rparr>\<rparr>)"

definition run_rounds :: "env \<Rightarrow> cfg \<Rightarrow> track list \<Rightarrow> hstate \<Rightarrow> bool \<times> hstate" where
  "run_rounds e c ts h =
     (if round2_runs e c (round1Success (round1 e c ts h)) (length (round1Tracks c ts))
      then (True, round_loop e c 2 (round2Tracks ts) (round1 e c ts h))
      else (False, round1 e c ts h))"


section \<open>Fetching the tracks of the artist (lines 244--363)\<close>

record fetch_state =
  f_tracks :: "track list"
  f_reasons :: "string list"
  f_stats :: acquisitionStats
  f_calls :: "provider_call list"

text \<open>Method 1: the top tracks. An exception is noted; a response that is not ok changes nothing.\<close>

definition top_tracks_step :: "env \<Rightarrow> string \<Rightarrow> fetch_state \<Rightarrow> fetch_state" where
  "top_tracks_step e sid f =
     (case spotify_top_tracks e sid of
        Throws err \<Rightarrow> f\<lparr>f_reasons := f_reasons f @ [''spotify_top_tracks_error'']\<rparr>
      | NotOk \<Rightarrow> f
      | Ok ts \<Rightarrow> f\<lparr>f_tracks := ts, f_stats := (f_stats f)\<lparr>methods_top := length ts\<rparr>\<rparr>)"

text \<open>
  Method 2: the tracks of each recent album are appended with
  \<^verbatim>\<open>isRecentRelease: true\<close> (\<^verbatim>\<open>tracks = tracks.concat(albumTracks)\<close>); nothing compares
  them with the tracks already there.
\<close>

fun album_loop :: "env \<Rightarrow> album_item list \<Rightarrow> fetch_state \<Rightarrow> fetch_state" where
  "album_loop e [] f = f"
| "album_loop e (al # als) f =
     album_loop e als
       (case spotify_album_tracks e (album_id al) of
          Throws err \<Rightarrow> f\<lparr>f_reasons := f_reasons f @ [''spotify_album_tracks_error'']\<rparr>
        | NotOk \<Rightarrow> f
        | Ok found \<Rightarrow>
            f\<lparr>f_tracks := f_tracks f
                 @ map (\<lambda>t. t\<lparr>album := Some (album_name al), isRecentRelease := True\<rparr>) found\<rparr>)"

definition recent_album :: "env \<Rightarrow> album_item \<Rightarrow> bool" where
  "recent_album e al = (case release_year al of None \<Rightarrow> False | Some y \<Rightarrow> currentYear e - y \<le> 2)"

definition recent_albums_step :: "env \<Rightarrow> string \<Rightarrow> fetch_state \<Rightarrow> fetch_state" where
  "recent_albums_step e sid f =
     (case spotify_albums e sid of
        Throws err \<Rightarrow> f\<lparr>f_reasons := f_reasons f @ [''spotify_recent_albums_error'']\<rparr>
      | NotOk \<Rightarrow> f
      | Ok albums \<Rightarrow>
          (let f1 = album_loop e (take 10 (filter (recent_album e) albums)) f
           in f1\<lparr>f_stats := (f_stats f1)\<lparr>methods_recent :=
                                   length (filter isRecentRelease (f_tracks f1))\<rparr>\<rparr>))"

text \<open>The search fallback and the Apple catalogue (\<^verbatim>\<open>findAppleTracksForArtist\<close>).\<close>

definition search_fallback_step :: "env \<Rightarrow> string \<Rightarrow> fetch_state \<Rightarrow> fetch_state" where
  "search_fallback_step e artist f =
     (case spotify_artist_search e artist of
        Throws err \<Rightarrow> f\<lparr>f_reasons := f_reasons f @ [''spotify_search_error'']\<rparr>
      | NotOk \<Rightarrow> f
      | Ok found \<Rightarrow>
          f\<lparr>f_tracks := found,
            f_stats := (if length found > 0 then (f_stats f)\<lparr>fallback_search := True\<rparr>
                        else f_stats f)\<rparr>)"

definition apple_track :: "itunes_item \<Rightarrow> track" where
  "apple_track r =
     \<lparr>track_id = it_trackId r, track_name = it_trackName r, artists = [it_artistName r],
      popularity = Some 50, preview_url = it_previewUrl r, applePreview = truthy (it_previewUrl r),
      isRecentRelease = False, album = it_collectionName r\<rparr>"

definition findAppleTracksForArtist :: "env \<Rightarrow> string \<Rightarrow> int \<Rightarrow> fetch_state \<Rightarrow> fetch_state" where
  "findAppleTracksForArtist e artist lmt f =
     (case itunes_search e (length (f_calls f)) artist lmt of
        Throws err \<Rightarrow> f\<lparr>f_tracks := [], f_calls := f_calls f @ [ItunesCall artist lmt]\<rparr>
      | NotOk \<Rightarrow> f\<lparr>f_tracks := [], f_calls := f_calls f @ [ItunesCall artist lmt]\<rparr>
      | Ok found \<Rightarrow>
          f\<lparr>f_tracks := map apple_track found,
            f_calls := f_calls f @ [ItunesCall artist lmt]\<rparr>)"

definition apple_mode_step :: "env \<Rightarrow> cfg \<Rightarrow> fetch_state \<Rightarrow> fetch_state" where
  "apple_mode_step e c f =
     (let f1 = findAppleTracksForArtist e (c_artistName c) (min 50 (c_maxTracks c * 3)) f
      in if length (f_tracks f1) = 0
         then f1\<lparr>f_reasons := f_reasons f1 @ [''apple_mode_no_tracks'']\<rparr>
         else f1\<lparr>f_stats := (f_stats f1)\<lparr>fallback_appleMode := True\<rparr>\<rparr>)"

definition fetch_tracks :: "env \<Rightarrow> cfg \<Rightarrow> string option \<Rightarrow> bool \<Rightarrow> fetch_state" where
  "fetch_tracks e c sid includeRecentReleases =
     (let f0 = \<lparr>f_tracks = [], f_reasons = [], f_stats = initial_stats, f_calls = []\<rparr>;
          f1 = (if truthy sid \<and> truthy (spotifyToken c)
                then (let g = top_tracks_step e (the sid) f0
                      in if includeRecentReleases then recent_albums_step e (the sid) g else g)
                else f0);
          f2 = (if length (f_tracks f1) = 0 \<and> truthy (spotifyToken c)
                then search_fallback_step e (c_artistName c) f1 else f1);
          f3 = (if length (f_tracks f2) = 0
                   \<and> (\<not> truthy (spotifyToken c) \<or> startsWith (previewStrategy c) ''apple'')
                then apple_mode_step e c f2 else f2)
      in f3\<lparr>f_stats := (f_stats f3)\<lparr>initialTracks := length (f_tracks f3)\<rparr>\<rparr>)"

section \<open>The \<^verbatim>\<open>artist_genre_profiles\<close> collection and the handler\<close>

record agp_doc =
  agp_artistName :: string
  agp_spotifyId :: "string option"
  agp_updatedAt :: nat
  agp_trackMatrix :: "track_profile list"
  agp_genreMapping :: genre_mapping
  agp_totalTracksAnalyzed :: nat

text \<open>
  \<^verbatim>\<open>updateOne({artistName: artistName.toLowerCase()}, {$set: {...}}, {upsert: true})\<close>:
  the first document whose \<^verbatim>\<open>artistName\<close> equals the lower-cased name gets the fields;
  when there is none a document with the fields is inserted. \<^verbatim>\<open>trackMatrix\<close> is set to
  the profiles of this request.
\<close>

definition agp_fields :: "string \<Rightarrow> string option \<Rightarrow> nat \<Rightarrow> track_profile list \<Rightarrow> genre_mapping
    \<Rightarrow> agp_doc" where
  "agp_fields artist sid now_ts ps gm =
     \<lparr>agp_artistName = artist, agp_spotifyId = (if truthy sid then sid else None),
      agp_updatedAt = now_ts,
      agp_trackMatrix = ps, agp_genreMapping = gm, agp_totalTracksAnalyzed = length ps\<rparr>"

fun upsert_profile :: "string \<Rightarrow> agp_doc \<Rightarrow> agp_doc list \<Rightarrow> agp_doc list" where
  "upsert_profile key d [] = [d]"
| "upsert_profile key d (x # xs) =
     (if agp_artistName x = key then d # xs else x # upsert_profile key d xs)"

definition persist_profile :: "env \<Rightarrow> string \<Rightarrow> string option \<Rightarrow> track_profile list
    \<Rightarrow> genre_mapping \<Rightarrow> agp_doc list \<Rightarrow> agp_doc list" where
  "persist_profile e artist sid ps gm docs =
     (if dbConnected e \<and> \<not> persistThrows e
      then upsert_profile (toLowerCase artist) (agp_fields artist sid (clock e) ps gm) docs
      else docs)"

record response =
  res_status :: nat
  res_success :: bool
  res_partial :: bool
  res_failSubtype :: "string option"
  res_error :: "string option"
  res_trackMatrix :: "track_profile list option"
  res_genreMapping :: "genre_mapping option"
  res_tracksAttempted :: "nat option"
  res_round2 :: bool
  res_failureReasons :: "string list"
  res_stats :: "acquisitionStats option"
  res_calls :: "provider_call list"

definition base_response :: response where
  "base_response =
     \<lparr>res_status = 200, res_success = False, res_partial = False, res_failSubtype = None,
      res_error = None, res_trackMatrix = None, res_genreMapping = None,
      res_tracksAttempted = None, res_round2 = False, res_failureReasons = [],
      res_stats = None, res_calls = []\<rparr>"

text \<open>The configuration the handler derives from the body and the environment.\<close>

definition cfg_of :: "env \<Rightarrow> request \<Rightarrow> cfg" where
  "cfg_of e r =
     \<lparr>c_artistName = (case req_artistName r of None \<Rightarrow> [] | Some a \<Rightarrow> a),
      c_maxTracks = (case req_maxTracks r of None \<Rightarrow> 20 | Some m \<Rightarrow> m),
      c_fastMode = (case req_fastMode r of None \<Rightarrow> False | Some b \<Rightarrow> b),
      c_maxPreviewRecoveryAttempts = req_maxPreviewRecoveryAttempts r,
      spotifyToken = (if truthy (req_accessToken r) then req_accessToken r else getSpotifyToken e),
      previewStrategy = toLowerCase (if truthy (req_previewStrategy r)
                                     then the (req_previewStrategy r) else ''apple_primary''),
      forceFlag = req_forceSoundCloudTest r\<rparr>"

text \<open>
  The tracks the handler fetches for a request, and the state the rounds start from.
\<close>

definition fetched :: "env \<Rightarrow> request \<Rightarrow> fetch_state" where
  "fetched e r =
     fetch_tracks e (cfg_of e r) (req_spotifyId r)
       (case req_includeRecentReleases r of None \<Rightarrow> True | Some b \<Rightarrow> b)"

definition initial_hstate :: "fetch_state \<Rightarrow> hstate" where
  "initial_hstate f =
     \<lparr>h_stats = f_stats f, h_calls = f_calls f, trackProfiles = [],
      failureReasons = f_reasons f, warnings = [], round1Success = 0, round2Success = 0\<rparr>"

definition handler_rounds :: "env \<Rightarrow> request \<Rightarrow> bool \<times> hstate" where
  "handler_rounds e r =
     run_rounds e (cfg_of e r) (f_tracks (fetched e r)) (initial_hstate (fetched e r))"

text \<open>
  The handler. \<open>res_round2\<close> and \<open>res_calls\<close> are not part of the JSON: they report
  whether round 2 ran and which provider calls were made. The averaged features, the
  recent evolution and the metadata block of the answer are not modelled.
\<close>

definition analyze_artist :: "env \<Rightarrow> request \<Rightarrow> agp_doc list \<Rightarrow> response \<times> agp_doc list" where
  "analyze_artist e r docs =
     (if \<not> truthy (req_artistName r)
      then (base_response\<lparr>res_status := 400, res_error := Some ''artistName is required''\<rparr>, docs)
      else
        (let c = cfg_of e r;
             existingGenres = (case req_existingGenres r of None \<Rightarrow> [] | Some g \<Rightarrow> g);
             f = fetched e r
         in if length (f_tracks f) = 0
            then (base_response\<lparr>res_error := Some ''No tracks found for artist'',
                                 res_failSubtype := Some ''no_tracks'',
                                 res_failureReasons := f_reasons f,
                                 res_stats := Some (f_stats f), res_calls := f_calls f\<rparr>, docs)
            else
              (case handler_rounds e r of
                 (ran2, h) \<Rightarrow>
                   (let totalAttempted = length (round1Tracks c (f_tracks f))
                          + (if ran2 then length (round2Tracks (f_tracks f)) else 0);
                        gm = buildGenreMapping (trackProfiles h) (c_artistName c) existingGenres;
                        common = base_response\<lparr>res_round2 := ran2,
                                    res_failureReasons := failureReasons h,
                                    res_stats := Some (h_stats h), res_calls := h_calls h\<rparr>
                    in if length (trackProfiles h) = 0
                       then
                         (if length (inferredGenres gm) > 0
                          then (common\<lparr>res_success := True, res_partial := True,
                                        res_failSubtype := Some ''no_preview'',
                                        res_trackMatrix := Some [], res_genreMapping := Some gm,
                                        res_tracksAttempted := Some totalAttempted\<rparr>, docs)
                          else (common\<lparr>res_error :=
                                          Some ''No tracks could be analyzed and no genres available'',
                                        res_failSubtype := Some ''no_preview'',
                                        res_tracksAttempted := Some totalAttempted\<rparr>, docs))
                       else
                         (common\<lparr>res_success := True, res_trackMatrix := Some (trackProfiles h),
                                  res_genreMapping := Some gm\<rparr>,
                          persist_profile e (c_artistName c) (req_spotifyId r) (trackProfiles h)
                            gm docs)))))"


section \<open>Vocabulary for the properties of the resolution\<close>

text \<open>
  The provider calls one \<^verbatim>\<open>acquirePreviewForTrack\<close> call makes; an answer of SoundCloud
  or of the aggregator that yields no candidate (an exception counts as none).
\<close>

definition made_calls :: "env \<Rightarrow> cfg \<Rightarrow> track \<Rightarrow> acquisitionStats \<Rightarrow> provider_call list
    \<Rightarrow> provider_call list" where
  "made_calls e c t s cs = drop (length cs) (calls (acquirePreviewForTrack e c t s cs))"

definition sc_miss :: "js_error + sc_result option \<Rightarrow> bool" where
  "sc_miss r = (case r of Inl err \<Rightarrow> True | Inr x \<Rightarrow> \<not> sc_hit x)"

definition agg_miss :: "js_error + alt_result \<Rightarrow> bool" where
  "agg_miss r =
     (case r of
        Inl err \<Rightarrow> True
      | Inr x \<Rightarrow> (case bestSource x of None \<Rightarrow> True | Some b \<Rightarrow> \<not> truthy (bs_streamUrl b)))"

text \<open>The known preview of a track comes from Apple (line 392).\<close>

definition apple_sourced :: "track \<Rightarrow> bool" where
  "apple_sourced t = (truthy (preview_url t) \<and> (applePreview t \<or> apple_host (the (preview_url t))))"

text \<open>Two states of a resolution that agree on the choice made so far.\<close>

definition same_choice :: "acq \<Rightarrow> acq \<Rightarrow> bool" where
  "same_choice a b =
     (v_previewUrl b = v_previewUrl a \<and> v_audioSource b = v_audioSource a
      \<and> v_alternativeSourceInfo b = v_alternativeSourceInfo a \<and> calls b = calls a
      \<and> originalApplePreview b = originalApplePreview a
      \<and> originalSpotifyPreview b = originalSpotifyPreview a)"

definition same_pick :: "acq \<Rightarrow> acq \<Rightarrow> bool" where
  "same_pick a b =
     (v_previewUrl b = v_previewUrl a \<and> v_audioSource b = v_audioSource a
      \<and> originalApplePreview b = originalApplePreview a)"

definition calls_grow :: "acq \<Rightarrow> acq \<Rightarrow> bool" where
  "calls_grow a b = (\<exists>xs. calls b = calls a @ xs)"


text \<open>
  A fetch that failed (a network error or a response that is not ok), and a step of the
  resolution that found nothing: there is still no preview, and the source and the
  remembered Apple preview are as before.
\<close>

definition failed :: "'a fetched \<Rightarrow> bool" where
  "failed r = (case r of Throws err \<Rightarrow> True | NotOk \<Rightarrow> True | Ok x \<Rightarrow> False)"

definition still_unresolved :: "acq \<Rightarrow> acq \<Rightarrow> bool" where
  "still_unresolved a b =
     (\<not> truthy (v_previewUrl b) \<and> v_audioSource b = v_audioSource a
      \<and> originalApplePreview b = originalApplePreview a)"


section \<open>Concrete inputs\<close>

text \<open>Small documents and answers on which the theorems below are instantiated.\<close>

definition ex_tp :: "string \<Rightarrow> track_profile" where
  "ex_tp i =
     \<lparr>trackId = i, tp_name = ''Song'', tp_artist = Some ''Artist'', tp_popularity = Some 50,
      tp_isRecentRelease = False, albumInfo = None, previewUrl = ''https://p.example/a.m4a'',
      audioSource = Some ''apple'', alternativeSourceInfo = None, essentiaFeatures = [],
      analyzedAt = 0, analysisRound = 1\<rparr>"

definition ex_doc :: "bool option \<Rightarrow> track_profile list option \<Rightarrow> unit artist_doc" where
  "ex_doc built tm =
     \<lparr>name = Some ''Artist'', artistName = None, displayName = None, spotifyId = None,
      genres = None, essentiaProfileBuilt = built, essentiaProfileStaged = None,
      essentiaProfileDate = Some 7,
      essentiaAudioProfile =
        (case tm of
           None \<Rightarrow> None
         | Some m \<Rightarrow> Some \<lparr>trackMatrix = Some m, genreMapping = None, profile_payload = None\<rparr>),
      essentiaVersion = None, essentiaTrackMatrix = None\<rparr>"

definition ex_scan_docs :: "unit artist_doc collection" where
  "ex_scan_docs =
     [(1, ex_doc (Some True) None),
      (2, ex_doc (Some True) (Some [ex_tp ''a''])),
      (3, ex_doc None None),
      (4, ex_doc (Some True) (Some []))]"

definition ex_la :: "track_profile list \<Rightarrow> unit analysis_response" where
  "ex_la tm =
     \<lparr>r_success = True, r_trackMatrix = Some tm, r_genreMapping = None, r_payload = None,
      r_version = None\<rparr>"

definition ex_cfg :: "int \<Rightarrow> batch_cfg" where
  "ex_cfg n =
     \<lparr>maxTracks = n, appleFirst = True, soundcloudPass = False, soundcloudOnly = False,
      dryRun = False, force = False, fastModeFlag = True\<rparr>"

definition ex_state :: "unit artist_doc collection \<Rightarrow> bool list \<Rightarrow> unit artist_doc batch_state" where
  "ex_state docs fs =
     \<lparr>store = \<lparr>coll = docs, wlog = [], faults = fs\<rparr>, requests = [], improved = 0,
      skipped = 0, scTriggered = 0, errors = 0, writesSucceeded = 0, writesFailed = 0,
      stagedCreated = 0, results = []\<rparr>"

definition ex_legacy_doc :: "unit artist_doc" where
  "ex_legacy_doc = (ex_doc None None)\<lparr>essentiaTrackMatrix := Some [ex_tp ''a'']\<rparr>"

definition ex_env :: "nat \<Rightarrow> unit analysis_response \<Rightarrow> unit batch_env" where
  "ex_env vectors answer =
     \<lparr>countDocuments = (\<lambda>k a. Inr vectors),
      analyze_service = (\<lambda>k body. Inr answer),
      idString = (\<lambda>i. ''id'')\<rparr>"

definition ex_staged_doc :: "unit artist_doc" where
  "ex_staged_doc = (ex_doc None (Some [ex_tp ''a'', ex_tp ''b'']))\<lparr>essentiaProfileStaged := Some True\<rparr>"

text \<open>
  An environment in which nothing is reachable: no Spotify token, every fetch throws,
  no SoundCloud client id, the aggregator finds nothing, the extraction works.
\<close>

definition ex_features :: features where
  "ex_features = [(''energy'', 1 / 2), (''tempo'', 100)]"

definition dead_env :: env where
  "dead_env =
     \<lparr>scClientId = False, marketsEnv = [''US'', ''GB'', ''DE'', ''SE'', ''CA''],
      searchSoundCloudAudio = (\<lambda>n a t. Inr None),
      itunes_search = (\<lambda>n q l. Throws NetworkError),
      spotify_search = (\<lambda>n p m. Throws NetworkError),
      findAlternativeAudioSource = (\<lambda>n a t. Inr \<lparr>bestSource = None, totalSources = 0\<rparr>),
      analyzeAudioWithEssentia = (\<lambda>n u. Inr ex_features),
      getSpotifyToken = None,
      spotify_top_tracks = (\<lambda>i. Throws NetworkError),
      spotify_albums = (\<lambda>i. Throws NetworkError),
      spotify_album_tracks = (\<lambda>i. Throws NetworkError),
      spotify_artist_search = (\<lambda>a. Throws NetworkError),
      currentYear = 2025, clock = 0, elapsedMs = 1000, dbConnected = True,
      persistThrows = False\<rparr>"

definition ex_item :: "string \<Rightarrow> string option \<Rightarrow> itunes_item" where
  "ex_item i url =
     \<lparr>it_trackId = i, it_trackName = ''Song'', it_artistName = ''Artist'',
      it_collectionName = None, it_previewUrl = url\<rparr>"

definition ex_request :: request where
  "ex_request =
     \<lparr>req_artistName = Some ''Artist'', req_spotifyId = None, req_maxTracks = None,
      req_includeRecentReleases = None, req_existingGenres = None, req_accessToken = None,
      req_fastMode = None, req_maxPreviewRecoveryAttempts = None, req_previewStrategy = None,
      req_forceSoundCloudTest = False\<rparr>"

text \<open>
  The Apple catalogue answers the artist query (limit 50) with one track that has a
  preview; every other lookup fails.
\<close>

definition apple_env :: "nat \<Rightarrow> string option \<Rightarrow> env" where
  "apple_env ms url =
     dead_env\<lparr>itunes_search := (\<lambda>n q l. if l = 50 then Ok [ex_item ''1'' url] else NotOk),
              elapsedMs := ms\<rparr>"

definition ex_track :: "string \<Rightarrow> string option \<Rightarrow> track" where
  "ex_track i url =
     \<lparr>track_id = i, track_name = ''Song'', artists = [''Artist''], popularity = Some 50,
      preview_url = url, applePreview = False, isRecentRelease = False, album = None\<rparr>"

text \<open>
  Spotify answers: the track \<open>x\<close> is the artist's top track and is also on a recent album.
\<close>

definition dup_env :: "nat \<Rightarrow> env" where
  "dup_env ms =
     dead_env\<lparr>getSpotifyToken := Some ''tok'', elapsedMs := ms,
              spotify_top_tracks := (\<lambda>i. Ok [ex_track ''x'' (Some ''u'')]),
              spotify_albums := (\<lambda>i. Ok [\<lparr>album_id = ''al'', album_name = ''Album'',
                                            release_year = Some 2025\<rparr>]),
              spotify_album_tracks := (\<lambda>i. Ok [ex_track ''x'' (Some ''u'')])\<rparr>"

definition dup_request :: request where
  "dup_request = ex_request\<lparr>req_spotifyId := Some ''sp''\<rparr>"

definition default_cfg :: "string option \<Rightarrow> cfg" where
  "default_cfg tok =
     \<lparr>c_artistName = ''Artist'', c_maxTracks = 20, c_fastMode = False,
      c_maxPreviewRecoveryAttempts = None, spotifyToken = tok,
      previewStrategy = ''apple_primary'', forceFlag = False\<rparr>"


text \<open>
  Spotify lists one top track, without a preview; every provider lookup fails. The
  request names known genres.
\<close>

definition mute_env :: env where
  "mute_env =
     dead_env\<lparr>getSpotifyToken := Some ''tok'',
              spotify_top_tracks := (\<lambda>i. Ok [ex_track ''x'' None])\<rparr>"

definition genre_request :: "string list \<Rightarrow> request" where
  "genre_request g = dup_request\<lparr>req_existingGenres := Some g\<rparr>"


text \<open>
  A SoundCloud client id is configured and SoundCloud finds nothing, like every other
  provider; the balanced strategy with a Spotify token; and an environment in which the
  feature extraction fails.
\<close>

definition deaf_env :: env where
  "deaf_env = dead_env\<lparr>scClientId := True\<rparr>"

definition balanced_cfg :: cfg where
  "balanced_cfg = (default_cfg (Some ''tok''))\<lparr>previewStrategy := ''balanced''\<rparr>"

definition broken_env :: env where
  "broken_env = dead_env\<lparr>analyzeAudioWithEssentia := (\<lambda>n u. Inl NetworkError)\<rparr>"


text \<open>
  The forced SoundCloud test, the \<open>soundcloud_primary\<close> strategy without it, and a track
  whose known preview comes from Apple.
\<close>

definition forced_cfg :: cfg where
  "forced_cfg = (default_cfg None)\<lparr>forceFlag := True\<rparr>"

definition sc_primary_cfg :: cfg where
  "sc_primary_cfg = (default_cfg None)\<lparr>previewStrategy := ''soundcloud_primary''\<rparr>"

definition apple_known_track :: track where
  "apple_known_track = (ex_track ''x'' (Some ''u''))\<lparr>applePreview := True\<rparr>"


text \<open>The balanced strategy with \<^verbatim>\<open>maxPreviewRecoveryAttempts: -1\<close> in the body.\<close>

definition no_budget_cfg :: cfg where
  "no_budget_cfg = balanced_cfg\<lparr>c_maxPreviewRecoveryAttempts := Some (Num (- 1))\<rparr>"


section \<open>Properties of the scanner\<close>

lemma toClear_violates:
  assumes "distinct (map fst docs)" and "(i, d) \<in> set docs" and "i \<in> set (toClear lmt docs)"
  shows "essentiaProfileBuilt d = Some True \<and> \<not> hasMatrix d"
proof -
  from assms(3) obtain d' where
    m: "(i, d') \<in> set (filter (\<lambda>(i, d). \<not> hasMatrix d) (take (nat lmt) (scan_cursor docs)))"
    by (auto simp: toClear_def)
  then have nm: "\<not> hasMatrix d'" by auto
  from m have "(i, d') \<in> set (scan_cursor docs)"
    by (auto dest: in_set_takeD)
  then have mem: "(i, d') \<in> set docs" and b: "essentiaProfileBuilt d' = Some True"
    by (auto simp: scan_cursor_def)
  from assms(1) assms(2) mem have "d' = d"
    by (meson eq_key_imp_eq_value)
  with nm b show ?thesis by simp
qed

text \<open>
  C9. Whatever the options, the run keeps the documents and their order; a document is
  either untouched, or its built flag was set while its track matrix was missing or
  empty and the run removed exactly \<^verbatim>\<open>essentiaProfileBuilt\<close> and
  \<^verbatim>\<open>essentiaProfileDate\<close> from it. In both cases \<^verbatim>\<open>essentiaAudioProfile\<close> (with its
  \<^verbatim>\<open>trackMatrix\<close>) is what it was. The record scheme stands for every field the model
  does not name.
\<close>

theorem scanner_clear_frame:
  assumes "distinct (map fst docs)"
  shows "list_all2
           (\<lambda>(i, d) (i', d'). i' = i
              \<and> essentiaAudioProfile d' = essentiaAudioProfile d
              \<and> (d' = d \<or> (essentiaProfileBuilt d = Some True \<and> \<not> hasMatrix d
                    \<and> d' = d\<lparr>essentiaProfileBuilt := None, essentiaProfileDate := None\<rparr>)))
           docs (snd (scanner lmt clr dry docs))"
proof -
  have unchanged: "list_all2
           (\<lambda>(i, d) (i', d'). i' = i
              \<and> essentiaAudioProfile d' = essentiaAudioProfile d
              \<and> (d' = d \<or> (essentiaProfileBuilt d = Some True \<and> \<not> hasMatrix d
                    \<and> d' = d\<lparr>essentiaProfileBuilt := None, essentiaProfileDate := None\<rparr>)))
           docs docs"
    by (rule list_all2_refl) auto
  have cleared: "list_all2
           (\<lambda>(i, d) (i', d'). i' = i
              \<and> essentiaAudioProfile d' = essentiaAudioProfile d
              \<and> (d' = d \<or> (essentiaProfileBuilt d = Some True \<and> \<not> hasMatrix d
                    \<and> d' = d\<lparr>essentiaProfileBuilt := None, essentiaProfileDate := None\<rparr>)))
           docs (snd (updateMany (toClear lmt docs) unset_built docs))"
    unfolding updateMany_def snd_conv list_all2_map2
  proof (rule list.rel_refl_strong)
    fix x assume x: "x \<in> set docs"
    obtain i d where xd: "x = (i, d)" by (cases x)
    show "(case x of (i, d) \<Rightarrow> \<lambda>(i', d'). i' = i
              \<and> essentiaAudioProfile d' = essentiaAudioProfile d
              \<and> (d' = d \<or> (essentiaProfileBuilt d = Some True \<and> \<not> hasMatrix d
                    \<and> d' = d\<lparr>essentiaProfileBuilt := None, essentiaProfileDate := None\<rparr>)))
           (case x of (j, d) \<Rightarrow> if j \<in> set (toClear lmt docs) then (j, unset_built d) else (j, d))"
    proof (cases "i \<in> set (toClear lmt docs)")
      case True
      with toClear_violates [OF assms] x xd
      have "essentiaProfileBuilt d = Some True \<and> \<not> hasMatrix d" by blast
      with True xd show ?thesis by (simp add: unset_built_def)
    next
      case False
      with xd show ?thesis by simp
    qed
  qed
  show ?thesis
  proof (cases "clr \<and> length (toClear lmt docs) > 0 \<and> \<not> dry")
    case True
    then have "snd (scanner lmt clr dry docs)
        = snd (updateMany (toClear lmt docs) unset_built docs)"
      by (simp add: scanner_def Let_def split: prod.splits)
    with cleared show ?thesis by simp
  next
    case False
    then have "snd (scanner lmt clr dry docs) = docs"
      by (auto simp add: scanner_def Let_def)
    with unchanged show ?thesis by simp
  qed
qed


theorem scanner_clear_frame_witness:
  "distinct (map fst ex_scan_docs)
   \<and> list_all2
        (\<lambda>(i, d) (i', d'). i' = i
           \<and> essentiaAudioProfile d' = essentiaAudioProfile d
           \<and> (d' = d \<or> (essentiaProfileBuilt d = Some True \<and> \<not> hasMatrix d
                 \<and> d' = d\<lparr>essentiaProfileBuilt := None, essentiaProfileDate := None\<rparr>)))
        ex_scan_docs (snd (scanner 500 True False ex_scan_docs))
   \<and> map (\<lambda>(i, d). essentiaProfileBuilt d) (snd (scanner 500 True False ex_scan_docs))
       = [None, Some True, None, None]"
proof -
  have h: "distinct (map fst ex_scan_docs)"
    by (simp add: ex_scan_docs_def)
  have e: "map (\<lambda>(i, d). essentiaProfileBuilt d) (snd (scanner 500 True False ex_scan_docs))
       = [None, Some True, None, None]"
    by (simp add: scanner_def toClear_def scan_cursor_def updateMany_def unset_built_def
        hasMatrix_def ex_scan_docs_def ex_doc_def Let_def)
  from scanner_clear_frame [OF h, of 500 True False] h e show ?thesis
    by blast
qed

section \<open>Properties of the store and of the profile write\<close>

lemma update_first_keys: "map fst (snd (update_first i f docs)) = map fst docs"
  by (induction docs) (auto split: prod.splits)

lemma update_first_map_of:
  "map_of (snd (update_first i f docs)) j
     = (if j = i then map_option f (map_of docs i) else map_of docs j)"
  by (induction docs) (auto split: prod.splits)

lemma update_first_modified:
  "fst (update_first i f docs) > 0 \<Longrightarrow> \<exists>d. map_of docs i = Some d \<and> f d \<noteq> d"
  by (induction docs) (auto split: prod.splits if_splits)


lemma db_updateOne_coll:
  "coll (snd (db_updateOne tag i f s))
     = (if faults s \<noteq> [] \<and> hd (faults s) then coll s else snd (updateOne i f (coll s)))"
  by (simp add: db_updateOne_def split: prod.splits)

lemma db_updateOne_result:
  "fst (db_updateOne tag i f s)
     = (if faults s \<noteq> [] \<and> hd (faults s) then Inl StoreError
        else Inr (fst (updateOne i f (coll s))))"
  by (simp add: db_updateOne_def split: prod.splits)

lemma db_updateOne_wlog:
  "wlog (snd (db_updateOne tag i f s)) = wlog s @ [(tag, fst (db_updateOne tag i f s))]"
  by (simp add: db_updateOne_def split: prod.splits)

lemma db_updateOne_throw:
  "fst (db_updateOne tag i f s) = Inl e \<Longrightarrow> coll (snd (db_updateOne tag i f s)) = coll s"
  by (simp add: db_updateOne_coll db_updateOne_result split: if_splits)





lemma db_updateOne_eqD:
  assumes "db_updateOne tag i f s = (r, s')"
  shows "wlog s' = wlog s @ [(tag, r)]"
    and "coll s' = (if faults s \<noteq> [] \<and> hd (faults s) then coll s else snd (updateOne i f (coll s)))"
    and "r = (if faults s \<noteq> [] \<and> hd (faults s) then Inl StoreError
              else Inr (fst (updateOne i f (coll s))))"
  using assms db_updateOne_wlog [of tag i f s] db_updateOne_coll [of tag i f s]
    db_updateOne_result [of tag i f s]
  by simp_all






section \<open>When the built flag is set\<close>

lemma updateOne_find:
  "find_doc j (snd (updateOne k f docs))
     = (case k of None \<Rightarrow> find_doc j docs
        | Some i \<Rightarrow> if j = i then map_option f (find_doc i docs) else find_doc j docs)"
  by (cases k) (simp_all add: updateOne_def find_doc_def update_first_map_of)

lemma db_updateOne_find:
  assumes "db_updateOne tag k f s = (r, s')" and "find_doc j (coll s) = Some d"
  shows "find_doc j (coll s') = Some d \<or> (k = Some j \<and> find_doc j (coll s') = Some (f d))"
  using assms db_updateOne_eqD(2) [OF assms(1)]
  by (auto simp: updateOne_find split: option.splits if_splits)

lemma matrix_of_set_built: "matrix_of (set_built nw d) = matrix_of d"
  by (simp add: matrix_of_def set_built_def)


lemma matrix_of_set_profile: "length (matrix_of (set_profile a d)) = tmLen a"
  by (simp add: matrix_of_def set_profile_def tmLen_def profile_of_def)

lemma stagedLen_matrix: "stagedLen d = length (matrix_of d)"
  by (simp add: stagedLen_def matrix_of_def split: option.splits)

lemma write_artist_profile_find:
  assumes "find_doc j (coll (store st)) = Some d"
  shows "\<exists>d'. find_doc j (coll (store (write_artist_profile cfg nw aid la st))) = Some d'
     \<and> (d' = d
        \<or> (\<exists>a. la = Some a \<and> aid = Some j
              \<and> (d' = set_profile a d
                  \<or> (maxTracks cfg \<le> int (tmLen a) \<and> d' = set_built nw (set_profile a d))
                  \<or> d' = set_staged nw (set_profile a d))))"
proof (cases la)
  case None
  with assms show ?thesis by (simp add: write_artist_profile_def)
next
  case (Some a)
  show ?thesis
  proof (cases "r_success a \<and> \<not> dryRun cfg")
    case False
    with Some assms show ?thesis by (auto simp add: write_artist_profile_def)
  next
    case True
    obtain r1 s1 where w1: "db_updateOne ProfileWrite aid (set_profile a) (store st) = (r1, s1)"
      by (cases "db_updateOne ProfileWrite aid (set_profile a) (store st)")
    from db_updateOne_find [OF w1 assms]
    consider (same) "find_doc j (coll s1) = Some d"
      | (upd) "aid = Some j" "find_doc j (coll s1) = Some (set_profile a d)"
      by blast
    then obtain d1 where d1: "find_doc j (coll s1) = Some d1"
      and d1c: "d1 = d \<or> (aid = Some j \<and> d1 = set_profile a d)"
      by cases auto
    show ?thesis
    proof (cases r1)
      case (Inl e)
      with Some True w1 d1 d1c show ?thesis
        by (auto simp add: write_artist_profile_def)
    next
      case (Inr n)
      consider (built) "n > 0 \<and> int (tmLen a) \<ge> maxTracks cfg"
        | (staged) "\<not> (n > 0 \<and> int (tmLen a) \<ge> maxTracks cfg)" "n > 0 \<and> tmLen a > 0"
        | (neither) "\<not> (n > 0 \<and> int (tmLen a) \<ge> maxTracks cfg)" "\<not> (n > 0 \<and> tmLen a > 0)"
        by blast
      then show ?thesis
      proof cases
        case built
        obtain r2 s2 where w2: "db_updateOne BuiltWrite aid (set_built nw) s1 = (r2, s2)"
          by (cases "db_updateOne BuiltWrite aid (set_built nw) s1")
        from Some True w1 Inr built w2
        have e: "coll (store (write_artist_profile cfg nw aid la st)) = coll s2"
          by (cases r2) (simp_all add: write_artist_profile_def)
        from db_updateOne_eqD(2,3) [OF w1] Inr
        have c1: "coll s1 = snd (updateOne aid (set_profile a) (coll (store st)))"
          by (auto split: if_splits)
        with assms have d1': "find_doc j (coll s1)
            = Some (if aid = Some j then set_profile a d else d)"
          by (auto simp: updateOne_find split: option.splits)
        from db_updateOne_find [OF w2 d1'] e Some built show ?thesis
          by auto
      next
        case staged
        obtain r2 s2 where w2: "db_updateOne StagedWrite aid (set_staged nw) s1 = (r2, s2)"
          by (cases "db_updateOne StagedWrite aid (set_staged nw) s1")
        from Some True w1 Inr staged w2
        have e: "coll (store (write_artist_profile cfg nw aid la st)) = coll s2"
          by (cases r2) (simp_all add: write_artist_profile_def)
        from db_updateOne_eqD(2,3) [OF w1] Inr
        have c1: "coll s1 = snd (updateOne aid (set_profile a) (coll (store st)))"
          by (auto split: if_splits)
        with assms have d1': "find_doc j (coll s1)
            = Some (if aid = Some j then set_profile a d else d)"
          by (auto simp: updateOne_find split: option.splits)
        from db_updateOne_find [OF w2 d1'] e Some staged show ?thesis
          by auto
      next
        case neither
        with Some True w1 Inr have "write_artist_profile cfg nw aid la st
            = st\<lparr>store := s1, writesFailed := writesFailed st + 1\<rparr>"
          by (auto simp add: write_artist_profile_def)
        with d1 d1c Some show ?thesis by auto
      qed
    qed
  qed
qed


lemma apple_pass_store: "store (snd (snd (apple_pass cfg env aName artist st))) = store st"
  by (simp add: apple_pass_def callAnalyze_def split: sum.splits)

lemma second_pass_store: "store (snd (snd (second_pass cfg env aName artist la st))) = store st"
  by (simp add: second_pass_def callAnalyze_def split: sum.splits)

lemma analysis_passes_find:
  assumes "find_doc j (coll (store st)) = Some d"
  shows "\<exists>d'. find_doc j (coll (store (snd (analysis_passes cfg env nw aName aid artist st)))) = Some d'
     \<and> (d' = d
        \<or> (\<exists>a. aid = Some j
              \<and> (d' = set_profile a d
                  \<or> (maxTracks cfg \<le> int (tmLen a) \<and> d' = set_built nw (set_profile a d))
                  \<or> d' = set_staged nw (set_profile a d))))"
proof -
  obtain e1 l1 st1 where p1: "apple_pass cfg env aName artist st = (e1, l1, st1)"
    by (cases "apple_pass cfg env aName artist st")
  with apple_pass_store [of cfg env aName artist st] have s1: "store st1 = store st" by simp
  obtain e2 l2 st2 where p2: "second_pass cfg env aName artist l1 st1 = (e2, l2, st2)"
    by (cases "second_pass cfg env aName artist l1 st1")
  with second_pass_store [of cfg env aName artist l1 st1] s1 have s2: "store st2 = store st" by simp
  from assms s2 have d2: "find_doc j (coll (store st2)) = Some d" by simp
  from write_artist_profile_find [OF d2, of cfg nw aid l2]
  obtain d' where w: "find_doc j (coll (store (write_artist_profile cfg nw aid l2 st2))) = Some d'"
    "d' = d \<or> (\<exists>a. aid = Some j
              \<and> (d' = set_profile a d
                  \<or> (maxTracks cfg \<le> int (tmLen a) \<and> d' = set_built nw (set_profile a d))
                  \<or> d' = set_staged nw (set_profile a d)))"
    by blast
  show ?thesis
  proof (cases e1)
    case (Some e)
    with p1 s1 assms show ?thesis by (simp add: analysis_passes_def)
  next
    case None
    show ?thesis
    proof (cases e2)
      case (Some e)
      with None p1 p2 s2 assms show ?thesis by (simp add: analysis_passes_def)
    next
      case n2: None
      with None p1 p2 w show ?thesis by (simp add: analysis_passes_def Let_def)
    qed
  qed
qed

lemma mark_built_from_staged_find:
  assumes "find_doc j (coll (store st)) = Some d"
  shows "find_doc j (coll (store (mark_built_from_staged nw aid st))) = Some d
     \<or> (aid = Some j \<and> find_doc j (coll (store (mark_built_from_staged nw aid st)))
            = Some (set_built nw d))"
proof -
  obtain r s' where w: "db_updateOne BuiltWrite aid (set_built nw) (store st) = (r, s')"
    by (cases "db_updateOne BuiltWrite aid (set_built nw) (store st)")
  have "coll (store (mark_built_from_staged nw aid st)) = coll s'"
    using w by (cases r) (simp_all add: mark_built_from_staged_def)
  with db_updateOne_find [OF w assms] show ?thesis by simp
qed

lemma process_artist_find:
  assumes "process_artist cfg env nw aid artist st = Inr st'"
    and "find_doc j (coll (store st)) = Some d"
  shows "\<exists>d'. find_doc j (coll (store st')) = Some d'
     \<and> (d' = d
        \<or> (aid = Some j
            \<and> ((maxTracks cfg \<le> int (stagedLen artist) \<and> d' = set_built nw d)
               \<or> (\<exists>a. d' = set_profile a d
                  \<or> (maxTracks cfg \<le> int (tmLen a) \<and> d' = set_built nw (set_profile a d))
                  \<or> d' = set_staged nw (set_profile a d)))))"
proof (cases "aName_of env aid artist")
  case None
  with assms show ?thesis by (auto simp: process_artist_def)
next
  case (Some aName)
  show ?thesis
  proof (cases "countDocuments env 0 aName")
    case (Inl e)
    with Some assms show ?thesis by (simp add: process_artist_def)
  next
    case (Inr existingVectors)
    consider (mark) "int (stagedLen artist) \<ge> maxTracks cfg \<and> \<not> flag_set (essentiaProfileBuilt artist)"
      | (skip) "\<not> (int (stagedLen artist) \<ge> maxTracks cfg \<and> \<not> flag_set (essentiaProfileBuilt artist))"
          "(flag_set (essentiaProfileBuilt artist) \<and> \<not> force cfg)
            \<or> int existingVectors \<ge> maxTracks cfg \<or> dryRun cfg"
      | (run) "\<not> (int (stagedLen artist) \<ge> maxTracks cfg \<and> \<not> flag_set (essentiaProfileBuilt artist))"
          "\<not> (flag_set (essentiaProfileBuilt artist) \<and> \<not> force cfg)"
          "\<not> int existingVectors \<ge> maxTracks cfg" "\<not> dryRun cfg"
      by blast
    then show ?thesis
    proof cases
      case mark
      with Some Inr assms(1) have "coll (store st') = coll (store (mark_built_from_staged nw aid st))"
        by (auto simp: process_artist_def Let_def)
      with mark_built_from_staged_find [OF assms(2), of nw aid] mark show ?thesis by auto
    next
      case skip
      with Some Inr assms(1) have "coll (store st') = coll (store st)"
        by (auto simp: process_artist_def split: if_splits)
      with assms(2) show ?thesis by simp
    next
      case run
      with Some Inr assms(1)
      have "coll (store st') = coll (store (snd (analysis_passes cfg env nw aName aid artist st)))"
        by (auto simp: process_artist_def split: prod.splits option.splits)
      with analysis_passes_find [OF assms(2), of cfg env nw aName aid artist] show ?thesis by auto
    qed
  qed
qed


lemma migrate_update_built:
  "tm \<noteq> [] \<Longrightarrow> flag_set (essentiaProfileBuilt (migrate_update r nw tm d))
     \<and> matrix_of (migrate_update r nw tm d) \<noteq> []"
  by (simp add: migrate_update_def set_nested_matrix_def flag_set_def matrix_of_def Let_def
      split: option.splits)

lemma migration_ops_nonempty: "(i, tm) \<in> set (migration_ops r nw docs) \<Longrightarrow> tm \<noteq> []"
  by (auto simp: migration_ops_def split: option.splits if_splits)

lemma migrate_fold_find:
  assumes "\<And>i tm. (i, tm) \<in> set ops \<Longrightarrow> tm \<noteq> []"
    and "find_doc j ds = Some d0"
    and "d0 = d \<or> (flag_set (essentiaProfileBuilt d0) \<and> matrix_of d0 \<noteq> [])"
  shows "\<exists>d'. find_doc j (fold (\<lambda>(i, tm) ds. snd (updateOne (Some i) (migrate_update r nw tm) ds))
                       ops ds) = Some d'
          \<and> (d' = d \<or> (flag_set (essentiaProfileBuilt d') \<and> matrix_of d' \<noteq> []))"
  using assms
proof (induction ops arbitrary: ds d0)
  case Nil
  then show ?case by simp
next
  case (Cons op ops)
  obtain i tm where op: "op = (i, tm)" by (cases op)
  with Cons.prems(1) have ne: "tm \<noteq> []" by auto
  let ?ds = "snd (updateOne (Some i) (migrate_update r nw tm) ds)"
  have f: "find_doc j ?ds = Some (if j = i then migrate_update r nw tm d0 else d0)"
    using Cons.prems(2) by (auto simp add: updateOne_find)
  have q: "(if j = i then migrate_update r nw tm d0 else d0) = d
      \<or> (flag_set (essentiaProfileBuilt (if j = i then migrate_update r nw tm d0 else d0))
          \<and> matrix_of (if j = i then migrate_update r nw tm d0 else d0) \<noteq> [])"
    using Cons.prems(3) migrate_update_built [OF ne, of r nw d0] by auto
  have "\<And>i tm. (i, tm) \<in> set ops \<Longrightarrow> tm \<noteq> []"
    using Cons.prems(1) by auto
  from Cons.IH [OF this f q] op show ?case by simp
qed

lemma migrate_find:
  assumes "find_doc j docs = Some d"
  shows "\<exists>d'. find_doc j (migrate a r nw docs) = Some d'
          \<and> (d' = d \<or> (flag_set (essentiaProfileBuilt d') \<and> matrix_of d' \<noteq> []))"
proof (cases a)
  case False
  with assms show ?thesis by (simp add: migrate_def)
next
  case True
  have "\<And>i tm. (i, tm) \<in> set (migration_ops r nw docs) \<Longrightarrow> tm \<noteq> []"
    by (rule migration_ops_nonempty)
  from migrate_fold_find [where d = d and r = r and nw = nw, OF this assms] True show ?thesis
    by (simp add: migrate_def)
qed


lemma stagedLen_projection: "stagedLen (projection d) = length (matrix_of d)"
  by (simp add: stagedLen_def projection_def matrix_of_def split: option.splits)

lemma process_artist_step:
  assumes ld: "loaded aid artist (coll (store st))"
    and run: "process_artist cfg env nw aid artist st = Inr st'"
    and fd: "find_doc j (coll (store st)) = Some d"
  shows "\<exists>d'. find_doc j (coll (store st')) = Some d'
     \<and> (d' = d \<or> (aid = Some j \<and> built_ok cfg d d'))"
proof -
  from process_artist_find [OF run fd]
  obtain d' where fd': "find_doc j (coll (store st')) = Some d'"
    and c: "d' = d
        \<or> (aid = Some j
            \<and> ((maxTracks cfg \<le> int (stagedLen artist) \<and> d' = set_built nw d)
               \<or> (\<exists>a. d' = set_profile a d
                  \<or> (maxTracks cfg \<le> int (tmLen a) \<and> d' = set_built nw (set_profile a d))
                  \<or> d' = set_staged nw (set_profile a d))))"
    by blast
  have "d' = d \<or> (aid = Some j \<and> built_ok cfg d d')"
  proof (cases "d' = d")
    case True
    then show ?thesis by simp
  next
    case False
    with c have a: "aid = Some j" by blast
    with ld fd have ar: "artist = projection d" by (simp add: loaded_def)
    from c False consider
        (mark) "maxTracks cfg \<le> int (stagedLen artist)" "d' = set_built nw d"
      | (prof) a where "d' = set_profile a d"
      | (built) a where "maxTracks cfg \<le> int (tmLen a)" "d' = set_built nw (set_profile a d)"
      | (staged) a where "d' = set_staged nw (set_profile a d)"
      by blast
    then have "built_ok cfg d d'"
    proof cases
      case mark
      then show ?thesis
        by (simp add: built_ok_def ar stagedLen_projection matrix_of_set_built)
    next
      case prof
      then show ?thesis by (simp add: built_ok_def set_profile_def)
    next
      case built
      then show ?thesis by (simp add: built_ok_def matrix_of_set_built matrix_of_set_profile)
    next
      case staged
      then show ?thesis by (simp add: built_ok_def set_profile_def set_staged_def)
    qed
    with a show ?thesis by simp
  qed
  with fd' show ?thesis by blast
qed

lemma batch_loop_docs:
  assumes "\<And>aid artist. (aid, artist) \<in> set as \<Longrightarrow> loaded aid artist (coll (store st))"
    and "distinct (List.map_filter fst as)"
    and "find_doc j (coll (store st)) = Some d"
  shows "\<exists>d'. find_doc j (coll (store (snd (batch_loop cfg env clk k as st)))) = Some d'
     \<and> (d' = d \<or> (j \<in> set (List.map_filter fst as) \<and> built_ok cfg d d'))"
  using assms
proof (induction as arbitrary: st k d)
  case Nil
  then show ?case by simp
next
  case (Cons x rest)
  obtain aid artist where x: "x = (aid, artist)" by (cases x)
  have ld: "loaded aid artist (coll (store st))" using Cons.prems(1) x by simp
  have dr: "distinct (List.map_filter fst rest)"
    using Cons.prems(2) x by (cases aid) (simp_all add: List.map_filter_simps)
  have nin: "i \<notin> set (List.map_filter fst rest)" if "aid = Some i" for i
    using Cons.prems(2) x that by (simp add: List.map_filter_simps)
  have sub: "set (List.map_filter fst rest) \<subseteq> set (List.map_filter fst (x # rest))"
    using x by (cases aid) (auto simp: List.map_filter_simps)
  show ?case
  proof (cases "process_artist cfg env (clk k) aid artist st")
    case (Inl e)
    with x Cons.prems(3) show ?thesis by simp
  next
    case (Inr st1)
    have bl: "batch_loop cfg env clk k (x # rest) st = batch_loop cfg env clk (k + 1) rest st1"
      using x Inr by simp
    have ld1: "loaded aid' artist' (coll (store st1))" if m: "(aid', artist') \<in> set rest"
      for aid' artist'
    proof (cases aid')
      case None
      with Cons.prems(1) [of aid' artist'] m show ?thesis by (simp add: loaded_def)
    next
      case (Some i)
      from Cons.prems(1) [of aid' artist'] m Some
      obtain di where fi: "find_doc i (coll (store st)) = Some di"
        and li: "missingProfileOrEmpty di \<and> artist' = projection di"
        by (auto simp: loaded_def split: option.splits)
      have "i \<in> set (List.map_filter fst rest)"
        using m Some by (force simp: List.map_filter_def)
      with nin have "aid \<noteq> Some i" by blast
      with process_artist_step [OF ld Inr fi]
      have "find_doc i (coll (store st1)) = Some di" by auto
      with li Some show ?thesis by (simp add: loaded_def)
    qed
    from process_artist_step [OF ld Inr Cons.prems(3)]
    obtain d1 where f1: "find_doc j (coll (store st1)) = Some d1"
      and c1: "d1 = d \<or> (aid = Some j \<and> built_ok cfg d d1)"
      by blast
    from Cons.IH [OF ld1 dr f1, of "k + 1"]
    obtain d' where f': "find_doc j (coll (store (snd (batch_loop cfg env clk (k + 1) rest st1))))
        = Some d'"
      and c': "d' = d1 \<or> (j \<in> set (List.map_filter fst rest) \<and> built_ok cfg d1 d')"
      by blast
    have "d' = d \<or> (j \<in> set (List.map_filter fst (x # rest)) \<and> built_ok cfg d d')"
    proof (cases "d1 = d")
      case True
      with c' sub show ?thesis by auto
    next
      case False
      with c1 have a: "aid = Some j" and b: "built_ok cfg d d1" by simp_all
      from nin [OF a] c' have "d' = d1" by blast
      moreover have "j \<in> set (List.map_filter fst (x # rest))"
        using a x by (simp add: List.map_filter_simps)
      ultimately show ?thesis using b by simp
    qed
    with f' bl show ?thesis by simp
  qed
qed

lemma fold_updates_find:
  assumes "distinct (map fst ops)"
  shows "find_doc k (fold (\<lambda>(i, tm) ds. snd (updateOne (Some i) (f tm) ds)) ops ds)
     = (case map_of ops k of
          None \<Rightarrow> find_doc k ds
        | Some tm \<Rightarrow> map_option (f tm) (find_doc k ds))"
  using assms
proof (induction ops arbitrary: ds)
  case Nil
  show ?case by simp
next
  case (Cons op ops)
  obtain i tm where op: "op = (i, tm)" by (cases op)
  let ?ds = "snd (updateOne (Some i) (f tm) ds)"
  have d: "distinct (map fst ops)" and ni: "i \<notin> fst ` set ops"
    using Cons.prems op by simp_all
  have n: "map_of ops i = None" using ni by (simp add: map_of_eq_None_iff)
  have f: "find_doc k ?ds = (if k = i then map_option (f tm) (find_doc i ds) else find_doc k ds)"
    by (simp add: updateOne_find)
  show ?case
    using Cons.IH [OF d, of ?ds] op f n by (auto split: option.splits)
qed

lemma migration_ops_keys: "fst ` set (migration_ops r nw docs) \<subseteq> fst ` set docs"
  by (force simp: migration_ops_def split: option.splits if_splits)

lemma migration_ops_distinct:
  "distinct (map fst docs) \<Longrightarrow> distinct (map fst (migration_ops r nw docs))"
proof (induction docs)
  case Nil
  show ?case by (simp add: migration_ops_def)
next
  case (Cons x docs)
  obtain i d where x: "x = (i, d)" by (cases x)
  have t: "migration_ops r nw (x # docs)
      = (case essentiaTrackMatrix d of None \<Rightarrow> []
         | Some tm \<Rightarrow> if length tm = 0 then [] else [(i, tm)]) @ migration_ops r nw docs"
    by (simp add: migration_ops_def x)
  have ni: "i \<notin> fst ` set (migration_ops r nw docs)"
    using Cons.prems x migration_ops_keys [of r nw docs] by auto
  have d: "distinct (map fst (migration_ops r nw docs))" using Cons by simp
  show ?case unfolding t using ni d
    by (force split: option.splits)
qed

lemma migration_ops_map_of:
  "distinct (map fst docs) \<Longrightarrow>
     map_of (migration_ops r nw docs) k
       = (case map_of docs k of
            None \<Rightarrow> None
          | Some e \<Rightarrow> (case essentiaTrackMatrix e of
                         None \<Rightarrow> None
                       | Some tm \<Rightarrow> if tm = [] then None else Some tm))"
proof (induction docs)
  case Nil
  show ?case by (simp add: migration_ops_def)
next
  case (Cons x docs)
  obtain i d where x: "x = (i, d)" by (cases x)
  have t: "migration_ops r nw (x # docs)
      = (case essentiaTrackMatrix d of None \<Rightarrow> []
         | Some tm \<Rightarrow> if length tm = 0 then [] else [(i, tm)]) @ migration_ops r nw docs"
    by (simp add: migration_ops_def x)
  have ni: "map_of (migration_ops r nw docs) i = None"
    using Cons.prems x migration_ops_keys [of r nw docs]
    by (auto simp: map_of_eq_None_iff)
  have ih: "map_of (migration_ops r nw docs) k
       = (case map_of docs k of
            None \<Rightarrow> None
          | Some e \<Rightarrow> (case essentiaTrackMatrix e of
                         None \<Rightarrow> None
                       | Some tm \<Rightarrow> if tm = [] then None else Some tm))"
    using Cons by simp
  show ?case unfolding t using ih ni x
    by (auto split: option.splits)
qed

lemma migrate_doc:
  assumes "distinct (map fst docs)" and "find_doc k docs = Some e"
  shows "find_doc k (migrate a r nw docs)
     = Some (case essentiaTrackMatrix e of
               None \<Rightarrow> e
             | Some tm \<Rightarrow> if a \<and> tm \<noteq> [] then migrate_update r nw tm e else e)"
proof (cases a)
  case False
  with assms show ?thesis by (simp add: migrate_def split: option.splits)
next
  case True
  have m: "map_of docs k = Some e" using assms(2) by (simp add: find_doc_def)
  show ?thesis
    using True assms(2)
    by (simp add: migrate_def fold_updates_find [OF migration_ops_distinct [OF assms(1)]]
        migration_ops_map_of [OF assms(1)] m split: option.splits)
qed

lemma migrate_update_matrix:
  "flag_set (essentiaProfileBuilt (migrate_update r nw tm d))
     \<and> matrix_of (migrate_update r nw tm d) = tm"
  by (simp add: migrate_update_def set_nested_matrix_def flag_set_def matrix_of_def Let_def
      split: option.splits)

lemma builder_step_doc:
  assumes "find_doc k docs = Some e" and "r_success la"
  shows "find_doc k (builder_step nw k (Inr la) docs)
       = Some (builder_update nw (r_trackMatrix la) (r_payload la) e)"
    and "flag_set (essentiaProfileBuilt (builder_update nw (r_trackMatrix la) (r_payload la) e))"
    and "essentiaTrackMatrix (builder_update nw (r_trackMatrix la) (r_payload la) e)
       = r_trackMatrix la"
    and "matrix_of (builder_update nw (r_trackMatrix la) (r_payload la) e) = []"
    and "\<not> hasMatrix (builder_update nw (r_trackMatrix la) (r_payload la) e)"
  using assms
  by (simp_all add: builder_step_def updateOne_find builder_update_def flag_set_def
      matrix_of_def hasMatrix_def)


text \<open>
  C1 (amended). A run of the batch driver over artists it loaded (each the projection of
  a selected document, and each document loaded once) leaves every document on which it
  turned \<^verbatim>\<open>essentiaProfileBuilt\<close> on with a track matrix at least \<^verbatim>\<open>maxTracks\<close> long,
  hence non-empty when \<^verbatim>\<open>maxTracks\<close> is positive; so does each single iteration. The
  migration compares no track count: with \<^verbatim>\<open>--apply\<close> every document whose top-level
  \<^verbatim>\<open>essentiaTrackMatrix\<close> is a non-empty array ends built with that array as its matrix,
  whatever its length, and every other document is left as it was. The builder sets
  \<^verbatim>\<open>essentiaProfileBuilt\<close> for every artist whose analysis succeeded and stores the
  tracks at top level, with no \<^verbatim>\<open>essentiaAudioProfile.trackMatrix\<close> at all.
\<close>

theorem built_set_only_with_enough_tracks:
  "((\<forall>(aid, artist) \<in> set as. loaded aid artist (coll (store st)))
      \<and> distinct (List.map_filter fst as)
      \<and> find_doc j (coll (store st)) = Some d
      \<and> \<not> flag_set (essentiaProfileBuilt d)
     \<longrightarrow> (\<exists>d'. find_doc j (coll (store (snd (batch_loop cfg env clk 0 as st)))) = Some d'
            \<and> (flag_set (essentiaProfileBuilt d')
                \<longrightarrow> maxTracks cfg \<le> int (length (matrix_of d'))
                  \<and> (0 < maxTracks cfg \<longrightarrow> matrix_of d' \<noteq> []))))
   \<and> (loaded aid artist (coll (store st))
      \<and> process_artist cfg env nw aid artist st = Inr st'
      \<and> find_doc j (coll (store st)) = Some d
      \<and> find_doc j (coll (store st')) = Some d'
      \<and> \<not> flag_set (essentiaProfileBuilt d) \<and> flag_set (essentiaProfileBuilt d')
     \<longrightarrow> maxTracks cfg \<le> int (length (matrix_of d'))
         \<and> (0 < maxTracks cfg \<longrightarrow> matrix_of d' \<noteq> []))
   \<and> (distinct (map fst docs) \<and> find_doc k docs = Some e
        \<and> essentiaTrackMatrix e = Some tm \<and> tm \<noteq> []
     \<longrightarrow> (\<exists>e'. find_doc k (migrate True r nw docs) = Some e'
            \<and> flag_set (essentiaProfileBuilt e') \<and> matrix_of e' = tm))
   \<and> (distinct (map fst docs) \<and> find_doc k docs = Some e
        \<and> (\<not> a \<or> essentiaTrackMatrix e = None \<or> essentiaTrackMatrix e = Some [])
     \<longrightarrow> find_doc k (migrate a r nw docs) = Some e)
   \<and> (find_doc k docs = Some e \<and> r_success la
     \<longrightarrow> (\<exists>e'. find_doc k (builder_step nw k (Inr la) docs) = Some e'
            \<and> flag_set (essentiaProfileBuilt e')
            \<and> essentiaTrackMatrix e' = r_trackMatrix la \<and> matrix_of e' = []))"
proof -
  have run: "\<exists>d'. find_doc j (coll (store (snd (batch_loop cfg env clk 0 as st)))) = Some d'
            \<and> (flag_set (essentiaProfileBuilt d')
                \<longrightarrow> maxTracks cfg \<le> int (length (matrix_of d'))
                  \<and> (0 < maxTracks cfg \<longrightarrow> matrix_of d' \<noteq> []))"
    if l: "\<forall>(aid, artist) \<in> set as. loaded aid artist (coll (store st))"
      and di: "distinct (List.map_filter fst as)"
      and fd: "find_doc j (coll (store st)) = Some d"
      and off: "\<not> flag_set (essentiaProfileBuilt d)"
  proof -
    have l': "loaded aid artist (coll (store st))" if "(aid, artist) \<in> set as" for aid artist
      using l that by auto
    from batch_loop_docs [OF l' di fd, of cfg env clk 0]
    obtain d' where f: "find_doc j (coll (store (snd (batch_loop cfg env clk 0 as st)))) = Some d'"
      and c: "d' = d \<or> built_ok cfg d d'"
      by blast
    have "flag_set (essentiaProfileBuilt d') \<longrightarrow> maxTracks cfg \<le> int (length (matrix_of d'))"
      using c off by (auto simp: built_ok_def)
    then have "flag_set (essentiaProfileBuilt d')
        \<longrightarrow> maxTracks cfg \<le> int (length (matrix_of d'))
          \<and> (0 < maxTracks cfg \<longrightarrow> matrix_of d' \<noteq> [])"
      by auto
    with f show ?thesis by blast
  qed
  have step: "maxTracks cfg \<le> int (length (matrix_of d'))
         \<and> (0 < maxTracks cfg \<longrightarrow> matrix_of d' \<noteq> [])"
    if "loaded aid artist (coll (store st))"
      "process_artist cfg env nw aid artist st = Inr st'"
      "find_doc j (coll (store st)) = Some d" "find_doc j (coll (store st')) = Some d'"
      "\<not> flag_set (essentiaProfileBuilt d)" "flag_set (essentiaProfileBuilt d')"
  proof -
    from process_artist_step [OF that(1,2,3)] that(4,5,6)
    have "maxTracks cfg \<le> int (length (matrix_of d'))" by (auto simp: built_ok_def)
    then show ?thesis by auto
  qed
  have mig: "\<exists>e'. find_doc k (migrate True r nw docs) = Some e'
            \<and> flag_set (essentiaProfileBuilt e') \<and> matrix_of e' = tm"
    if "distinct (map fst docs)" "find_doc k docs = Some e"
      "essentiaTrackMatrix e = Some tm" "tm \<noteq> []"
    using migrate_doc [OF that(1,2), of True r nw] that(3,4) migrate_update_matrix [of r nw tm e]
    by simp
  have keep: "find_doc k (migrate a r nw docs) = Some e"
    if "distinct (map fst docs)" "find_doc k docs = Some e"
      "\<not> a \<or> essentiaTrackMatrix e = None \<or> essentiaTrackMatrix e = Some []"
    using migrate_doc [OF that(1,2), of a r nw] that(3) by (auto split: option.splits)
  have bld: "\<exists>e'. find_doc k (builder_step nw k (Inr la) docs) = Some e'
            \<and> flag_set (essentiaProfileBuilt e')
            \<and> essentiaTrackMatrix e' = r_trackMatrix la \<and> matrix_of e' = []"
    if "find_doc k docs = Some e" "r_success la"
    using builder_step_doc [OF that, of nw] by simp
  from run step mig keep bld show ?thesis by blast
qed

text \<open>
  C1 as stated fails on the migration: a document whose top-level matrix has one track is
  marked built, below the driver's target of 10.
\<close>

theorem built_with_short_matrix_counterexample:
  "\<not> flag_set (essentiaProfileBuilt ex_legacy_doc)
   \<and> find_doc 1 (migrate True False 9 [(1, ex_legacy_doc)])
       = Some (migrate_update False 9 [ex_tp ''a''] ex_legacy_doc)
   \<and> flag_set (essentiaProfileBuilt (migrate_update False 9 [ex_tp ''a''] ex_legacy_doc))
   \<and> length (matrix_of (migrate_update False 9 [ex_tp ''a''] ex_legacy_doc)) = 1
   \<and> \<not> maxTracks (ex_cfg 10)
        \<le> int (length (matrix_of (migrate_update False 9 [ex_tp ''a''] ex_legacy_doc)))"
  by (simp add: migrate_def migration_ops_def updateOne_def find_doc_def ex_legacy_doc_def
      ex_doc_def flag_set_def migrate_update_def set_nested_matrix_def matrix_of_def ex_cfg_def
      Let_def)



theorem built_set_only_with_enough_tracks_witness:
  "loaded (Some 1) (projection ex_staged_doc) (coll (store (ex_state [(1, ex_staged_doc)] [])))
   \<and> \<not> flag_set (essentiaProfileBuilt ex_staged_doc)
   \<and> find_doc 1 (coll (store (snd (batch_loop (ex_cfg 2) (ex_env 0 (ex_la [])) (\<lambda>k. 9) 0
          [(Some 1, projection ex_staged_doc)] (ex_state [(1, ex_staged_doc)] [])))))
       = Some (set_built 9 ex_staged_doc)
   \<and> flag_set (essentiaProfileBuilt (set_built 9 ex_staged_doc))
   \<and> maxTracks (ex_cfg 2) \<le> int (length (matrix_of (set_built 9 ex_staged_doc)))
   \<and> matrix_of (set_built 9 ex_staged_doc) \<noteq> []
   \<and> flag_set (essentiaProfileBuilt (the (find_doc 1 (migrate True False 9 [(1, ex_legacy_doc)]))))
   \<and> matrix_of (the (find_doc 1 (migrate True False 9 [(1, ex_legacy_doc)]))) = [ex_tp ''a'']
   \<and> find_doc 1 (migrate False False 9 [(1, ex_legacy_doc)]) = Some ex_legacy_doc
   \<and> flag_set (essentiaProfileBuilt
        (the (find_doc 1 (builder_step 9 1 (Inr (ex_la [])) [(1, ex_doc None None)]))))
   \<and> matrix_of (the (find_doc 1 (builder_step 9 1 (Inr (ex_la [])) [(1, ex_doc None None)]))) = []"
proof -
  let ?D = ex_staged_doc
  let ?S = "ex_state [(1, ?D)] []"
  let ?as = "[(Some 1, projection ?D)] :: (nat option \<times> unit artist_doc) list"
  let ?R = "batch_loop (ex_cfg 2) (ex_env 0 (ex_la [])) (\<lambda>k. 9) 0 ?as ?S"
  note ev = process_artist_def aName_of_def truthy_def ex_doc_def ex_env_def ex_cfg_def
      stagedLen_def flag_set_def ex_state_def Let_def mark_built_from_staged_def db_updateOne_def
      updateOne_def find_doc_def set_built_def projection_def ex_staged_doc_def
  have h0: "loaded (Some 1) (projection ?D) (coll (store ?S))"
    by (simp add: loaded_def find_doc_def ex_state_def missingProfileOrEmpty_def
        ex_staged_doc_def)
  have h1: "\<forall>(aid, artist) \<in> set ?as. loaded aid artist (coll (store ?S))"
    using h0 by simp
  have h2: "distinct (List.map_filter fst ?as)" by (simp add: List.map_filter_simps)
  have h3: "find_doc 1 (coll (store ?S)) = Some ?D" by (simp add: find_doc_def ex_state_def)
  have h4: "\<not> flag_set (essentiaProfileBuilt ?D)"
    by (simp add: flag_set_def ex_staged_doc_def ex_doc_def)
  have h5: "find_doc 1 (coll (store (snd ?R))) = Some (set_built 9 ?D)"
    by (simp add: ev)
  have h6: "flag_set (essentiaProfileBuilt (set_built 9 ?D))"
    by (simp add: flag_set_def set_built_def)
  have m1: "distinct (map fst [(1 :: nat, ex_legacy_doc)])" by simp
  have m2: "find_doc 1 [(1, ex_legacy_doc)] = Some ex_legacy_doc" by (simp add: find_doc_def)
  have m3: "essentiaTrackMatrix ex_legacy_doc = Some [ex_tp ''a'']"
    by (simp add: ex_legacy_doc_def)
  have b1: "find_doc 1 [(1, ex_doc None None)] = Some (ex_doc None None)"
    by (simp add: find_doc_def)
  have b2: "r_success (ex_la [])" by (simp add: ex_la_def)
  note T = built_set_only_with_enough_tracks
    [where as = ?as and st = ?S and j = 1 and d = ?D and cfg = "ex_cfg 2"
       and env = "ex_env 0 (ex_la [])" and clk = "\<lambda>k. 9" and docs = "[(1, ex_legacy_doc)]"
       and k = 1 and e = ex_legacy_doc and tm = "[ex_tp ''a'']" and r = False and nw = 9
       and a = False]
  note B = built_set_only_with_enough_tracks
    [where docs = "[(1, ex_doc None None)]" and k = 1 and e = "ex_doc None None"
       and la = "ex_la []" and nw = 9]
  note T1 = T [THEN conjunct1]
  note T3 = T [THEN conjunct2, THEN conjunct2, THEN conjunct1]
  note T4 = T [THEN conjunct2, THEN conjunct2, THEN conjunct2, THEN conjunct1]
  note B5 = B [THEN conjunct2, THEN conjunct2, THEN conjunct2, THEN conjunct2]
  from T1 h1 h2 h3 h4 obtain d' where
    "find_doc 1 (coll (store (snd ?R))) = Some d'"
    "flag_set (essentiaProfileBuilt d')
       \<longrightarrow> maxTracks (ex_cfg 2) \<le> int (length (matrix_of d'))
         \<and> (0 < maxTracks (ex_cfg 2) \<longrightarrow> matrix_of d' \<noteq> [])"
    by blast
  with h5 h6
  have x: "maxTracks (ex_cfg 2) \<le> int (length (matrix_of (set_built 9 ?D)))
       \<and> (0 < maxTracks (ex_cfg 2) \<longrightarrow> matrix_of (set_built 9 ?D) \<noteq> [])"
    by simp
  moreover have "0 < maxTracks (ex_cfg 2)" by (simp add: ex_cfg_def)
  ultimately have x': "maxTracks (ex_cfg 2) \<le> int (length (matrix_of (set_built 9 ?D)))
       \<and> matrix_of (set_built 9 ?D) \<noteq> []"
    by simp
  from T3 m1 m2 m3 obtain e' where
    "find_doc 1 (migrate True False 9 [(1, ex_legacy_doc)]) = Some e'"
    "flag_set (essentiaProfileBuilt e')" "matrix_of e' = [ex_tp ''a'']"
    by blast
  then have y: "flag_set (essentiaProfileBuilt (the (find_doc 1 (migrate True False 9 [(1, ex_legacy_doc)]))))
       \<and> matrix_of (the (find_doc 1 (migrate True False 9 [(1, ex_legacy_doc)]))) = [ex_tp ''a'']"
    by simp
  from T4 m1 m2
  have z: "find_doc 1 (migrate False False 9 [(1, ex_legacy_doc)]) = Some ex_legacy_doc"
    by blast
  from B5 b1 b2 obtain f' where
    "find_doc 1 (builder_step 9 1 (Inr (ex_la [])) [(1, ex_doc None None)]) = Some f'"
    "flag_set (essentiaProfileBuilt f')" "matrix_of f' = []"
    by blast
  then have w: "flag_set (essentiaProfileBuilt
        (the (find_doc 1 (builder_step 9 1 (Inr (ex_la [])) [(1, ex_doc None None)]))))
     \<and> matrix_of (the (find_doc 1 (builder_step 9 1 (Inr (ex_la [])) [(1, ex_doc None None)]))) = []"
    by simp
  from h0 h4 h5 h6 x' y z w show ?thesis by blast
qed


section \<open>Resuming a staged profile\<close>

lemma requested_remaining:
  "int (stagedLen artist) < maxTracks cfg \<Longrightarrow>
     b_maxTracks (analyze_request cfg aName artist f) = maxTracks cfg - int (stagedLen artist)"
  by (simp add: analyze_request_def requested_maxTracks_def remainingTracks_def)

text \<open>
  C4. A staged artist with the two tracks \<open>a\<close> and \<open>b\<close> and a target of 3: the driver asks
  the service for the one remaining track, the service answers with the new track \<open>c\<close>,
  and the profile write replaces the stored profile. The document ends with the matrix
  \<open>[c]\<close> alone, staged and not built: the two tracks it had are gone, and the three
  tracks analysed in total never meet in one matrix.
\<close>

theorem resume_replaces_staged_matrix:
  "process_artist (ex_cfg 3) (ex_env 0 (ex_la [ex_tp ''c''])) 9 (Some 1) ex_staged_doc
       (ex_state [(1, ex_staged_doc)] [])
     = Inr (projr (process_artist (ex_cfg 3) (ex_env 0 (ex_la [ex_tp ''c''])) 9 (Some 1)
              ex_staged_doc (ex_state [(1, ex_staged_doc)] [])))
   \<and> map b_maxTracks (requests (projr (process_artist (ex_cfg 3) (ex_env 0 (ex_la [ex_tp ''c'']))
              9 (Some 1) ex_staged_doc (ex_state [(1, ex_staged_doc)] [])))) = [1]
   \<and> map (\<lambda>(i, d). (map trackId (matrix_of d), essentiaProfileBuilt d, essentiaProfileStaged d))
         (coll (store (projr (process_artist (ex_cfg 3) (ex_env 0 (ex_la [ex_tp ''c''])) 9 (Some 1)
              ex_staged_doc (ex_state [(1, ex_staged_doc)] [])))))
       = [([''c''], None, Some True)]
   \<and> map trackId (matrix_of ex_staged_doc) = [''a'', ''b'']"
  by (simp add: process_artist_def aName_of_def truthy_def ex_staged_doc_def ex_doc_def ex_env_def
      ex_cfg_def stagedLen_def flag_set_def ex_state_def Let_def analysis_passes_def apple_pass_def
      second_pass_def callAnalyze_def analyze_request_def requested_maxTracks_def
      remainingTracks_def write_artist_profile_def ex_la_def db_updateOne_def updateOne_def
      set_profile_def profile_of_def tmLen_def set_staged_def matrix_of_def ex_tp_def)


section \<open>Properties of the resolution steps\<close>

lemma early_keep: "truthy (v_previewUrl a) \<Longrightarrow> early_soundcloud e c t a = a"
  by (simp add: early_soundcloud_def)

lemma relaxed_keep: "truthy (v_previewUrl a) \<Longrightarrow> relaxed_soundcloud e c t a = a"
  by (simp add: relaxed_soundcloud_def)

lemma apple_primary_keep: "truthy (v_previewUrl a) \<Longrightarrow> same_choice a (apple_primary_step e c t a)"
  by (simp add: apple_primary_step_def same_choice_def Let_def)

lemma recovery_keep: "truthy (v_previewUrl a) \<Longrightarrow> spotify_recovery e c t a = a"
  by (simp add: spotify_recovery_def)

lemma note_keep: "truthy (v_previewUrl a) \<Longrightarrow> note_recovery_disabled c a = a"
  by (simp add: note_recovery_disabled_def)

lemma exact_keep: "truthy (v_previewUrl a) \<Longrightarrow> apple_exact_step e c t a = a"
  by (simp add: apple_exact_step_def)

lemma broad_keep: "truthy (v_previewUrl a) \<Longrightarrow> apple_broad_step e c t a = a"
  by (simp add: apple_broad_step_def)

lemma sc_keep: "truthy (v_previewUrl a) \<Longrightarrow> soundcloud_step e t a = a"
  by (simp add: soundcloud_step_def)

lemma agg_keep: "truthy (v_previewUrl a) \<Longrightarrow> aggregator_step e t a = a"
  by (simp add: aggregator_step_def)

lemma fallback_keep: "truthy (v_previewUrl a) \<Longrightarrow> spotify_fallback_step c t a = a"
  by (simp add: spotify_fallback_step_def)

lemma restore_apple_keep: "truthy (v_previewUrl a) \<Longrightarrow> restore_apple_step c a = a"
  by (simp add: restore_apple_step_def)

lemma restore_spotify_dead: "restore_spotify_step c a = a"
  by (auto simp add: restore_spotify_step_def forceSoundCloudTest_def)

lemma known_preview_kept:
  assumes "truthy (v_previewUrl (init_acq c t s cs))"
  shows "same_choice (init_acq c t s cs) (acquirePreviewForTrack e c t s cs)"
proof -
  let ?a = "init_acq c t s cs"
  let ?b = "apple_primary_step e c t ?a"
  from apple_primary_keep [OF assms] have sc: "same_choice ?a ?b" .
  then have tb: "truthy (v_previewUrl ?b)" using assms by (simp add: same_choice_def)
  have "acquirePreviewForTrack e c t s cs = ?b"
    using assms tb
    by (simp add: acquirePreviewForTrack_def early_keep relaxed_keep recovery_keep note_keep
        exact_keep broad_keep sc_keep agg_keep fallback_keep restore_apple_keep
        restore_spotify_dead)
  with sc show ?thesis by simp
qed


lemma calls_grow_refl: "calls_grow a a"
  by (simp add: calls_grow_def)

lemma calls_grow_trans: "calls_grow a b \<Longrightarrow> calls_grow b c \<Longrightarrow> calls_grow a c"
  by (auto simp: calls_grow_def)

lemma calls_grow_stats: "calls_grow a (b\<lparr>stats := s\<rparr>) = calls_grow a b"
  by (simp add: calls_grow_def)

lemma sc_query_calls:
  "calls (snd (sc_query e q ar nm d f1 f2 f3 a)) = calls a @ [SoundCloudCall ar nm]"
  by (simp add: sc_query_def call_soundcloud_def take_soundcloud_def split: sum.splits)

lemma sc_query_miss:
  "sc_miss (searchSoundCloudAudio e (length (calls a)) ar nm) \<Longrightarrow>
     same_pick a (snd (sc_query e q ar nm d f1 f2 f3 a))"
  by (auto simp add: sc_query_def call_soundcloud_def sc_miss_def same_pick_def split: sum.splits)

lemma sc_query_orig:
  "originalApplePreview (snd (sc_query e q ar nm d f1 f2 f3 a)) = originalApplePreview a"
  by (simp add: sc_query_def call_soundcloud_def take_soundcloud_def split: sum.splits)

lemma findApple_calls:
  "calls (snd (findApplePreviewUrl e ar nm a)) = calls a @ [ItunesCall (apple_term ar nm) 1]"
  by (simp add: findApplePreviewUrl_def call_itunes_def split: fetched.splits list.splits)

lemma findAppleBroader_calls:
  "calls (snd (findApplePreviewUrlBroader e ar nm a)) = calls a @ [ItunesCall ar 10]"
  by (simp add: findApplePreviewUrlBroader_def call_itunes_def split: fetched.splits list.splits)

lemma findApple_rest:
  "v_previewUrl (snd (findApplePreviewUrl e ar nm a)) = v_previewUrl a
   \<and> v_audioSource (snd (findApplePreviewUrl e ar nm a)) = v_audioSource a
   \<and> originalApplePreview (snd (findApplePreviewUrl e ar nm a)) = originalApplePreview a"
  by (simp add: findApplePreviewUrl_def call_itunes_def split: fetched.splits list.splits)

lemma findAppleBroader_rest:
  "v_previewUrl (snd (findApplePreviewUrlBroader e ar nm a)) = v_previewUrl a
   \<and> v_audioSource (snd (findApplePreviewUrlBroader e ar nm a)) = v_audioSource a
   \<and> originalApplePreview (snd (findApplePreviewUrlBroader e ar nm a)) = originalApplePreview a"
  by (simp add: findApplePreviewUrlBroader_def call_itunes_def split: fetched.splits list.splits)

lemma early_grow: "calls_grow a (early_soundcloud e c t a)"
  by (simp add: early_soundcloud_def calls_grow_def sc_query_calls)

lemma relaxed_grow: "calls_grow a (relaxed_soundcloud e c t a)"
proof (cases "\<not> truthy (v_previewUrl a) \<and> (forceSoundCloudTest c \<or> soundcloudPrimary c) \<and> scClientId e")
  case False
  then show ?thesis by (auto simp: relaxed_soundcloud_def calls_grow_def)
next
  case True
  let ?simple = "fst (simplifyName (track_name t))"
  let ?a0 = "if snd (simplifyName (track_name t))
             then a\<lparr>stats := (stats a)\<lparr>pr_suffixStrips := pr_suffixStrips (stats a) + 1\<rparr>\<rparr> else a"
  let ?r1 = "if ?simple \<noteq> [] \<and> ?simple \<noteq> track_name t
             then sc_query e (tmpl (primaryArtist t) @ '' :: '' @ ?simple)
                    (primaryArtist t) ?simple (8 / 10) False True False ?a0
             else (None, ?a0)"
  have g1: "calls_grow a (snd ?r1)"
    by (simp add: calls_grow_def sc_query_calls)
  have g2: "calls_grow (snd ?r1) (snd (sc_query e (tmpl (primaryArtist t)) (primaryArtist t) []
                            (7 / 10) False False True (snd ?r1)))"
    by (simp add: calls_grow_def sc_query_calls)
  have "relaxed_soundcloud e c t a = snd ?r1
      \<or> relaxed_soundcloud e c t a = snd (sc_query e (tmpl (primaryArtist t)) (primaryArtist t) []
                            (7 / 10) False False True (snd ?r1))"
    using True by (cases ?r1) (auto simp: relaxed_soundcloud_def Let_def split: option.splits)
  with g1 g2 show ?thesis by (auto intro: calls_grow_trans)
qed


lemma findApple_eqD:
  assumes "findApplePreviewUrl e ar nm a = (u, a')"
  shows "calls a' = calls a @ [ItunesCall (apple_term ar nm) 1]"
    and "v_previewUrl a' = v_previewUrl a" and "v_audioSource a' = v_audioSource a"
    and "originalApplePreview a' = originalApplePreview a"
  using assms findApple_calls [of e ar nm a] findApple_rest [of e ar nm a] by simp_all

lemma findAppleBroader_eqD:
  assumes "findApplePreviewUrlBroader e ar nm a = (u, a')"
  shows "calls a' = calls a @ [ItunesCall ar 10]"
    and "v_previewUrl a' = v_previewUrl a" and "v_audioSource a' = v_audioSource a"
    and "originalApplePreview a' = originalApplePreview a"
  using assms findAppleBroader_calls [of e ar nm a] findAppleBroader_rest [of e ar nm a] by simp_all

lemma apple_primary_grow: "calls_grow a (apple_primary_step e c t a)"
  by (auto simp: apple_primary_step_def Let_def calls_grow_def
      dest!: findApple_eqD(1) findAppleBroader_eqD(1) split: prod.splits)

lemma patterns_loop_grow: "calls_grow a (snd (patterns_loop e c t m cand rl nm ps a))"
proof (induction ps arbitrary: a)
  case Nil
  show ?case by (simp add: calls_grow_def)
next
  case (Cons p ps)
  have step: "calls_grow a (a\<lparr>stats := count_query rl (stats a),
      calls := calls a @ [SpotifySearchCall p m],
      perTrackAttempts := Suc (perTrackAttempts a)\<rparr>)"
    by (simp add: calls_grow_def)
  show ?case
    using Cons.IH [of "a\<lparr>stats := count_query rl (stats a),
      calls := calls a @ [SpotifySearchCall p m],
      perTrackAttempts := Suc (perTrackAttempts a)\<rparr>"] step
    by (auto simp: call_spotify_def calls_grow_def split: fetched.splits list.splits)
qed

lemma cand_loop_grow: "calls_grow a (snd (cand_loop e c t m cands a))"
proof (induction cands arbitrary: a)
  case Nil
  show ?case by (simp add: calls_grow_def)
next
  case (Cons cand cands)
  obtain r1 a1 where p1: "patterns_loop e c t m cand False (track_name t)
             (exact_patterns (track_name t) cand) a = (r1, a1)"
    by (cases "patterns_loop e c t m cand False (track_name t)
             (exact_patterns (track_name t) cand) a")
  with patterns_loop_grow [of a e c t m cand False "track_name t" "exact_patterns (track_name t) cand"]
  have g1: "calls_grow a a1" by simp
  let ?simple = "fst (simplifyName (track_name t))"
  let ?a2 = "if snd (simplifyName (track_name t))
             then a1\<lparr>stats := (stats a1)\<lparr>pr_suffixStrips := pr_suffixStrips (stats a1) + 1\<rparr>\<rparr>
             else a1"
  have g2: "calls_grow a ?a2" using g1 by (simp add: calls_grow_def)
  obtain r3 a3 where p3: "patterns_loop e c t m cand True ?simple
             (relaxed_patterns ?simple cand) ?a2 = (r3, a3)"
    by (cases "patterns_loop e c t m cand True ?simple (relaxed_patterns ?simple cand) ?a2")
  with patterns_loop_grow [of ?a2 e c t m cand True ?simple "relaxed_patterns ?simple cand"]
  have g3: "calls_grow a a3" using g2 by (auto intro: calls_grow_trans)
  from Cons.IH [of ?a2] g2 have i2: "calls_grow a (snd (cand_loop e c t m cands ?a2))"
    by (rule calls_grow_trans [rotated])
  from Cons.IH [of a3] g3 have i3: "calls_grow a (snd (cand_loop e c t m cands a3))"
    by (rule calls_grow_trans [rotated])
  from Cons.IH [of a1] g1 have i1: "calls_grow a (snd (cand_loop e c t m cands a1))"
    by (rule calls_grow_trans [rotated])
  show ?case
    using p1 p3 g1 g3 i1 i2 i3
    by (cases r1; cases r3) (auto simp: Let_def)
qed

lemma market_loop_grow: "calls_grow a (snd (market_loop e c t cands ms a))"
proof (induction ms arbitrary: a)
  case Nil
  show ?case by (simp add: calls_grow_def)
next
  case (Cons m ms)
  let ?a0 = "if m \<in> set (pr_marketsTried (stats a)) then a
             else a\<lparr>stats := (stats a)\<lparr>pr_marketsTried := pr_marketsTried (stats a) @ [m]\<rparr>\<rparr>"
  have g0: "calls_grow a ?a0" by (simp add: calls_grow_def)
  obtain r1 a1 where p1: "cand_loop e c t m cands ?a0 = (r1, a1)"
    by (cases "cand_loop e c t m cands ?a0")
  with cand_loop_grow [of ?a0 e c t m cands] g0 have g1: "calls_grow a a1"
    by (auto intro: calls_grow_trans)
  from Cons.IH [of a1] g1 have i1: "calls_grow a (snd (market_loop e c t cands ms a1))"
    by (rule calls_grow_trans [rotated])
  show ?case
    using p1 g1 i1 by (cases r1) (auto simp: Let_def)
qed

lemma recovery_grow: "calls_grow a (spotify_recovery e c t a)"
proof (cases "\<not> truthy (v_previewUrl a) \<and> truthy (spotifyToken c) \<and> \<not> useApplePrimary c
         \<and> \<not> forceSoundCloudTest c \<and> \<not> soundcloudPrimary c")
  case False
  then show ?thesis by (auto simp: spotify_recovery_def calls_grow_def)
next
  case True
  obtain r1 a1 where p1: "market_loop e c t (artistCandidates c t) (recovery_markets e c)
                (a\<lparr>recovered := None\<rparr>) = (r1, a1)"
    by (cases "market_loop e c t (artistCandidates c t) (recovery_markets e c) (a\<lparr>recovered := None\<rparr>)")
  with market_loop_grow [of "a\<lparr>recovered := None\<rparr>" e c t "artistCandidates c t" "recovery_markets e c"]
  have "calls_grow a a1" by (simp add: calls_grow_def)
  with True p1 show ?thesis
    by (cases r1) (auto simp: spotify_recovery_def calls_grow_def split: option.splits)
qed

lemma note_grow: "calls_grow a (note_recovery_disabled c a)"
  by (simp add: note_recovery_disabled_def calls_grow_def)

lemma exact_grow: "calls_grow a (apple_exact_step e c t a)"
  by (auto simp: apple_exact_step_def calls_grow_def dest!: findApple_eqD(1)
      split: prod.splits list.splits)

lemma broad_grow: "calls_grow a (apple_broad_step e c t a)"
  by (auto simp: apple_broad_step_def calls_grow_def dest!: findAppleBroader_eqD(1)
      split: prod.splits list.splits)

lemma sc_grow: "calls_grow a (soundcloud_step e t a)"
  by (simp add: soundcloud_step_def calls_grow_def sc_query_calls)

lemma agg_grow: "calls_grow a (aggregator_step e t a)"
  by (auto simp: aggregator_step_def calls_grow_def call_aggregator_def
      split: sum.splits option.splits)

lemma fallback_calls: "calls (spotify_fallback_step c t a) = calls a"
  by (simp add: spotify_fallback_step_def)

lemma restore_apple_calls: "calls (restore_apple_step c a) = calls a"
  by (simp add: restore_apple_step_def)

lemma init_calls: "calls (init_acq c t s cs) = cs"
  by (simp add: init_acq_def Let_def)

lemma in_made:
  assumes "calls_grow a0 a" and "calls b = calls a @ xs" and "x \<in> set xs" and "calls_grow b z"
    and "calls a0 = cs"
  shows "x \<in> set (drop (length cs) (calls z))"
  using assms by (auto simp: calls_grow_def)

lemma agg_call:
  "\<not> truthy (v_previewUrl a) \<Longrightarrow>
     calls (aggregator_step e t a) = calls a @ [AggregatorCall (primaryArtist t) (track_name t)]"
  by (auto simp: aggregator_step_def call_aggregator_def split: sum.splits option.splits)

lemma sc_call:
  "\<not> truthy (v_previewUrl a) \<Longrightarrow> scClientId e \<Longrightarrow>
     calls (soundcloud_step e t a) = calls a @ [SoundCloudCall (primaryArtist t) (track_name t)]"
  by (simp add: soundcloud_step_def sc_query_calls)

lemma exact_call:
  "\<not> truthy (v_previewUrl a) \<Longrightarrow> \<not> useApplePrimary c \<Longrightarrow> \<not> forceSoundCloudTest c \<Longrightarrow>
   artists t \<noteq> [] \<Longrightarrow>
     calls (apple_exact_step e c t a)
       = calls a @ [ItunesCall (apple_term (hd (artists t)) (track_name t)) 1]"
  by (auto simp: apple_exact_step_def forceSoundCloudTest_def dest!: findApple_eqD(1)
      split: prod.splits list.splits)

lemma broad_call:
  "\<not> truthy (v_previewUrl a) \<Longrightarrow> \<not> useApplePrimary c \<Longrightarrow> \<not> forceSoundCloudTest c \<Longrightarrow>
   artists t \<noteq> [] \<Longrightarrow>
     calls (apple_broad_step e c t a) = calls a @ [ItunesCall (hd (artists t)) 10]"
  by (auto simp: apple_broad_step_def forceSoundCloudTest_def dest!: findAppleBroader_eqD(1)
      split: prod.splits list.splits)

lemma apple_primary_call:
  assumes "useApplePrimary c" "\<not> forceSoundCloudTest c" "artists t \<noteq> []" "track_name t \<noteq> []"
    and "\<not> truthy (v_previewUrl (apple_primary_step e c t a))"
  shows "calls (apple_primary_step e c t a)
       = calls a @ [ItunesCall (apple_term (hd (artists t)) (track_name t)) 1,
                    ItunesCall (hd (artists t)) 10]"
proof -
  have fa: "\<not> truthy (v_previewUrl a)"
    using assms(5) apple_primary_keep [of a e c t] by (auto simp: same_choice_def)
  obtain u a' where f1: "findApplePreviewUrl e (hd (artists t)) (track_name t) a = (u, a')"
    by (cases "findApplePreviewUrl e (hd (artists t)) (track_name t) a")
  note d1 = findApple_eqD [OF f1]
  let ?a1 = "if truthy u then a'\<lparr>v_previewUrl := u, v_audioSource := Some ''apple''\<rparr>
             else a'\<lparr>v_previewUrl := u\<rparr>"
  obtain w a'' where f2: "findApplePreviewUrlBroader e (hd (artists t)) (track_name t) ?a1 = (w, a'')"
    by (cases "findApplePreviewUrlBroader e (hd (artists t)) (track_name t) ?a1")
  note d2 = findAppleBroader_eqD [OF f2]
  have nu: "\<not> truthy u"
  proof
    assume "truthy u"
    with assms(1-4) fa f1 have "truthy (v_previewUrl (apple_primary_step e c t a))"
      by (simp add: apple_primary_step_def Let_def)
    with assms(5) show False by simp
  qed
  with assms(1-4) fa f1 f2 d1 d2 show ?thesis
    by (simp add: apple_primary_step_def Let_def)
qed

lemma starts_then_grow:
  assumes "\<exists>xs. calls b = calls a @ x # xs" and "calls_grow b z"
  shows "\<exists>xs. calls z = calls a @ x # xs"
  using assms by (auto simp: calls_grow_def)

lemma patterns_loop_first:
  assumes "\<not> reached (perTrackAttempts a) (perTrackRecoveryLimit c)"
  shows "\<exists>xs. calls (snd (patterns_loop e c t m cand rl nm (p # ps) a))
           = calls a @ SpotifySearchCall p m # xs"
proof -
  let ?a1 = "a\<lparr>stats := count_query rl (stats a), calls := calls a @ [SpotifySearchCall p m]\<rparr>"
  have s: "\<exists>xs. calls ?a1 = calls a @ SpotifySearchCall p m # xs" by simp
  have g: "calls_grow ?a1 (snd (patterns_loop e c t m cand rl nm (p # ps) a))"
    using assms
      patterns_loop_grow [of "?a1\<lparr>perTrackAttempts := perTrackAttempts ?a1 + 1\<rparr>" e c t m cand rl nm ps]
    by (auto simp: call_spotify_def calls_grow_def split: fetched.splits list.splits)
  from starts_then_grow [OF s g] show ?thesis .
qed

lemma cand_loop_first:
  assumes "\<not> reached (perTrackAttempts a) (perTrackRecoveryLimit c)"
  shows "\<exists>xs. calls (snd (cand_loop e c t m (cand # cands) a))
           = calls a @ SpotifySearchCall (hd (exact_patterns (track_name t) cand)) m # xs"
proof -
  obtain r1 a1 where p1: "patterns_loop e c t m cand False (track_name t)
             (exact_patterns (track_name t) cand) a = (r1, a1)"
    by (cases "patterns_loop e c t m cand False (track_name t)
             (exact_patterns (track_name t) cand) a")
  have s: "\<exists>xs. calls a1 = calls a @ SpotifySearchCall (hd (exact_patterns (track_name t) cand)) m # xs"
    using patterns_loop_first [OF assms, of e t m cand False "track_name t"
        "hd (exact_patterns (track_name t) cand)" "tl (exact_patterns (track_name t) cand)"] p1
    by (simp add: exact_patterns_def)
  let ?simple = "fst (simplifyName (track_name t))"
  let ?a2 = "if snd (simplifyName (track_name t))
             then a1\<lparr>stats := (stats a1)\<lparr>pr_suffixStrips := pr_suffixStrips (stats a1) + 1\<rparr>\<rparr>
             else a1"
  have g2: "calls_grow a1 ?a2" by (simp add: calls_grow_def)
  obtain r3 a3 where p3: "patterns_loop e c t m cand True ?simple
             (relaxed_patterns ?simple cand) ?a2 = (r3, a3)"
    by (cases "patterns_loop e c t m cand True ?simple (relaxed_patterns ?simple cand) ?a2")
  with patterns_loop_grow [of ?a2 e c t m cand True ?simple "relaxed_patterns ?simple cand"] g2
  have g3: "calls_grow a1 a3" by (auto intro: calls_grow_trans)
  have i2: "calls_grow a1 (snd (cand_loop e c t m cands ?a2))"
    using g2 cand_loop_grow [of ?a2 e c t m cands] by (rule calls_grow_trans)
  have i3: "calls_grow a1 (snd (cand_loop e c t m cands a3))"
    using g3 cand_loop_grow [of a3 e c t m cands] by (rule calls_grow_trans)
  have i1: "calls_grow a1 (snd (cand_loop e c t m cands a1))"
    by (rule cand_loop_grow)
  have "calls_grow a1 (snd (cand_loop e c t m (cand # cands) a))"
    using p1 p3 g3 i1 i2 i3 calls_grow_refl [of a1]
    by (cases r1; cases r3) (auto simp: Let_def)
  from starts_then_grow [OF s this] show ?thesis .
qed

lemma market_loop_first:
  assumes "\<not> reached (perTrackAttempts a) (perTrackRecoveryLimit c)"
  shows "\<exists>xs. calls (snd (market_loop e c t (cand # cands) (m # ms) a))
           = calls a @ SpotifySearchCall (hd (exact_patterns (track_name t) cand)) m # xs"
proof -
  let ?a0 = "if m \<in> set (pr_marketsTried (stats a)) then a
             else a\<lparr>stats := (stats a)\<lparr>pr_marketsTried := pr_marketsTried (stats a) @ [m]\<rparr>\<rparr>"
  have pa: "\<not> reached (perTrackAttempts ?a0) (perTrackRecoveryLimit c)" using assms by simp
  have ca: "calls ?a0 = calls a" by simp
  obtain r1 a1 where p1: "cand_loop e c t m (cand # cands) ?a0 = (r1, a1)"
    by (cases "cand_loop e c t m (cand # cands) ?a0")
  from cand_loop_first [OF pa, of e t m cand cands] p1 ca
  have s: "\<exists>xs. calls a1 = calls a @ SpotifySearchCall (hd (exact_patterns (track_name t) cand)) m # xs"
    by simp
  have "calls_grow a1 (snd (market_loop e c t (cand # cands) (m # ms) a))"
    using p1 market_loop_grow [of a1 e c t "cand # cands" ms] calls_grow_refl [of a1]
    by (cases r1) (auto simp: Let_def simp del: cand_loop.simps)
  from starts_then_grow [OF s this] show ?thesis .
qed

lemma recovery_first_call:
  assumes "\<not> truthy (v_previewUrl a)" "truthy (spotifyToken c)" "\<not> useApplePrimary c"
    "\<not> forceSoundCloudTest c" "artistCandidates c t \<noteq> []" "recovery_markets e c \<noteq> []"
    "perTrackAttempts a = 0" "\<not> reached 0 (perTrackRecoveryLimit c)"
  shows "\<exists>xs. calls (spotify_recovery e c t a)
           = calls a @ SpotifySearchCall (hd (exact_patterns (track_name t) (hd (artistCandidates c t))))
                        (hd (recovery_markets e c)) # xs"
proof -
  obtain cand cands where cs: "artistCandidates c t = cand # cands"
    using assms(5) by (cases "artistCandidates c t") auto
  obtain m ms where mk: "recovery_markets e c = m # ms"
    using assms(6) by (cases "recovery_markets e c") auto
  have pa: "\<not> reached (perTrackAttempts (a\<lparr>recovered := None\<rparr>)) (perTrackRecoveryLimit c)"
    using assms(7,8) by simp
  obtain r1 a1 where p1: "market_loop e c t (cand # cands) (m # ms) (a\<lparr>recovered := None\<rparr>) = (r1, a1)"
    by (cases "market_loop e c t (cand # cands) (m # ms) (a\<lparr>recovered := None\<rparr>)")
  from market_loop_first [OF pa, of e t cand cands m ms] p1
  have s: "\<exists>xs. calls a1 = calls a @ SpotifySearchCall (hd (exact_patterns (track_name t) cand)) m # xs"
    by simp
  have sp: "\<not> soundcloudPrimary c" using assms(4) by (simp add: forceSoundCloudTest_def)
  have "calls (spotify_recovery e c t a) = calls a1"
    using assms(1-4) sp cs mk p1
    by (cases r1) (auto simp: spotify_recovery_def split: option.splits simp del: market_loop.simps)
  with s cs mk show ?thesis by simp
qed

lemma early_attempts: "perTrackAttempts (early_soundcloud e c t a) = perTrackAttempts a"
  by (simp add: early_soundcloud_def sc_query_def call_soundcloud_def take_soundcloud_def
      split: sum.splits)

lemma sc_query_attempts:
  "perTrackAttempts (snd (sc_query e q ar nm d f1 f2 f3 a)) = perTrackAttempts a"
  by (simp add: sc_query_def call_soundcloud_def take_soundcloud_def split: sum.splits)

lemma early_skip: "\<not> forceSoundCloudTest c \<Longrightarrow> early_soundcloud e c t a = a"
  by (simp add: early_soundcloud_def)

lemma relaxed_skip: "\<not> forceSoundCloudTest c \<Longrightarrow> relaxed_soundcloud e c t a = a"
  by (simp add: relaxed_soundcloud_def forceSoundCloudTest_def)

lemma apple_primary_skip: "\<not> useApplePrimary c \<or> forceSoundCloudTest c \<Longrightarrow> apple_primary_step e c t a = a"
  by (auto simp add: apple_primary_step_def)

lemma recovery_skip:
  "useApplePrimary c \<or> forceSoundCloudTest c \<or> \<not> truthy (spotifyToken c) \<Longrightarrow> spotify_recovery e c t a = a"
  by (auto simp add: spotify_recovery_def)

lemma exact_skip: "useApplePrimary c \<or> forceSoundCloudTest c \<Longrightarrow> apple_exact_step e c t a = a"
  by (auto simp add: apple_exact_step_def)

lemma broad_skip: "useApplePrimary c \<or> forceSoundCloudTest c \<Longrightarrow> apple_broad_step e c t a = a"
  by (auto simp add: apple_broad_step_def)

lemma init_attempts: "perTrackAttempts (init_acq c t s cs) = 0"
  by (simp add: init_acq_def Let_def)

text \<open>The states between the steps of one resolution.\<close>

lemma acquire_exhausted:
  assumes nf: "\<not> truthy (v_previewUrl (acquirePreviewForTrack e c t s cs))"
  shows "AggregatorCall (primaryArtist t) (track_name t) \<in> set (made_calls e c t s cs)"
    and "scClientId e \<Longrightarrow>
           SoundCloudCall (primaryArtist t) (track_name t) \<in> set (made_calls e c t s cs)"
    and "\<not> forceSoundCloudTest c \<Longrightarrow> artists t \<noteq> [] \<Longrightarrow> track_name t \<noteq> [] \<Longrightarrow>
           ItunesCall (apple_term (hd (artists t)) (track_name t)) 1 \<in> set (made_calls e c t s cs)
           \<and> ItunesCall (hd (artists t)) 10 \<in> set (made_calls e c t s cs)"
    and "\<not> forceSoundCloudTest c \<Longrightarrow> \<not> useApplePrimary c \<Longrightarrow> truthy (spotifyToken c) \<Longrightarrow>
         artistCandidates c t \<noteq> [] \<Longrightarrow> recovery_markets e c \<noteq> [] \<Longrightarrow>
         \<not> reached 0 (perTrackRecoveryLimit c) \<Longrightarrow>
           SpotifySearchCall (hd (exact_patterns (track_name t) (hd (artistCandidates c t))))
              (hd (recovery_markets e c)) \<in> set (made_calls e c t s cs)"
proof -
  define a0 where "a0 = init_acq c t s cs"
  define a1 where "a1 = early_soundcloud e c t a0"
  define a2 where "a2 = relaxed_soundcloud e c t a1"
  define a3 where "a3 = apple_primary_step e c t a2"
  define a4 where "a4 = spotify_recovery e c t a3"
  define a5 where "a5 = note_recovery_disabled c a4"
  define a6 where "a6 = apple_exact_step e c t a5"
  define a7 where "a7 = apple_broad_step e c t a6"
  define a8 where "a8 = soundcloud_step e t a7"
  define a9 where "a9 = aggregator_step e t a8"
  define a10 where "a10 = spotify_fallback_step c t a9"
  define a11 where "a11 = restore_apple_step c a10"
  have res: "acquirePreviewForTrack e c t s cs = a11"
    by (simp add: acquirePreviewForTrack_def restore_spotify_dead a0_def a1_def a2_def a3_def
        a4_def a5_def a6_def a7_def a8_def a9_def a10_def a11_def)
  have mc: "made_calls e c t s cs = drop (length cs) (calls a11)"
    by (simp add: made_calls_def res)
  have c0: "calls a0 = cs" by (simp add: a0_def init_calls)
  have f11: "\<not> truthy (v_previewUrl a11)" using nf res by simp
  have f10: "\<not> truthy (v_previewUrl a10)"
    using f11 restore_apple_keep [of a10 c] by (auto simp: a11_def)
  have f9: "\<not> truthy (v_previewUrl a9)"
    using f10 fallback_keep [of a9 c t] by (auto simp: a10_def)
  have f8: "\<not> truthy (v_previewUrl a8)"
    using f9 agg_keep [of a8 e t] by (auto simp: a9_def)
  have f7: "\<not> truthy (v_previewUrl a7)"
    using f8 sc_keep [of a7 e t] by (auto simp: a8_def)
  have f6: "\<not> truthy (v_previewUrl a6)"
    using f7 broad_keep [of a6 e c t] by (auto simp: a7_def)
  have f5: "\<not> truthy (v_previewUrl a5)"
    using f6 exact_keep [of a5 e c t] by (auto simp: a6_def)
  have f4: "\<not> truthy (v_previewUrl a4)"
    using f5 note_keep [of a4 c] by (auto simp: a5_def)
  have f3: "\<not> truthy (v_previewUrl a3)"
    using f4 recovery_keep [of a3 e c t] by (auto simp: a4_def)
  have g01: "calls_grow a0 a1" by (simp add: a1_def early_grow)
  have g02: "calls_grow a0 a2" using g01 relaxed_grow [of a1 e c t] by (auto simp: a2_def intro: calls_grow_trans)
  have g03: "calls_grow a0 a3" using g02 apple_primary_grow [of a2 e c t] by (auto simp: a3_def intro: calls_grow_trans)
  have g04: "calls_grow a0 a4" using g03 recovery_grow [of a3 e c t] by (auto simp: a4_def intro: calls_grow_trans)
  have g05: "calls_grow a0 a5" using g04 note_grow [of a4 c] by (auto simp: a5_def intro: calls_grow_trans)
  have g06: "calls_grow a0 a6" using g05 exact_grow [of a5 e c t] by (auto simp: a6_def intro: calls_grow_trans)
  have g07: "calls_grow a0 a7" using g06 broad_grow [of a6 e c t] by (auto simp: a7_def intro: calls_grow_trans)
  have g08: "calls_grow a0 a8" using g07 sc_grow [of a7 e t] by (auto simp: a8_def intro: calls_grow_trans)
  have e911: "calls a11 = calls a9"
    by (simp add: a11_def a10_def restore_apple_calls fallback_calls)
  have g911: "calls_grow a9 a11" by (simp add: calls_grow_def e911)
  have g811: "calls_grow a8 a11" using agg_grow [of a8 e t] g911 by (auto simp: a9_def intro: calls_grow_trans)
  have g711: "calls_grow a7 a11" using sc_grow [of a7 e t] g811 by (auto simp: a8_def intro: calls_grow_trans)
  have g611: "calls_grow a6 a11" using broad_grow [of a6 e c t] g711 by (auto simp: a7_def intro: calls_grow_trans)
  have g511: "calls_grow a5 a11" using exact_grow [of a5 e c t] g611 by (auto simp: a6_def intro: calls_grow_trans)
  have g411: "calls_grow a4 a11" using note_grow [of a4 c] g511 by (auto simp: a5_def intro: calls_grow_trans)
  have g311: "calls_grow a3 a11" using recovery_grow [of a3 e c t] g411 by (auto simp: a4_def intro: calls_grow_trans)
  show "AggregatorCall (primaryArtist t) (track_name t) \<in> set (made_calls e c t s cs)"
    unfolding mc
    by (rule in_made [OF g08 _ _ g911 c0, where xs = "[AggregatorCall (primaryArtist t) (track_name t)]"])
      (simp_all add: a9_def agg_call [OF f8])
  show "SoundCloudCall (primaryArtist t) (track_name t) \<in> set (made_calls e c t s cs)"
    if "scClientId e"
    unfolding mc
    by (rule in_made [OF g07 _ _ g811 c0, where xs = "[SoundCloudCall (primaryArtist t) (track_name t)]"])
      (simp_all add: a8_def sc_call [OF f7 that])
  show "ItunesCall (apple_term (hd (artists t)) (track_name t)) 1 \<in> set (made_calls e c t s cs)
           \<and> ItunesCall (hd (artists t)) 10 \<in> set (made_calls e c t s cs)"
    if nforce: "\<not> forceSoundCloudTest c" and ar: "artists t \<noteq> []" and nm: "track_name t \<noteq> []"
  proof (cases "useApplePrimary c")
    case True
    have c3: "calls a3 = calls a2 @ [ItunesCall (apple_term (hd (artists t)) (track_name t)) 1,
                    ItunesCall (hd (artists t)) 10]"
      using apple_primary_call [OF True nforce ar nm, of e a2] f3 by (simp add: a3_def)
    have x1: "ItunesCall (apple_term (hd (artists t)) (track_name t)) 1 \<in> set (drop (length cs) (calls a11))"
      by (rule in_made [OF g02 c3 _ g311 c0]) simp
    have x2: "ItunesCall (hd (artists t)) 10 \<in> set (drop (length cs) (calls a11))"
      by (rule in_made [OF g02 c3 _ g311 c0]) simp
    from x1 x2 show ?thesis unfolding mc by simp
  next
    case False
    have c6: "calls a6 = calls a5 @ [ItunesCall (apple_term (hd (artists t)) (track_name t)) 1]"
      using exact_call [OF f5 False nforce ar] by (simp add: a6_def)
    have c7: "calls a7 = calls a6 @ [ItunesCall (hd (artists t)) 10]"
      using broad_call [OF f6 False nforce ar] by (simp add: a7_def)
    have x1: "ItunesCall (apple_term (hd (artists t)) (track_name t)) 1 \<in> set (drop (length cs) (calls a11))"
      by (rule in_made [OF g05 c6 _ g611 c0]) simp
    have x2: "ItunesCall (hd (artists t)) 10 \<in> set (drop (length cs) (calls a11))"
      by (rule in_made [OF g06 c7 _ g711 c0]) simp
    from x1 x2 show ?thesis unfolding mc by simp
  qed
  show "SpotifySearchCall (hd (exact_patterns (track_name t) (hd (artistCandidates c t))))
              (hd (recovery_markets e c)) \<in> set (made_calls e c t s cs)"
    if nforce: "\<not> forceSoundCloudTest c" and na: "\<not> useApplePrimary c"
      and tok: "truthy (spotifyToken c)" and ac: "artistCandidates c t \<noteq> []"
      and rm: "recovery_markets e c \<noteq> []"
      and bud: "\<not> reached 0 (perTrackRecoveryLimit c)"
  proof -
    have a30: "a3 = a0"
      using nforce na by (simp add: a3_def a2_def a1_def early_skip relaxed_skip apple_primary_skip)
    have f0: "\<not> truthy (v_previewUrl a3)" by (rule f3)
    have pt: "perTrackAttempts a3 = 0" by (simp add: a30 a0_def init_attempts)
    from recovery_first_call [OF f0 tok na nforce ac rm pt bud]
    obtain xs where x: "calls a4 = calls a3 @ SpotifySearchCall
        (hd (exact_patterns (track_name t) (hd (artistCandidates c t)))) (hd (recovery_markets e c)) # xs"
      by (auto simp: a4_def)
    show ?thesis unfolding mc
      by (rule in_made [OF g03 x _ g411 c0]) simp
  qed
qed


lemma still_unresolved_trans:
  "still_unresolved a b \<Longrightarrow> still_unresolved b c \<Longrightarrow> still_unresolved a c"
  by (simp add: still_unresolved_def)

lemma sc_query_unresolved:
  assumes "\<not> truthy (v_previewUrl a)"
    and "sc_miss (searchSoundCloudAudio e (length (calls a)) ar nm)"
  shows "still_unresolved a (snd (sc_query e q ar nm d f1 f2 f3 a))"
  using assms
  by (auto simp add: sc_query_def call_soundcloud_def sc_miss_def still_unresolved_def
      split: sum.splits)

lemma early_unresolved:
  assumes "\<not> truthy (v_previewUrl a)" and "\<And>n ar nm. sc_miss (searchSoundCloudAudio e n ar nm)"
  shows "still_unresolved a (early_soundcloud e c t a)"
  using assms sc_query_unresolved [of a e]
  by (simp add: early_soundcloud_def still_unresolved_def)

lemma relaxed_unresolved:
  assumes nt: "\<not> truthy (v_previewUrl a)"
    and scm: "\<And>n ar nm. sc_miss (searchSoundCloudAudio e n ar nm)"
  shows "still_unresolved a (relaxed_soundcloud e c t a)"
proof (cases "\<not> truthy (v_previewUrl a) \<and> (forceSoundCloudTest c \<or> soundcloudPrimary c) \<and> scClientId e")
  case False
  then show ?thesis using nt by (auto simp: relaxed_soundcloud_def still_unresolved_def)
next
  case True
  let ?simple = "fst (simplifyName (track_name t))"
  let ?a0 = "if snd (simplifyName (track_name t))
             then a\<lparr>stats := (stats a)\<lparr>pr_suffixStrips := pr_suffixStrips (stats a) + 1\<rparr>\<rparr> else a"
  let ?r1 = "if ?simple \<noteq> [] \<and> ?simple \<noteq> track_name t
             then sc_query e (tmpl (primaryArtist t) @ '' :: '' @ ?simple)
                    (primaryArtist t) ?simple (8 / 10) False True False ?a0
             else (None, ?a0)"
  have n0: "\<not> truthy (v_previewUrl ?a0)" using nt by simp
  have u0: "still_unresolved a ?a0" using nt by (simp add: still_unresolved_def)
  have u1: "still_unresolved a (snd ?r1)"
    using sc_query_unresolved [OF n0 scm] u0
    by (auto intro: still_unresolved_trans)
  then have n1: "\<not> truthy (v_previewUrl (snd ?r1))" by (simp add: still_unresolved_def)
  have u2: "still_unresolved a (snd (sc_query e (tmpl (primaryArtist t)) (primaryArtist t) []
                            (7 / 10) False False True (snd ?r1)))"
    using sc_query_unresolved [OF n1 scm] u1 by (auto intro: still_unresolved_trans)
  have "relaxed_soundcloud e c t a = snd ?r1
      \<or> relaxed_soundcloud e c t a = snd (sc_query e (tmpl (primaryArtist t)) (primaryArtist t) []
                            (7 / 10) False False True (snd ?r1))"
    using True by (cases ?r1) (auto simp: relaxed_soundcloud_def Let_def split: option.splits)
  with u1 u2 show ?thesis by auto
qed

lemma findApple_failed:
  "failed (itunes_search e (length (calls a)) (apple_term ar nm) 1) \<Longrightarrow>
     fst (findApplePreviewUrl e ar nm a) = None"
  by (simp add: findApplePreviewUrl_def call_itunes_def failed_def split: fetched.splits)

lemma findAppleBroader_failed:
  "failed (itunes_search e (length (calls a)) ar 10) \<Longrightarrow>
     fst (findApplePreviewUrlBroader e ar nm a) = None"
  by (simp add: findApplePreviewUrlBroader_def call_itunes_def failed_def split: fetched.splits)

lemma apple_primary_unresolved:
  assumes nt: "\<not> truthy (v_previewUrl a)"
    and itm: "\<And>n q l. failed (itunes_search e n q l)"
  shows "still_unresolved a (apple_primary_step e c t a)"
proof -
  let ?ar = "hd (artists t)"
  obtain u1 a1 where f1: "findApplePreviewUrl e ?ar (track_name t) a = (u1, a1)"
    by (cases "findApplePreviewUrl e ?ar (track_name t) a")
  with findApple_failed [OF itm, where a = a and ar = ?ar and nm = "track_name t"] have un1: "u1 = None" by simp
  note d1 = findApple_eqD [OF f1]
  let ?b = "a1\<lparr>v_previewUrl := None\<rparr>"
  obtain u2 a2 where f2: "findApplePreviewUrlBroader e ?ar (track_name t) ?b = (u2, a2)"
    by (cases "findApplePreviewUrlBroader e ?ar (track_name t) ?b")
  with findAppleBroader_failed [OF itm, where a = ?b and ar = ?ar and nm = "track_name t"] have un2: "u2 = None" by simp
  note d2 = findAppleBroader_eqD [OF f2]
  show ?thesis
    using nt f1 f2 un1 un2 d1 d2
    by (simp add: apple_primary_step_def Let_def still_unresolved_def truthy_def)
qed

lemma sc_unresolved:
  assumes "\<not> truthy (v_previewUrl a)" and "\<And>n ar nm. sc_miss (searchSoundCloudAudio e n ar nm)"
  shows "still_unresolved a (soundcloud_step e t a)"
  using assms sc_query_unresolved [of a e]
  by (simp add: soundcloud_step_def still_unresolved_def)

lemma agg_unresolved:
  assumes "\<not> truthy (v_previewUrl a)"
    and "\<And>n ar nm. agg_miss (findAlternativeAudioSource e n ar nm)"
  shows "still_unresolved a (aggregator_step e t a)"
  using assms(1) assms(2) [of "length (calls a)" "primaryArtist t" "track_name t"]
  by (auto simp add: aggregator_step_def call_aggregator_def agg_miss_def still_unresolved_def
      split: sum.splits option.splits)

lemma patterns_loop_unresolved:
  assumes "\<And>n p m. failed (spotify_search e n p m)"
  shows "v_previewUrl (snd (patterns_loop e c t m cand rl nm ps a)) = v_previewUrl a
       \<and> v_audioSource (snd (patterns_loop e c t m cand rl nm ps a)) = v_audioSource a
       \<and> originalApplePreview (snd (patterns_loop e c t m cand rl nm ps a)) = originalApplePreview a
       \<and> recovered (snd (patterns_loop e c t m cand rl nm ps a)) = recovered a"
proof (induction ps arbitrary: a)
  case Nil
  show ?case by simp
next
  case (Cons p ps)
  show ?case
    using Cons.IH [of "a\<lparr>stats := count_query rl (stats a),
      calls := calls a @ [SpotifySearchCall p m],
      perTrackAttempts := Suc (perTrackAttempts a)\<rparr>"] assms [of "length (calls a)" p m]
    by (auto simp: call_spotify_def failed_def split: fetched.splits list.splits)
qed

lemma cand_loop_unresolved:
  assumes sp: "\<And>n p m. failed (spotify_search e n p m)"
  shows "v_previewUrl (snd (cand_loop e c t m cands a)) = v_previewUrl a
       \<and> v_audioSource (snd (cand_loop e c t m cands a)) = v_audioSource a
       \<and> originalApplePreview (snd (cand_loop e c t m cands a)) = originalApplePreview a
       \<and> recovered (snd (cand_loop e c t m cands a)) = recovered a"
proof (induction cands arbitrary: a)
  case Nil
  show ?case by simp
next
  case (Cons cand cands)
  obtain r1 a1 where p1: "patterns_loop e c t m cand False (track_name t)
             (exact_patterns (track_name t) cand) a = (r1, a1)"
    by (cases "patterns_loop e c t m cand False (track_name t)
             (exact_patterns (track_name t) cand) a")
  with patterns_loop_unresolved [OF sp, of c t m cand False "track_name t"
      "exact_patterns (track_name t) cand" a]
  have g1: "v_previewUrl a1 = v_previewUrl a \<and> v_audioSource a1 = v_audioSource a
       \<and> originalApplePreview a1 = originalApplePreview a \<and> recovered a1 = recovered a"
    by simp
  let ?simple = "fst (simplifyName (track_name t))"
  let ?a2 = "if snd (simplifyName (track_name t))
             then a1\<lparr>stats := (stats a1)\<lparr>pr_suffixStrips := pr_suffixStrips (stats a1) + 1\<rparr>\<rparr>
             else a1"
  have g2: "v_previewUrl ?a2 = v_previewUrl a \<and> v_audioSource ?a2 = v_audioSource a
       \<and> originalApplePreview ?a2 = originalApplePreview a \<and> recovered ?a2 = recovered a"
    using g1 by simp
  obtain r3 a3 where p3: "patterns_loop e c t m cand True ?simple
             (relaxed_patterns ?simple cand) ?a2 = (r3, a3)"
    by (cases "patterns_loop e c t m cand True ?simple (relaxed_patterns ?simple cand) ?a2")
  with patterns_loop_unresolved [OF sp, of c t m cand True ?simple
      "relaxed_patterns ?simple cand" ?a2] g2
  have g3: "v_previewUrl a3 = v_previewUrl a \<and> v_audioSource a3 = v_audioSource a
       \<and> originalApplePreview a3 = originalApplePreview a \<and> recovered a3 = recovered a"
    by simp
  from Cons.IH [of ?a2] g2
  have i2: "v_previewUrl (snd (cand_loop e c t m cands ?a2)) = v_previewUrl a
       \<and> v_audioSource (snd (cand_loop e c t m cands ?a2)) = v_audioSource a
       \<and> originalApplePreview (snd (cand_loop e c t m cands ?a2)) = originalApplePreview a
       \<and> recovered (snd (cand_loop e c t m cands ?a2)) = recovered a"
    by simp
  from Cons.IH [of a3] g3
  have i3: "v_previewUrl (snd (cand_loop e c t m cands a3)) = v_previewUrl a
       \<and> v_audioSource (snd (cand_loop e c t m cands a3)) = v_audioSource a
       \<and> originalApplePreview (snd (cand_loop e c t m cands a3)) = originalApplePreview a
       \<and> recovered (snd (cand_loop e c t m cands a3)) = recovered a"
    by simp
  from Cons.IH [of a1] g1
  have i1: "v_previewUrl (snd (cand_loop e c t m cands a1)) = v_previewUrl a
       \<and> v_audioSource (snd (cand_loop e c t m cands a1)) = v_audioSource a
       \<and> originalApplePreview (snd (cand_loop e c t m cands a1)) = originalApplePreview a
       \<and> recovered (snd (cand_loop e c t m cands a1)) = recovered a"
    by simp
  show ?case
    using p1 p3 g1 g3 i1 i2 i3
    by (cases r1; cases r3) (auto simp: Let_def)
qed

lemma market_loop_unresolved:
  assumes sp: "\<And>n p m. failed (spotify_search e n p m)"
  shows "v_previewUrl (snd (market_loop e c t cands ms a)) = v_previewUrl a
       \<and> v_audioSource (snd (market_loop e c t cands ms a)) = v_audioSource a
       \<and> originalApplePreview (snd (market_loop e c t cands ms a)) = originalApplePreview a
       \<and> recovered (snd (market_loop e c t cands ms a)) = recovered a"
proof (induction ms arbitrary: a)
  case Nil
  show ?case by simp
next
  case (Cons m ms)
  let ?a0 = "if m \<in> set (pr_marketsTried (stats a)) then a
             else a\<lparr>stats := (stats a)\<lparr>pr_marketsTried := pr_marketsTried (stats a) @ [m]\<rparr>\<rparr>"
  obtain r1 a1 where p1: "cand_loop e c t m cands ?a0 = (r1, a1)"
    by (cases "cand_loop e c t m cands ?a0")
  with cand_loop_unresolved [OF sp, of c t m cands ?a0]
  have g1: "v_previewUrl a1 = v_previewUrl a \<and> v_audioSource a1 = v_audioSource a
       \<and> originalApplePreview a1 = originalApplePreview a \<and> recovered a1 = recovered a"
    by simp
  from Cons.IH [of a1] g1
  have i1: "v_previewUrl (snd (market_loop e c t cands ms a1)) = v_previewUrl a
       \<and> v_audioSource (snd (market_loop e c t cands ms a1)) = v_audioSource a
       \<and> originalApplePreview (snd (market_loop e c t cands ms a1)) = originalApplePreview a
       \<and> recovered (snd (market_loop e c t cands ms a1)) = recovered a"
    by simp
  show ?case
    using p1 g1 i1 by (cases r1) (auto simp: Let_def)
qed

lemma recovery_unresolved:
  assumes nt: "\<not> truthy (v_previewUrl a)"
    and sp: "\<And>n p m. failed (spotify_search e n p m)"
  shows "still_unresolved a (spotify_recovery e c t a)"
proof (cases "\<not> truthy (v_previewUrl a) \<and> truthy (spotifyToken c) \<and> \<not> useApplePrimary c
         \<and> \<not> forceSoundCloudTest c \<and> \<not> soundcloudPrimary c")
  case False
  then show ?thesis using nt by (auto simp: spotify_recovery_def still_unresolved_def)
next
  case True
  obtain r1 a1 where p1: "market_loop e c t (artistCandidates c t) (recovery_markets e c)
                (a\<lparr>recovered := None\<rparr>) = (r1, a1)"
    by (cases "market_loop e c t (artistCandidates c t) (recovery_markets e c) (a\<lparr>recovered := None\<rparr>)")
  with market_loop_unresolved [OF sp, of c t "artistCandidates c t" "recovery_markets e c"
      "a\<lparr>recovered := None\<rparr>"]
  have "v_previewUrl a1 = v_previewUrl a \<and> v_audioSource a1 = v_audioSource a
       \<and> originalApplePreview a1 = originalApplePreview a \<and> recovered a1 = None"
    by simp
  with True p1 nt show ?thesis
    by (cases r1) (auto simp: spotify_recovery_def still_unresolved_def)
qed

lemma note_unresolved:
  "\<not> truthy (v_previewUrl a) \<Longrightarrow> still_unresolved a (note_recovery_disabled c a)"
  by (simp add: note_recovery_disabled_def still_unresolved_def)

lemma exact_unresolved:
  assumes nt: "\<not> truthy (v_previewUrl a)"
    and itm: "\<And>n q l. failed (itunes_search e n q l)"
  shows "still_unresolved a (apple_exact_step e c t a)"
proof (cases "artists t")
  case Nil
  then show ?thesis using nt by (simp add: apple_exact_step_def still_unresolved_def)
next
  case (Cons ar rest)
  obtain u1 a1 where f1: "findApplePreviewUrl e ar (track_name t) a = (u1, a1)"
    by (cases "findApplePreviewUrl e ar (track_name t) a")
  with findApple_failed [OF itm, where a = a and ar = ar and nm = "track_name t"]
  have un1: "u1 = None" by simp
  note d1 = findApple_eqD [OF f1]
  show ?thesis
    using nt f1 un1 d1 Cons
    by (simp add: apple_exact_step_def still_unresolved_def truthy_def)
qed

lemma broad_unresolved:
  assumes nt: "\<not> truthy (v_previewUrl a)"
    and itm: "\<And>n q l. failed (itunes_search e n q l)"
  shows "still_unresolved a (apple_broad_step e c t a)"
proof (cases "artists t")
  case Nil
  then show ?thesis using nt by (simp add: apple_broad_step_def still_unresolved_def)
next
  case (Cons ar rest)
  obtain u1 a1 where f1: "findApplePreviewUrlBroader e ar (track_name t) a = (u1, a1)"
    by (cases "findApplePreviewUrlBroader e ar (track_name t) a")
  with findAppleBroader_failed [OF itm, where a = a and ar = ar and nm = "track_name t"]
  have un1: "u1 = None" by simp
  note d1 = findAppleBroader_eqD [OF f1]
  show ?thesis
    using nt f1 un1 d1 Cons
    by (simp add: apple_broad_step_def still_unresolved_def truthy_def)
qed

text \<open>
  A resolution that starts without a preview (none known, or the known one suppressed)
  and to which every provider yields nothing ends with the restored Apple preview when
  the track had one, and with no preview and no source otherwise.
\<close>

lemma acquire_all_miss:
  assumes n0: "\<not> truthy (v_previewUrl (init_acq c t s cs))"
    and scm: "\<And>n ar nm. sc_miss (searchSoundCloudAudio e n ar nm)"
    and itm: "\<And>n q l. \<not> forceSoundCloudTest c \<Longrightarrow> failed (itunes_search e n q l)"
    and sp: "\<And>n p m. \<not> forceSoundCloudTest c \<Longrightarrow> failed (spotify_search e n p m)"
    and agm: "\<And>n ar nm. agg_miss (findAlternativeAudioSource e n ar nm)"
  shows "if forceSoundCloudTest c \<and> apple_sourced t
         then v_previewUrl (acquirePreviewForTrack e c t s cs) = preview_url t
            \<and> v_audioSource (acquirePreviewForTrack e c t s cs) = Some ''apple''
         else \<not> truthy (v_previewUrl (acquirePreviewForTrack e c t s cs))
            \<and> v_audioSource (acquirePreviewForTrack e c t s cs) = None"
proof -
  define a0 where "a0 = init_acq c t s cs"
  define a1 where "a1 = early_soundcloud e c t a0"
  define a2 where "a2 = relaxed_soundcloud e c t a1"
  define a3 where "a3 = apple_primary_step e c t a2"
  define a4 where "a4 = spotify_recovery e c t a3"
  define a5 where "a5 = note_recovery_disabled c a4"
  define a6 where "a6 = apple_exact_step e c t a5"
  define a7 where "a7 = apple_broad_step e c t a6"
  define a8 where "a8 = soundcloud_step e t a7"
  define a9 where "a9 = aggregator_step e t a8"
  define a10 where "a10 = spotify_fallback_step c t a9"
  define a11 where "a11 = restore_apple_step c a10"
  have res: "acquirePreviewForTrack e c t s cs = a11"
    by (simp add: acquirePreviewForTrack_def restore_spotify_dead a0_def a1_def a2_def a3_def
        a4_def a5_def a6_def a7_def a8_def a9_def a10_def a11_def)
  have f0: "\<not> truthy (v_previewUrl a0)" using n0 by (simp add: a0_def)
  have src0: "v_audioSource a0 = None"
    using n0 by (auto simp: a0_def init_acq_def Let_def split: if_splits)
  have oap0: "originalApplePreview a0 = (if apple_sourced t then preview_url t else None)"
    by (simp add: a0_def init_acq_def Let_def apple_sourced_def)
  have sup: "\<not> forceSoundCloudTest c \<Longrightarrow> \<not> truthy (preview_url t)"
    using n0 by (auto simp: init_acq_def Let_def forceSoundCloudTest_def soundcloudPrimary_def
        split: if_splits)
  have u1: "still_unresolved a0 a1" unfolding a1_def by (rule early_unresolved [OF f0 scm])
  then have f1: "\<not> truthy (v_previewUrl a1)" by (simp add: still_unresolved_def)
  have u2: "still_unresolved a0 a2"
    unfolding a2_def by (rule still_unresolved_trans [OF u1 relaxed_unresolved [OF f1 scm]])
  then have f2: "\<not> truthy (v_previewUrl a2)" by (simp add: still_unresolved_def)
  have r2: "still_unresolved a2 a2" using f2 by (simp add: still_unresolved_def)
  have "still_unresolved a2 a3"
  proof (cases "forceSoundCloudTest c")
    case True
    then show ?thesis using r2 by (simp add: a3_def apple_primary_skip)
  next
    case False
    show ?thesis unfolding a3_def by (rule apple_primary_unresolved [OF f2 itm [OF False]])
  qed
  with u2 have u3: "still_unresolved a0 a3" by (rule still_unresolved_trans)
  then have f3: "\<not> truthy (v_previewUrl a3)" by (simp add: still_unresolved_def)
  have r3: "still_unresolved a3 a3" using f3 by (simp add: still_unresolved_def)
  have "still_unresolved a3 a4"
  proof (cases "forceSoundCloudTest c")
    case True
    then show ?thesis using r3 by (simp add: a4_def recovery_skip)
  next
    case False
    show ?thesis unfolding a4_def by (rule recovery_unresolved [OF f3 sp [OF False]])
  qed
  with u3 have u4: "still_unresolved a0 a4" by (rule still_unresolved_trans)
  then have f4: "\<not> truthy (v_previewUrl a4)" by (simp add: still_unresolved_def)
  have u5: "still_unresolved a0 a5"
    unfolding a5_def by (rule still_unresolved_trans [OF u4 note_unresolved [OF f4]])
  then have f5: "\<not> truthy (v_previewUrl a5)" by (simp add: still_unresolved_def)
  have r5: "still_unresolved a5 a5" using f5 by (simp add: still_unresolved_def)
  have "still_unresolved a5 a6"
  proof (cases "forceSoundCloudTest c")
    case True
    then show ?thesis using r5 by (simp add: a6_def exact_skip)
  next
    case False
    show ?thesis unfolding a6_def by (rule exact_unresolved [OF f5 itm [OF False]])
  qed
  with u5 have u6: "still_unresolved a0 a6" by (rule still_unresolved_trans)
  then have f6: "\<not> truthy (v_previewUrl a6)" by (simp add: still_unresolved_def)
  have r6: "still_unresolved a6 a6" using f6 by (simp add: still_unresolved_def)
  have "still_unresolved a6 a7"
  proof (cases "forceSoundCloudTest c")
    case True
    then show ?thesis using r6 by (simp add: a7_def broad_skip)
  next
    case False
    show ?thesis unfolding a7_def by (rule broad_unresolved [OF f6 itm [OF False]])
  qed
  with u6 have u7: "still_unresolved a0 a7" by (rule still_unresolved_trans)
  then have f7: "\<not> truthy (v_previewUrl a7)" by (simp add: still_unresolved_def)
  have u8: "still_unresolved a0 a8"
    unfolding a8_def by (rule still_unresolved_trans [OF u7 sc_unresolved [OF f7 scm]])
  then have f8: "\<not> truthy (v_previewUrl a8)" by (simp add: still_unresolved_def)
  have u9: "still_unresolved a0 a9"
    unfolding a9_def by (rule still_unresolved_trans [OF u8 agg_unresolved [OF f8 agm]])
  have e10: "a10 = a9"
    using sup by (auto simp: a10_def spotify_fallback_step_def)
  show ?thesis
  proof (cases "forceSoundCloudTest c \<and> apple_sourced t")
    case True
    then have "truthy (originalApplePreview a9)"
      using u9 oap0 by (simp add: still_unresolved_def apple_sourced_def)
    then show ?thesis
      using True u9 oap0 unfolding res a11_def e10
      by (simp add: restore_apple_step_def still_unresolved_def)
  next
    case False
    have "\<not> ((soundcloudPrimary c \<or> forceSoundCloudTest c) \<and> truthy (originalApplePreview a9))"
    proof (cases "forceSoundCloudTest c")
      case True
      with False have "\<not> apple_sourced t" by simp
      then show ?thesis using u9 oap0 by (simp add: still_unresolved_def truthy_def)
    next
      case f: False
      then show ?thesis by (simp add: forceSoundCloudTest_def)
    qed
    then have "a11 = a9" unfolding a11_def e10 by (auto simp: restore_apple_step_def)
    then show ?thesis using False u9 src0 unfolding res by (simp add: still_unresolved_def)
  qed
qed

lemma recovery_limited:
  assumes nt: "\<not> truthy (v_previewUrl a)" and tok: "truthy (spotifyToken c)"
    and na: "\<not> useApplePrimary c" and nf: "\<not> forceSoundCloudTest c"
    and ac: "artistCandidates c t \<noteq> []" and rm: "recovery_markets e c \<noteq> []"
    and bud: "reached (perTrackAttempts a) (perTrackRecoveryLimit c)"
  shows "calls (spotify_recovery e c t a) = calls a
       \<and> previewRecoveryLimited (stats (spotify_recovery e c t a))
       \<and> v_previewUrl (spotify_recovery e c t a) = v_previewUrl a"
proof -
  obtain cand cands where cs: "artistCandidates c t = cand # cands"
    using ac by (cases "artistCandidates c t") auto
  obtain m ms where mk: "recovery_markets e c = m # ms"
    using rm by (cases "recovery_markets e c") auto
  have sp: "\<not> soundcloudPrimary c" using nf by (simp add: forceSoundCloudTest_def)
  define a1 where "a1 = (if m \<in> set (pr_marketsTried (stats (a\<lparr>recovered := None\<rparr>)))
             then a\<lparr>recovered := None\<rparr>
             else a\<lparr>recovered := None,
                    stats := (stats (a\<lparr>recovered := None\<rparr>))\<lparr>pr_marketsTried :=
                       pr_marketsTried (stats (a\<lparr>recovered := None\<rparr>)) @ [m]\<rparr>\<rparr>)"
  define a2 where "a2 = a1\<lparr>stats := (stats a1)\<lparr>previewRecoveryLimited := True\<rparr>\<rparr>"
  have b1: "reached (perTrackAttempts a1) (perTrackRecoveryLimit c)"
    using bud by (simp add: a1_def)
  have r1: "recovered a1 = None" by (simp add: a1_def)
  have k1: "calls a1 = calls a" "v_previewUrl a1 = v_previewUrl a" by (simp_all add: a1_def)
  have b2: "reached (perTrackAttempts a2) (perTrackRecoveryLimit c)" "recovered a2 = None"
    using b1 r1 by (simp_all add: a2_def)
  have pl: "patterns_loop e c t m cand False (track_name t) (exact_patterns (track_name t) cand) a1
      = (None, a2)"
    using b1 by (simp add: exact_patterns_def a2_def)
  have cl: "cand_loop e c t m (cand # cands) a1 = (None, a2)"
    using b2 by (simp add: pl del: patterns_loop.simps)
  have ml: "market_loop e c t (cand # cands) (m # ms) (a\<lparr>recovered := None\<rparr>) = (None, a2)"
    using b2 cl unfolding a1_def by (simp add: Let_def del: cand_loop.simps)
  have "spotify_recovery e c t a = a2"
    using nt tok na nf sp b2
    by (simp add: spotify_recovery_def cs mk ml del: market_loop.simps)
  then show ?thesis using k1 by (simp add: a2_def)
qed

lemma sc_query_limited:
  "previewRecoveryLimited (stats (snd (sc_query e q ar nm d f1 f2 f3 a)))
     = previewRecoveryLimited (stats a)"
  by (simp add: sc_query_def call_soundcloud_def take_soundcloud_def note_sc_query_def Let_def
      split: sum.splits)

lemma tail_limited:
  assumes "previewRecoveryLimited (stats a)"
  shows "previewRecoveryLimited (stats
     (restore_spotify_step c (restore_apple_step c (spotify_fallback_step c t
        (aggregator_step e t (soundcloud_step e t (apple_broad_step e c t
           (apple_exact_step e c t (note_recovery_disabled c a)))))))))"
proof -
  define a5 where "a5 = note_recovery_disabled c a"
  define a6 where "a6 = apple_exact_step e c t a5"
  define a7 where "a7 = apple_broad_step e c t a6"
  define a8 where "a8 = soundcloud_step e t a7"
  define a9 where "a9 = aggregator_step e t a8"
  have l5: "previewRecoveryLimited (stats a5)"
    using assms by (simp add: a5_def note_recovery_disabled_def)
  have l6: "previewRecoveryLimited (stats a6)"
    using l5
    by (auto simp: a6_def apple_exact_step_def findApplePreviewUrl_def call_itunes_def
        split: list.splits fetched.splits)
  have l7: "previewRecoveryLimited (stats a7)"
    using l6
    by (auto simp: a7_def apple_broad_step_def findApplePreviewUrlBroader_def call_itunes_def
        split: list.splits fetched.splits)
  have l8: "previewRecoveryLimited (stats a8)"
    using l7 by (simp add: a8_def soundcloud_step_def sc_query_limited)
  have l9: "previewRecoveryLimited (stats a9)"
    using l8
    by (auto simp: a9_def aggregator_step_def call_aggregator_def
        split: sum.splits option.splits)
  have "previewRecoveryLimited (stats (restore_spotify_step c (restore_apple_step c
      (spotify_fallback_step c t a9))))"
    using l9
    by (simp add: restore_spotify_dead restore_apple_step_def spotify_fallback_step_def)
  then show ?thesis by (simp add: a9_def a8_def a7_def a6_def a5_def)
qed

lemma acquire_budget_used_up:
  assumes nfv: "\<not> truthy (v_previewUrl (acquirePreviewForTrack e c t s cs))"
    and tok: "truthy (spotifyToken c)"
    and na: "\<not> useApplePrimary c" and nf: "\<not> forceSoundCloudTest c"
    and ac: "artistCandidates c t \<noteq> []" and rm: "recovery_markets e c \<noteq> []"
    and bud: "reached 0 (perTrackRecoveryLimit c)"
  shows "previewRecoveryLimited (stats (acquirePreviewForTrack e c t s cs))"
proof -
  define a0 where "a0 = init_acq c t s cs"
  define a4 where "a4 = spotify_recovery e c t a0"
  have res: "acquirePreviewForTrack e c t s cs
      = restore_spotify_step c (restore_apple_step c (spotify_fallback_step c t
        (aggregator_step e t (soundcloud_step e t (apple_broad_step e c t
           (apple_exact_step e c t (note_recovery_disabled c a4)))))))"
    using na nf
    by (simp add: acquirePreviewForTrack_def a0_def a4_def early_skip relaxed_skip
        apple_primary_skip)
  have f0: "\<not> truthy (v_previewUrl a0)"
  proof
    assume "truthy (v_previewUrl a0)"
    from known_preview_kept [OF this [unfolded a0_def], of e] this nfv
    show False by (simp add: same_choice_def a0_def)
  qed
  have pt: "reached (perTrackAttempts a0) (perTrackRecoveryLimit c)"
    using bud by (simp add: a0_def init_attempts)
  from recovery_limited [OF f0 tok na nf ac rm pt]
  have c4: "calls a4 = calls a0" and l4: "previewRecoveryLimited (stats a4)"
    by (simp_all add: a4_def)
  show ?thesis unfolding res by (rule tail_limited [OF l4])
qed


lemma lower_apple_primary: "toLowerCase ''apple_primary'' = ''apple_primary''"
  by (simp add: toLowerCase_def lower_char_def)

lemma dup_cfg: "cfg_of (dup_env ms) dup_request = default_cfg (Some ''tok'')"
  by (simp add: cfg_of_def dup_request_def ex_request_def dup_env_def dead_env_def truthy_def
      lower_apple_primary default_cfg_def)

lemma dup_fetched:
  "fetched (dup_env ms) dup_request
   = \<lparr>f_tracks = [ex_track ''x'' (Some ''u''),
                  (ex_track ''x'' (Some ''u''))\<lparr>album := Some ''Album'', isRecentRelease := True\<rparr>],
      f_reasons = [], f_stats = initial_stats\<lparr>methods_top := 1, methods_recent := 1, initialTracks := 2\<rparr>,
      f_calls = []\<rparr>"
  unfolding fetched_def dup_cfg
  by (simp add: fetch_tracks_def default_cfg_def top_tracks_step_def recent_albums_step_def
      recent_album_def Let_def truthy_def dup_request_def ex_request_def dup_env_def dead_env_def
      ex_track_def)

lemma dup_known:
  "isRecentRelease t = b \<Longrightarrow> truthy (v_previewUrl (init_acq (default_cfg tok)
      ((ex_track ''x'' (Some ''u''))\<lparr>album := al, isRecentRelease := b\<rparr>) s cs))"
  by (simp add: init_acq_def default_cfg_def ex_track_def truthy_def Let_def apple_host_def
      toLowerCase_def lower_char_def startsWith_def)


lemma init_known_url:
  "truthy (v_previewUrl (init_acq c t s cs)) \<Longrightarrow> v_previewUrl (init_acq c t s cs) = preview_url t"
  by (auto simp: init_acq_def Let_def truthy_def split: if_splits)

lemma analyze_track_known:
  assumes k: "truthy (v_previewUrl (init_acq c t (h_stats h) (h_calls h)))"
    and ex: "analyzeAudioWithEssentia e (length (h_calls h)) (the (preview_url t)) = Inr f"
  shows "\<exists>h'. analyze_track e c rnd t h = (None, h')
       \<and> map trackId (trackProfiles h') = map trackId (trackProfiles h) @ [track_id t]
       \<and> map tp_isRecentRelease (trackProfiles h')
           = map tp_isRecentRelease (trackProfiles h) @ [isRecentRelease t]
       \<and> h_calls h' = h_calls h @ [EssentiaCall (the (preview_url t))]
       \<and> round1Success h' = (if rnd = 1 then round1Success h + 1 else round1Success h)
       \<and> failureReasons h' = failureReasons h \<and> warnings h' = warnings h"
proof -
  let ?a = "acquirePreviewForTrack e c t (h_stats h) (h_calls h)"
  from known_preview_kept [OF k, of e] init_known_url [OF k]
  have u: "v_previewUrl ?a = preview_url t" and cl: "calls ?a = h_calls h"
    by (simp_all add: same_choice_def init_calls)
  from k u init_known_url [OF k] have tr: "truthy (v_previewUrl ?a)" by simp
  show ?thesis
    using u cl tr ex
    by (simp add: analyze_track_def Let_def make_profile_def)
qed

lemma round_loop_known:
  assumes k: "\<And>t s cs. t \<in> set ts \<Longrightarrow> truthy (v_previewUrl (init_acq c t s cs))"
    and ex: "\<And>n u. \<exists>f. analyzeAudioWithEssentia e n u = Inr f"
  shows "map trackId (trackProfiles (round_loop e c rnd ts h))
           = map trackId (trackProfiles h) @ map track_id ts
       \<and> map tp_isRecentRelease (trackProfiles (round_loop e c rnd ts h))
           = map tp_isRecentRelease (trackProfiles h) @ map isRecentRelease ts
       \<and> round1Success (round_loop e c rnd ts h)
           = (if rnd = 1 then round1Success h + length ts else round1Success h)
       \<and> failureReasons (round_loop e c rnd ts h) = failureReasons h
       \<and> warnings (round_loop e c rnd ts h) = warnings h"
  using k
proof (induction ts arbitrary: h)
  case Nil
  show ?case by simp
next
  case (Cons t ts)
  have kt: "truthy (v_previewUrl (init_acq c t (h_stats h) (h_calls h)))"
    using Cons.prems by simp
  from ex obtain f
    where f: "analyzeAudioWithEssentia e (length (h_calls h)) (the (preview_url t)) = Inr f"
    by blast
  from analyze_track_known [OF kt f, where rnd = rnd]
  obtain h1 where a: "analyze_track e c rnd t h = (None, h1)"
    and p: "map trackId (trackProfiles h1) = map trackId (trackProfiles h) @ [track_id t]"
    and q: "map tp_isRecentRelease (trackProfiles h1)
           = map tp_isRecentRelease (trackProfiles h) @ [isRecentRelease t]"
    and r: "round1Success h1 = (if rnd = 1 then round1Success h + 1 else round1Success h)"
    and fr: "failureReasons h1 = failureReasons h" and w: "warnings h1 = warnings h"
    by blast
  have ih: "map trackId (trackProfiles (round_loop e c rnd ts h1))
           = map trackId (trackProfiles h1) @ map track_id ts
       \<and> map tp_isRecentRelease (trackProfiles (round_loop e c rnd ts h1))
           = map tp_isRecentRelease (trackProfiles h1) @ map isRecentRelease ts
       \<and> round1Success (round_loop e c rnd ts h1)
           = (if rnd = 1 then round1Success h1 + length ts else round1Success h1)
       \<and> failureReasons (round_loop e c rnd ts h1) = failureReasons h1
       \<and> warnings (round_loop e c rnd ts h1) = warnings h1"
    using Cons.IH [of h1] Cons.prems by simp
  have rl: "round_loop e c rnd (t # ts) h = round_loop e c rnd ts h1"
    using a by simp
  show ?case unfolding rl using ih p q r fr w by simp
qed

lemma dup_round1:
  "map trackId (trackProfiles (round1 (dup_env ms) (default_cfg (Some ''tok''))
      (f_tracks (fetched (dup_env ms) dup_request)) (initial_hstate (fetched (dup_env ms) dup_request))))
     = [''x'', ''x'']
   \<and> map tp_isRecentRelease (trackProfiles (round1 (dup_env ms) (default_cfg (Some ''tok''))
      (f_tracks (fetched (dup_env ms) dup_request)) (initial_hstate (fetched (dup_env ms) dup_request))))
     = [False, True]
   \<and> round1Success (round1 (dup_env ms) (default_cfg (Some ''tok''))
      (f_tracks (fetched (dup_env ms) dup_request)) (initial_hstate (fetched (dup_env ms) dup_request)))
     = 2
   \<and> round1Tracks (default_cfg (Some ''tok'')) (f_tracks (fetched (dup_env ms) dup_request))
     = [ex_track ''x'' (Some ''u''),
        (ex_track ''x'' (Some ''u''))\<lparr>album := Some ''Album'', isRecentRelease := True\<rparr>]"
proof -
  let ?c = "default_cfg (Some ''tok'')"
  let ?t1 = "ex_track ''x'' (Some ''u'')"
  let ?t2 = "(ex_track ''x'' (Some ''u''))\<lparr>album := Some ''Album'', isRecentRelease := True\<rparr>"
  have r1t: "round1Tracks ?c (f_tracks (fetched (dup_env ms) dup_request)) = [?t1, ?t2]"
    by (simp add: dup_fetched round1Tracks_def topTracks_def recentTracks_def default_cfg_def
        ex_track_def)
  have k1: "truthy (v_previewUrl (init_acq ?c ?t1 s cs))" for s cs
    using dup_known [of ?t1 False "Some ''tok''" None s cs] by (simp add: ex_track_def)
  have k2: "truthy (v_previewUrl (init_acq ?c ?t2 s cs))" for s cs
    using dup_known [of ?t2 True "Some ''tok''" "Some ''Album''" s cs] by simp
  have k: "t \<in> set [?t1, ?t2] \<Longrightarrow> truthy (v_previewUrl (init_acq ?c t s cs))" for t s cs
    using k1 k2 by auto
  have es: "\<exists>f. analyzeAudioWithEssentia (dup_env ms) n u = Inr f" for n u
    by (simp add: dup_env_def dead_env_def)
  show ?thesis
    unfolding round1_def r1t
    using round_loop_known [of "[?t1, ?t2]" ?c "dup_env ms" 1, OF k es]
    by (simp add: initial_hstate_def ex_track_def)
qed


lemma dup_rounds:
  "map trackId (trackProfiles (snd (handler_rounds (dup_env ms) dup_request))) = [''x'', ''x'']
   \<and> map tp_isRecentRelease (trackProfiles (snd (handler_rounds (dup_env ms) dup_request)))
       = [False, True]"
proof -
  have r2: "round2Tracks (f_tracks (fetched (dup_env ms) dup_request)) = []"
    by (simp add: dup_fetched round2Tracks_def topTracks_def recentTracks_def ex_track_def)
  show ?thesis
    unfolding handler_rounds_def dup_cfg run_rounds_def r2
    using dup_round1 by simp
qed

text \<open>
  C10. Within one invocation of the handler the returned and the persisted
  \<^verbatim>\<open>trackMatrix\<close> can hold two entries with the same \<^verbatim>\<open>trackId\<close>. In the run below
  Spotify lists the track \<open>x\<close> among the artist's top tracks and again on an album
  of the current year; the album copy gets the recent-release flag, the list is the plain
  concatenation, round 1 takes one copy in the top slice and the other in the recent
  slice, both are resolved and analysed, and both profiles are returned and upserted.
\<close>

theorem duplicate_track_analyzed_twice:
  "map trackId (the (res_trackMatrix (fst (analyze_artist (dup_env 1000) dup_request []))))
     = [''x'', ''x'']
   \<and> map tp_isRecentRelease (the (res_trackMatrix (fst (analyze_artist (dup_env 1000) dup_request []))))
     = [False, True]
   \<and> map (\<lambda>d. map trackId (agp_trackMatrix d)) (snd (analyze_artist (dup_env 1000) dup_request []))
     = [[''x'', ''x'']]
   \<and> map track_id (f_tracks (fetched (dup_env 1000) dup_request)) = [''x'', ''x'']"
proof -
  obtain ran2 h where hr: "handler_rounds (dup_env 1000) dup_request = (ran2, h)"
    by (cases "handler_rounds (dup_env 1000) dup_request")
  with dup_rounds [of 1000] have p: "map trackId (trackProfiles h) = [''x'', ''x'']"
    and q: "map tp_isRecentRelease (trackProfiles h) = [False, True]" by simp_all
  from p have ne: "trackProfiles h \<noteq> []" by auto
  have tr: "truthy (req_artistName dup_request)"
    by (simp add: dup_request_def ex_request_def truthy_def)
  have ft: "f_tracks (fetched (dup_env 1000) dup_request) \<noteq> []" by (simp add: dup_fetched)
  have db: "dbConnected (dup_env 1000) \<and> \<not> persistThrows (dup_env 1000)"
    by (simp add: dup_env_def dead_env_def)
  have "fst (analyze_artist (dup_env 1000) dup_request [])
      = base_response\<lparr>res_round2 := ran2, res_failureReasons := failureReasons h,
          res_stats := Some (h_stats h), res_calls := h_calls h, res_success := True,
          res_trackMatrix := Some (trackProfiles h),
          res_genreMapping := Some (buildGenreMapping (trackProfiles h)
             (c_artistName (cfg_of (dup_env 1000) dup_request)) [])\<rparr>"
    using tr ft ne hr
    by (simp add: analyze_artist_def Let_def dup_request_def ex_request_def)
  moreover have "snd (analyze_artist (dup_env 1000) dup_request [])
      = [agp_fields (c_artistName (cfg_of (dup_env 1000) dup_request)) (Some ''sp'') (clock (dup_env 1000))
           (trackProfiles h) (buildGenreMapping (trackProfiles h)
             (c_artistName (cfg_of (dup_env 1000) dup_request)) [])]"
    using tr ft ne hr db
    by (simp add: analyze_artist_def Let_def dup_request_def ex_request_def persist_profile_def)
  ultimately show ?thesis
    using p q by (simp add: agp_fields_def dup_fetched ex_track_def)
qed


lemma round1Tracks_nonempty:
  assumes "\<not> c_fastMode c" and "ts \<noteq> []"
  shows "round1Tracks c ts \<noteq> []"
proof (cases "topTracks ts = []")
  case False
  then show ?thesis using assms by (simp add: round1Tracks_def)
next
  case True
  from assms(2) obtain t where t: "t \<in> set ts" by (cases ts) auto
  with True have "isRecentRelease t" by (auto simp: topTracks_def filter_empty_conv)
  with t have "recentTracks ts \<noteq> []" by (auto simp: recentTracks_def filter_empty_conv)
  then show ?thesis using assms by (simp add: round1Tracks_def)
qed

lemma res_round2_rounds:
  assumes "truthy (req_artistName r)" and "f_tracks (fetched e r) \<noteq> []"
  shows "res_round2 (fst (analyze_artist e r docs)) = fst (handler_rounds e r)"
  using assms
  by (cases "handler_rounds e r") (simp add: analyze_artist_def Let_def)

lemma handler_rounds_gate:
  assumes "f_tracks (fetched e r) \<noteq> []"
  shows "fst (handler_rounds e r)
     = (\<not> c_fastMode (cfg_of e r) \<and> elapsedMs e \<le> 22000
        \<and> (4 / 10 :: rat)
            \<le> of_nat (round1Success (round1 e (cfg_of e r) (f_tracks (fetched e r))
                         (initial_hstate (fetched e r))))
              / of_nat (length (round1Tracks (cfg_of e r) (f_tracks (fetched e r))))
        \<and> 10 < c_maxTracks (cfg_of e r))"
  using round1Tracks_nonempty [OF _ assms, of "cfg_of e r"]
  by (auto simp: handler_rounds_def run_rounds_def round2_runs_def nearingTimeout_def
      round1SuccessRate_ok_def)

lemma dup_facts:
  "truthy (req_artistName dup_request) \<and> f_tracks (fetched (dup_env ms) dup_request) \<noteq> []"
proof -
  have "truthy (req_artistName dup_request)"
    by (simp add: dup_request_def ex_request_def truthy_def)
  moreover have "f_tracks (fetched (dup_env ms) dup_request) \<noteq> []"
    by (simp add: dup_fetched)
  ultimately show ?thesis by simp
qed

lemma dup_gate:
  "fst (handler_rounds (dup_env ms) dup_request) = (ms \<le> 22000)"
proof -
  have ft: "f_tracks (fetched (dup_env ms) dup_request) \<noteq> []" using dup_facts by simp
  have el: "elapsedMs (dup_env ms) = ms" by (simp add: dup_env_def)
  show ?thesis
    unfolding handler_rounds_gate [OF ft] dup_cfg using dup_round1 [of ms]
    by (simp add: default_cfg_def el)
qed

text \<open>
  C2 (as the code has it). For a request with an artist name whose fetched track list is
  not empty, round 2 runs exactly when fast mode is off, the time elapsed at the gate is
  at most 22000 ms (\<^verbatim>\<open>nearingTimeout\<close> is \<^verbatim>\<open>elapsedMs > 22000\<close>, so a request that is at
  22000 ms exactly still runs round 2), the successes of round 1 divided by the tracks
  round 1 attempted are at least 0.4, and \<^verbatim>\<open>maxTracks\<close> is above 10. The state after the
  rounds is that of round 1 followed by the loop over the round-2 slice when the gate
  holds, and that of round 1 otherwise. In particular a success rate below 0.4 rules
  round 2 out.
\<close>

theorem round2_gate:
  assumes "truthy (req_artistName r)" and "f_tracks (fetched e r) \<noteq> []"
  shows "(res_round2 (fst (analyze_artist e r docs))
      \<longleftrightarrow> \<not> c_fastMode (cfg_of e r) \<and> elapsedMs e \<le> 22000
        \<and> (4 / 10 :: rat)
            \<le> of_nat (round1Success (round1 e (cfg_of e r) (f_tracks (fetched e r))
                         (initial_hstate (fetched e r))))
              / of_nat (length (round1Tracks (cfg_of e r) (f_tracks (fetched e r))))
        \<and> 10 < c_maxTracks (cfg_of e r))
    \<and> snd (handler_rounds e r)
        = (if res_round2 (fst (analyze_artist e r docs))
           then round_loop e (cfg_of e r) 2 (round2Tracks (f_tracks (fetched e r)))
                  (round1 e (cfg_of e r) (f_tracks (fetched e r)) (initial_hstate (fetched e r)))
           else round1 e (cfg_of e r) (f_tracks (fetched e r)) (initial_hstate (fetched e r)))
    \<and> (of_nat (round1Success (round1 e (cfg_of e r) (f_tracks (fetched e r))
                         (initial_hstate (fetched e r))))
              / of_nat (length (round1Tracks (cfg_of e r) (f_tracks (fetched e r))))
          < (4 / 10 :: rat)
        \<longrightarrow> \<not> res_round2 (fst (analyze_artist e r docs)))"
proof -
  have a: "res_round2 (fst (analyze_artist e r docs)) = fst (handler_rounds e r)"
    using assms by (rule res_round2_rounds)
  have b: "snd (handler_rounds e r)
        = (if fst (handler_rounds e r)
           then round_loop e (cfg_of e r) 2 (round2Tracks (f_tracks (fetched e r)))
                  (round1 e (cfg_of e r) (f_tracks (fetched e r)) (initial_hstate (fetched e r)))
           else round1 e (cfg_of e r) (f_tracks (fetched e r)) (initial_hstate (fetched e r)))"
    by (simp add: handler_rounds_def run_rounds_def)
  show ?thesis
    unfolding a using b handler_rounds_gate [OF assms(2)] by auto
qed

theorem round2_gate_witness:
  "res_round2 (fst (analyze_artist (dup_env 1000) dup_request []))
   \<and> \<not> res_round2 (fst (analyze_artist (dup_env 22001) dup_request []))"
proof -
  have c: "cfg_of (dup_env ms) dup_request = default_cfg (Some ''tok'')" for ms
    by (rule dup_cfg)
  have el: "elapsedMs (dup_env ms) = ms" for ms by (simp add: dup_env_def)
  from dup_facts [of 1000] have f1: "truthy (req_artistName dup_request)"
    and f2: "f_tracks (fetched (dup_env 1000) dup_request) \<noteq> []" by simp_all
  from dup_facts [of 22001] have f3: "f_tracks (fetched (dup_env 22001) dup_request) \<noteq> []"
    by simp
  have "res_round2 (fst (analyze_artist (dup_env 1000) dup_request []))"
    using round2_gate [OF f1 f2, of "[]"] dup_round1 [of 1000]
    by (simp add: c el default_cfg_def)
  moreover have "\<not> res_round2 (fst (analyze_artist (dup_env 22001) dup_request []))"
    using round2_gate [OF f1 f3, of "[]"] by (simp add: el)
  ultimately show ?thesis by simp
qed

text \<open>
  At 22000 ms exactly the elapsed time is not below the threshold of 22 seconds, and
  round 2 runs.
\<close>

theorem round2_runs_at_threshold_counterexample:
  "res_round2 (fst (analyze_artist (dup_env 22000) dup_request []))
   \<and> \<not> elapsedMs (dup_env 22000) < 22000
   \<and> f_tracks (fetched (dup_env 22000) dup_request) \<noteq> []"
proof -
  have el: "elapsedMs (dup_env 22000) = 22000" by (simp add: dup_env_def)
  from dup_facts [of 22000] have f1: "truthy (req_artistName dup_request)"
    and f2: "f_tracks (fetched (dup_env 22000) dup_request) \<noteq> []" by simp_all
  show ?thesis
    using res_round2_rounds [OF f1 f2, of "[]"] dup_gate [of 22000] f2 el by simp
qed


lemma analyze_track_no_preview:
  assumes "\<not> truthy (v_previewUrl (acquirePreviewForTrack e c t (h_stats h) (h_calls h)))"
  shows "fst (analyze_track e c rnd t h) = None
       \<and> trackProfiles (snd (analyze_track e c rnd t h)) = trackProfiles h
       \<and> warnings (snd (analyze_track e c rnd t h)) = warnings h
       \<and> round1Success (snd (analyze_track e c rnd t h)) = round1Success h
       \<and> failureReasons (snd (analyze_track e c rnd t h))
           = failureReasons h @ [if rnd = 1 then ''no_preview_round1'' else ''no_preview_round2'']"
  using assms by (simp add: analyze_track_def Let_def)

lemma round_loop_no_preview:
  assumes "\<And>t s cs. t \<in> set ts \<Longrightarrow> \<not> truthy (v_previewUrl (acquirePreviewForTrack e c t s cs))"
  shows "trackProfiles (round_loop e c rnd ts h) = trackProfiles h
       \<and> round1Success (round_loop e c rnd ts h) = round1Success h
       \<and> warnings (round_loop e c rnd ts h) = warnings h"
  using assms
proof (induction ts arbitrary: h)
  case Nil
  show ?case by simp
next
  case (Cons t ts)
  obtain r h1 where a: "analyze_track e c rnd t h = (r, h1)"
    by (cases "analyze_track e c rnd t h")
  have "\<not> truthy (v_previewUrl (acquirePreviewForTrack e c t (h_stats h) (h_calls h)))"
    using Cons.prems by simp
  from analyze_track_no_preview [OF this, of rnd] a
  have r: "r = None" and p: "trackProfiles h1 = trackProfiles h"
    and w: "warnings h1 = warnings h" and s: "round1Success h1 = round1Success h"
    by simp_all
  have ih: "trackProfiles (round_loop e c rnd ts h1) = trackProfiles h1
       \<and> round1Success (round_loop e c rnd ts h1) = round1Success h1
       \<and> warnings (round_loop e c rnd ts h1) = warnings h1"
    using Cons.IH [of h1] Cons.prems by simp
  show ?case using a r ih p w s by simp
qed

lemma set_round1Tracks: "set (round1Tracks c ts) \<subseteq> set ts"
  by (auto simp: round1Tracks_def topTracks_def recentTracks_def dest: in_set_takeD)

lemma set_round2Tracks: "set (round2Tracks ts) \<subseteq> set ts"
  by (auto simp: round2Tracks_def topTracks_def recentTracks_def dest!: in_set_takeD in_set_dropD)

lemma rounds_no_preview:
  assumes "\<And>t s cs. t \<in> set (f_tracks (fetched e r))
      \<Longrightarrow> \<not> truthy (v_previewUrl (acquirePreviewForTrack e (cfg_of e r) t s cs))"
  shows "trackProfiles (snd (handler_rounds e r)) = []"
proof -
  let ?c = "cfg_of e r" and ?ts = "f_tracks (fetched e r)"
  have n1: "\<not> truthy (v_previewUrl (acquirePreviewForTrack e ?c t s cs))"
    if "t \<in> set (round1Tracks ?c ?ts)" for t s cs
    using that assms set_round1Tracks [of ?c ?ts] by auto
  have n2: "\<not> truthy (v_previewUrl (acquirePreviewForTrack e ?c t s cs))"
    if "t \<in> set (round2Tracks ?ts)" for t s cs
    using that assms set_round2Tracks [of ?ts] by auto
  have p1: "trackProfiles (round1 e ?c ?ts (initial_hstate (fetched e r))) = []"
    unfolding round1_def using round_loop_no_preview [of "round1Tracks ?c ?ts" e ?c, OF n1]
    by (simp add: initial_hstate_def)
  have p2: "trackProfiles (round_loop e ?c 2 (round2Tracks ?ts)
       (round1 e ?c ?ts (initial_hstate (fetched e r)))) = []"
    using round_loop_no_preview [of "round2Tracks ?ts" e ?c, OF n2] p1 by simp
  show ?thesis using p1 p2 by (simp add: handler_rounds_def run_rounds_def)
qed

lemma no_known_preview_unresolved:
  assumes "\<not> truthy (preview_url t)"
    and "\<And>n ar nm. sc_miss (searchSoundCloudAudio e n ar nm)"
    and "\<And>n q l. failed (itunes_search e n q l)"
    and "\<And>n p m. failed (spotify_search e n p m)"
    and "\<And>n ar nm. agg_miss (findAlternativeAudioSource e n ar nm)"
  shows "\<not> truthy (v_previewUrl (acquirePreviewForTrack e c t s cs))"
proof -
  have n0: "\<not> truthy (v_previewUrl (init_acq c t s cs))"
    using assms(1) by (simp add: init_acq_def Let_def)
  have "\<not> apple_sourced t" using assms(1) by (simp add: apple_sourced_def)
  with acquire_all_miss [OF n0 assms(2-5)] show ?thesis by simp
qed

lemma dead_env_misses:
  "sc_miss (searchSoundCloudAudio dead_env n ar nm)"
  "failed (itunes_search dead_env n q l)"
  "failed (spotify_search dead_env n p m)"
  "agg_miss (findAlternativeAudioSource dead_env n ar nm)"
  by (simp_all add: dead_env_def sc_miss_def sc_hit_def failed_def agg_miss_def)

lemma mute_misses:
  "sc_miss (searchSoundCloudAudio mute_env n ar nm)"
  "failed (itunes_search mute_env n q l)"
  "failed (spotify_search mute_env n p m)"
  "agg_miss (findAlternativeAudioSource mute_env n ar nm)"
  by (simp_all add: mute_env_def dead_env_def sc_miss_def sc_hit_def failed_def agg_miss_def)

lemma mute_cfg: "cfg_of mute_env (genre_request g) = default_cfg (Some ''tok'')"
  by (simp add: cfg_of_def genre_request_def dup_request_def ex_request_def mute_env_def
      dead_env_def truthy_def lower_apple_primary default_cfg_def)

lemma mute_fetched:
  "f_tracks (fetched mute_env (genre_request g)) = [ex_track ''x'' None]"
  unfolding fetched_def mute_cfg
  by (simp add: fetch_tracks_def default_cfg_def top_tracks_step_def recent_albums_step_def
      Let_def truthy_def genre_request_def dup_request_def ex_request_def mute_env_def
      dead_env_def ex_track_def)

lemma mute_rounds: "trackProfiles (snd (handler_rounds mute_env (genre_request g))) = []"
proof (rule rounds_no_preview)
  fix t s cs
  assume "t \<in> set (f_tracks (fetched mute_env (genre_request g)))"
  then have "\<not> truthy (preview_url t)" by (simp add: mute_fetched ex_track_def truthy_def)
  then show "\<not> truthy (v_previewUrl (acquirePreviewForTrack mute_env
      (cfg_of mute_env (genre_request g)) t s cs))"
    by (rule no_known_preview_unresolved) (rule mute_misses)+
qed

lemma partial_response:
  assumes "truthy (req_artistName r)" and "f_tracks (fetched e r) \<noteq> []"
    and "trackProfiles (snd (handler_rounds e r)) = []"
  shows "snd (analyze_artist e r docs) = docs"
    and "res_status (fst (analyze_artist e r docs)) = 200"
    and "inferredGenres (buildGenreMapping [] (c_artistName (cfg_of e r))
            (case req_existingGenres r of None \<Rightarrow> [] | Some g \<Rightarrow> g)) \<noteq> []
         \<Longrightarrow> res_success (fst (analyze_artist e r docs))
           \<and> res_partial (fst (analyze_artist e r docs))
           \<and> res_failSubtype (fst (analyze_artist e r docs)) = Some ''no_preview''
           \<and> res_trackMatrix (fst (analyze_artist e r docs)) = Some []
           \<and> res_genreMapping (fst (analyze_artist e r docs))
               = Some (buildGenreMapping [] (c_artistName (cfg_of e r))
                    (case req_existingGenres r of None \<Rightarrow> [] | Some g \<Rightarrow> g))"
    and "inferredGenres (buildGenreMapping [] (c_artistName (cfg_of e r))
            (case req_existingGenres r of None \<Rightarrow> [] | Some g \<Rightarrow> g)) = []
         \<Longrightarrow> \<not> res_success (fst (analyze_artist e r docs))
           \<and> res_trackMatrix (fst (analyze_artist e r docs)) = None"
  using assms
  by (cases "handler_rounds e r"; simp add: analyze_artist_def Let_def base_response_def)+

lemma buildGenreMapping_priority:
  "buildGenreMapping ps artist g =
     (if g \<noteq> []
      then \<lparr>inferredGenres = take 5 g, gm_source = ''spotify'', gm_confidence = 1\<rparr>
      else if inferGenresFromTracks ps \<noteq> []
      then \<lparr>inferredGenres = inferGenresFromTracks ps, gm_source = ''audio_analysis'',
            gm_confidence = 8 / 10\<rparr>
      else if inferGenreFromArtistName artist \<noteq> []
      then \<lparr>inferredGenres = inferGenreFromArtistName artist, gm_source = ''name_inference'',
            gm_confidence = 6 / 10\<rparr>
      else \<lparr>inferredGenres = [], gm_source = ''none'', gm_confidence = 0\<rparr>)"
  by (simp add: buildGenreMapping_def)

text \<open>
  C6 (as the code has it). When tracks were fetched for the artist and none of them
  yielded a profile, the collection is left as it was and the answer has status 200. If
  a genre is derivable the answer is the partial success: \<^verbatim>\<open>success\<close> and \<^verbatim>\<open>partial\<close>
  are true, \<^verbatim>\<open>trackMatrix\<close> is empty and \<^verbatim>\<open>genreMapping\<close> is the mapping built; with
  known genres in the request the mapping lists the first five of them with source
  \<^verbatim>\<open>'spotify'\<close> and confidence 1. The mapping takes the known genres first, then the
  genres inferred from the feature averages (source \<^verbatim>\<open>'audio_analysis'\<close>), then those
  inferred from the artist's name (source \<^verbatim>\<open>'name_inference'\<close>), and is empty with source
  \<^verbatim>\<open>'none'\<close> otherwise.
\<close>

theorem partial_success_with_genres:
  assumes "truthy (req_artistName r)" and "f_tracks (fetched e r) \<noteq> []"
    and "trackProfiles (snd (handler_rounds e r)) = []"
  shows "snd (analyze_artist e r docs) = docs
     \<and> res_status (fst (analyze_artist e r docs)) = 200
     \<and> (inferredGenres (buildGenreMapping [] (c_artistName (cfg_of e r))
            (case req_existingGenres r of None \<Rightarrow> [] | Some g \<Rightarrow> g)) \<noteq> []
         \<longrightarrow> res_success (fst (analyze_artist e r docs))
           \<and> res_partial (fst (analyze_artist e r docs))
           \<and> res_trackMatrix (fst (analyze_artist e r docs)) = Some []
           \<and> res_genreMapping (fst (analyze_artist e r docs))
               = Some (buildGenreMapping [] (c_artistName (cfg_of e r))
                    (case req_existingGenres r of None \<Rightarrow> [] | Some g \<Rightarrow> g)))
     \<and> (\<forall>g. req_existingGenres r = Some g \<and> g \<noteq> []
         \<longrightarrow> res_success (fst (analyze_artist e r docs))
           \<and> res_partial (fst (analyze_artist e r docs))
           \<and> res_trackMatrix (fst (analyze_artist e r docs)) = Some []
           \<and> res_genreMapping (fst (analyze_artist e r docs))
               = Some \<lparr>inferredGenres = take 5 g, gm_source = ''spotify'', gm_confidence = 1\<rparr>)
     \<and> buildGenreMapping ps artist gs =
         (if gs \<noteq> []
          then \<lparr>inferredGenres = take 5 gs, gm_source = ''spotify'', gm_confidence = 1\<rparr>
          else if inferGenresFromTracks ps \<noteq> []
          then \<lparr>inferredGenres = inferGenresFromTracks ps, gm_source = ''audio_analysis'',
                gm_confidence = 8 / 10\<rparr>
          else if inferGenreFromArtistName artist \<noteq> []
          then \<lparr>inferredGenres = inferGenreFromArtistName artist,
                gm_source = ''name_inference'', gm_confidence = 6 / 10\<rparr>
          else \<lparr>inferredGenres = [], gm_source = ''none'', gm_confidence = 0\<rparr>)"
proof -
  note p = partial_response [OF assms, of docs]
  have k: "res_success (fst (analyze_artist e r docs))
           \<and> res_partial (fst (analyze_artist e r docs))
           \<and> res_trackMatrix (fst (analyze_artist e r docs)) = Some []
           \<and> res_genreMapping (fst (analyze_artist e r docs))
               = Some \<lparr>inferredGenres = take 5 g, gm_source = ''spotify'', gm_confidence = 1\<rparr>"
    if "req_existingGenres r = Some g" and "g \<noteq> []" for g
    using p(3) that by (simp add: buildGenreMapping_priority)
  show ?thesis
    using p(1) p(2) p(3) k buildGenreMapping_priority [of ps artist gs] by blast
qed

theorem partial_success_with_genres_witness:
  "snd (analyze_artist mute_env (genre_request [''house'', ''techno'', ''trance'']) []) = []
   \<and> res_success (fst (analyze_artist mute_env (genre_request [''house'', ''techno'', ''trance'']) []))
   \<and> res_partial (fst (analyze_artist mute_env (genre_request [''house'', ''techno'', ''trance'']) []))
   \<and> res_trackMatrix (fst (analyze_artist mute_env (genre_request [''house'', ''techno'', ''trance'']) []))
       = Some []
   \<and> res_genreMapping (fst (analyze_artist mute_env (genre_request [''house'', ''techno'', ''trance'']) []))
       = Some \<lparr>inferredGenres = [''house'', ''techno'', ''trance''], gm_source = ''spotify'',
               gm_confidence = 1\<rparr>"
proof -
  let ?r = "genre_request [''house'', ''techno'', ''trance'']"
  have a: "truthy (req_artistName ?r)"
    by (simp add: genre_request_def dup_request_def ex_request_def truthy_def)
  have b: "f_tracks (fetched mute_env ?r) \<noteq> []" by (simp add: mute_fetched)
  have g: "req_existingGenres ?r = Some [''house'', ''techno'', ''trance'']"
    by (simp add: genre_request_def)
  show ?thesis
    using partial_success_with_genres [OF a b mute_rounds, of "[]" "[]" "[]" "[]"] g
    by simp
qed

text \<open>
  With three known genres and no resolvable track the source of the mapping is
  \<^verbatim>\<open>'spotify'\<close>, not \<^verbatim>\<open>'known'\<close>.
\<close>

theorem genre_source_is_spotify_counterexample:
  "res_success (fst (analyze_artist mute_env (genre_request [''house'', ''techno'', ''trance'']) []))
   \<and> res_trackMatrix (fst (analyze_artist mute_env (genre_request [''house'', ''techno'', ''trance'']) []))
       = Some []
   \<and> gm_source (the (res_genreMapping
        (fst (analyze_artist mute_env (genre_request [''house'', ''techno'', ''trance'']) []))))
       = ''spotify''
   \<and> gm_source (the (res_genreMapping
        (fst (analyze_artist mute_env (genre_request [''house'', ''techno'', ''trance'']) []))))
       \<noteq> ''known''"
proof -
  let ?r = "genre_request [''house'', ''techno'', ''trance'']"
  have a: "truthy (req_artistName ?r)"
    by (simp add: genre_request_def dup_request_def ex_request_def truthy_def)
  have b: "f_tracks (fetched mute_env ?r) \<noteq> []" by (simp add: mute_fetched)
  have g: "req_existingGenres ?r = Some [''house'', ''techno'', ''trance'']"
    by (simp add: genre_request_def)
  show ?thesis
    using partial_response(3) [OF a b mute_rounds, of "[]"] g
    by (simp add: buildGenreMapping_priority)
qed






lemma upsert_profile_has: "d \<in> set (upsert_profile key d docs)"
  by (induction docs) auto










lemma analyze_track_outcome:
  "length (trackProfiles (snd (analyze_track e c rnd t h)))
     + length (failureReasons (snd (analyze_track e c rnd t h)))
     + (case fst (analyze_track e c rnd t h) of None \<Rightarrow> 0 | Some err \<Rightarrow> 1)
   = length (trackProfiles h) + length (failureReasons h) + 1
   \<and> warnings (snd (analyze_track e c rnd t h)) = warnings h"
  by (simp add: analyze_track_def Let_def split: sum.splits)

lemma round_loop_accounts:
  "length (trackProfiles (round_loop e c rnd ts h))
     + length (failureReasons (round_loop e c rnd ts h))
     + length (warnings (round_loop e c rnd ts h))
   = length (trackProfiles h) + length (failureReasons h) + length (warnings h) + length ts"
proof (induction ts arbitrary: h)
  case Nil
  show ?case by simp
next
  case (Cons t ts)
  obtain r h1 where a: "analyze_track e c rnd t h = (r, h1)"
    by (cases "analyze_track e c rnd t h")
  from analyze_track_outcome [of e c rnd t h] a
  have o: "length (trackProfiles h1) + length (failureReasons h1)
       + (case r of None \<Rightarrow> 0 | Some err \<Rightarrow> 1)
     = length (trackProfiles h) + length (failureReasons h) + 1"
    and w: "warnings h1 = warnings h"
    by simp_all
  show ?case
  proof (cases r)
    case None
    with a have "round_loop e c rnd (t # ts) h = round_loop e c rnd ts h1" by simp
    with Cons.IH [of h1] o w None show ?thesis by simp
  next
    case (Some err)
    with a have "round_loop e c rnd (t # ts) h
        = round_loop e c rnd ts (h1\<lparr>warnings := warnings h1 @ [track_name t]\<rparr>)"
      by simp
    with Cons.IH [of "h1\<lparr>warnings := warnings h1 @ [track_name t]\<rparr>"] o w Some
    show ?thesis by simp
  qed
qed

lemma extraction_failure_skips:
  assumes "truthy (v_previewUrl (acquirePreviewForTrack e c t (h_stats h) (h_calls h)))"
    and "analyzeAudioWithEssentia e
           (length (calls (acquirePreviewForTrack e c t (h_stats h) (h_calls h))))
           (the (v_previewUrl (acquirePreviewForTrack e c t (h_stats h) (h_calls h)))) = Inl err"
  shows "round_loop e c rnd (t # ts) h
     = round_loop e c rnd ts
         ((snd (analyze_track e c rnd t h))
            \<lparr>warnings := warnings h @ [track_name t]\<rparr>)
     \<and> trackProfiles (snd (analyze_track e c rnd t h)) = trackProfiles h"
  using assms by (simp add: analyze_track_def Let_def)

lemma handler_status:
  "res_status (fst (analyze_artist e r docs)) = (if truthy (req_artistName r) then 200 else 400)"
  by (cases "handler_rounds e r") (simp add: analyze_artist_def Let_def base_response_def)

text \<open>
  C8. A round handles every one of its tracks, whatever the providers and the extraction
  do: each track adds exactly one profile, one \<open>no_preview\<close> failure reason or one warning
  of the \<^verbatim>\<open>catch\<close> of the loop. A failed extraction leaves no profile, and the loop goes on
  with the next track. The resolution of a track ends without a preview only after the
  aggregator was asked, after SoundCloud was asked when a client id is configured, after
  both Apple lookups unless the SoundCloud test is forced (for a track with an artist and
  a name), and, in the balanced strategy with a token, after the Spotify recovery used
  its budget of attempts: its first search was made, or the budget was used up from the
  start (\<^verbatim>\<open>0 >= perTrackRecoveryLimit\<close>) and \<^verbatim>\<open>previewRecoveryLimited\<close> is recorded. The
  handler answers every request that names an artist with status 200.
\<close>

theorem provider_failures_do_not_abort:
  "length (trackProfiles (round_loop e c rnd ts h))
     + length (failureReasons (round_loop e c rnd ts h))
     + length (warnings (round_loop e c rnd ts h))
   = length (trackProfiles h) + length (failureReasons h) + length (warnings h) + length ts
   \<and> (truthy (v_previewUrl (acquirePreviewForTrack e c t (h_stats h) (h_calls h)))
        \<and> analyzeAudioWithEssentia e
             (length (calls (acquirePreviewForTrack e c t (h_stats h) (h_calls h))))
             (the (v_previewUrl (acquirePreviewForTrack e c t (h_stats h) (h_calls h)))) = Inl err
      \<longrightarrow> round_loop e c rnd (t # ts) h
           = round_loop e c rnd ts
               ((snd (analyze_track e c rnd t h))\<lparr>warnings := warnings h @ [track_name t]\<rparr>)
         \<and> trackProfiles (snd (analyze_track e c rnd t h)) = trackProfiles h)
   \<and> (\<not> truthy (v_previewUrl (acquirePreviewForTrack e c t s cs))
      \<longrightarrow> AggregatorCall (primaryArtist t) (track_name t) \<in> set (made_calls e c t s cs)
         \<and> (scClientId e
             \<longrightarrow> SoundCloudCall (primaryArtist t) (track_name t) \<in> set (made_calls e c t s cs))
         \<and> (\<not> forceSoundCloudTest c \<and> artists t \<noteq> [] \<and> track_name t \<noteq> []
             \<longrightarrow> ItunesCall (apple_term (hd (artists t)) (track_name t)) 1
                   \<in> set (made_calls e c t s cs)
               \<and> ItunesCall (hd (artists t)) 10 \<in> set (made_calls e c t s cs))
         \<and> (\<not> forceSoundCloudTest c \<and> \<not> useApplePrimary c \<and> truthy (spotifyToken c)
               \<and> artistCandidates c t \<noteq> [] \<and> recovery_markets e c \<noteq> []
             \<longrightarrow> (if reached 0 (perTrackRecoveryLimit c)
                  then previewRecoveryLimited (stats (acquirePreviewForTrack e c t s cs))
                  else SpotifySearchCall
                         (hd (exact_patterns (track_name t) (hd (artistCandidates c t))))
                         (hd (recovery_markets e c)) \<in> set (made_calls e c t s cs))))
   \<and> res_status (fst (analyze_artist e r docs)) = (if truthy (req_artistName r) then 200 else 400)"
proof -
  have b: "if reached 0 (perTrackRecoveryLimit c)
           then previewRecoveryLimited (stats (acquirePreviewForTrack e c t s cs))
           else SpotifySearchCall
                  (hd (exact_patterns (track_name t) (hd (artistCandidates c t))))
                  (hd (recovery_markets e c)) \<in> set (made_calls e c t s cs)"
    if "\<not> truthy (v_previewUrl (acquirePreviewForTrack e c t s cs))"
      "\<not> forceSoundCloudTest c" "\<not> useApplePrimary c" "truthy (spotifyToken c)"
      "artistCandidates c t \<noteq> []" "recovery_markets e c \<noteq> []"
    using acquire_budget_used_up [OF that(1,4,3,2,5,6)]
      acquire_exhausted(4) [OF that(1,2,3,4,5,6)]
    by simp
  show ?thesis
    using round_loop_accounts [of e c rnd ts h] extraction_failure_skips [of e c t h err rnd ts]
      acquire_exhausted(1-3) [of e c t s cs] b handler_status [of e r docs]
    by blast
qed

theorem provider_failures_do_not_abort_witness:
  "AggregatorCall (primaryArtist (ex_track ''x'' None)) (track_name (ex_track ''x'' None))
      \<in> set (made_calls deaf_env balanced_cfg (ex_track ''x'' None) initial_stats [])
   \<and> SoundCloudCall (primaryArtist (ex_track ''x'' None)) (track_name (ex_track ''x'' None))
      \<in> set (made_calls deaf_env balanced_cfg (ex_track ''x'' None) initial_stats [])
   \<and> ItunesCall (apple_term (hd (artists (ex_track ''x'' None))) (track_name (ex_track ''x'' None))) 1
      \<in> set (made_calls deaf_env balanced_cfg (ex_track ''x'' None) initial_stats [])
   \<and> ItunesCall (hd (artists (ex_track ''x'' None))) 10
      \<in> set (made_calls deaf_env balanced_cfg (ex_track ''x'' None) initial_stats [])
   \<and> SpotifySearchCall
        (hd (exact_patterns (track_name (ex_track ''x'' None))
               (hd (artistCandidates balanced_cfg (ex_track ''x'' None)))))
        (hd (recovery_markets deaf_env balanced_cfg))
      \<in> set (made_calls deaf_env balanced_cfg (ex_track ''x'' None) initial_stats [])
   \<and> previewRecoveryLimited
        (stats (acquirePreviewForTrack deaf_env no_budget_cfg (ex_track ''x'' None) initial_stats []))
   \<and> trackProfiles (snd (analyze_track broken_env (default_cfg None) 1
        (ex_track ''x'' (Some ''u'')) (initial_hstate (fetched broken_env ex_request))))
      = trackProfiles (initial_hstate (fetched broken_env ex_request))
   \<and> res_status (fst (analyze_artist deaf_env ex_request [])) = 200"
proof -
  let ?t = "ex_track ''x'' None"
  have m: "sc_miss (searchSoundCloudAudio deaf_env n ar nm)"
    "failed (itunes_search deaf_env n q l)"
    "failed (spotify_search deaf_env n p mk)"
    "agg_miss (findAlternativeAudioSource deaf_env n ar nm)" for n ar nm q l p mk
    by (simp_all add: deaf_env_def dead_env_def sc_miss_def sc_hit_def failed_def agg_miss_def)
  have np: "\<not> truthy (preview_url ?t)" by (simp add: ex_track_def truthy_def)
  have nf: "\<not> truthy (v_previewUrl (acquirePreviewForTrack deaf_env c ?t initial_stats []))" for c
    by (rule no_known_preview_unresolved [OF np]) (rule m)+
  have sc: "scClientId deaf_env" by (simp add: deaf_env_def)
  have st: "\<not> forceSoundCloudTest balanced_cfg" "\<not> useApplePrimary balanced_cfg"
    "truthy (spotifyToken balanced_cfg)"
    by (simp_all add: balanced_cfg_def default_cfg_def forceSoundCloudTest_def
        soundcloudPrimary_def useApplePrimary_def truthy_def)
  have st': "\<not> forceSoundCloudTest no_budget_cfg" "\<not> useApplePrimary no_budget_cfg"
    "truthy (spotifyToken no_budget_cfg)"
    by (simp_all add: no_budget_cfg_def balanced_cfg_def default_cfg_def forceSoundCloudTest_def
        soundcloudPrimary_def useApplePrimary_def truthy_def)
  have tr: "artists ?t \<noteq> []" "track_name ?t \<noteq> []" by (simp_all add: ex_track_def)
  have ac: "artistCandidates balanced_cfg ?t \<noteq> []"
    by (simp add: artistCandidates_def balanced_cfg_def default_cfg_def ex_track_def unique_def)
  have ac': "artistCandidates no_budget_cfg ?t \<noteq> []"
    by (simp add: artistCandidates_def no_budget_cfg_def balanced_cfg_def default_cfg_def
        ex_track_def unique_def)
  have rm: "recovery_markets deaf_env balanced_cfg \<noteq> []"
    by (simp add: recovery_markets_def balanced_cfg_def default_cfg_def deaf_env_def dead_env_def)
  have rm': "recovery_markets deaf_env no_budget_cfg \<noteq> []"
    by (simp add: recovery_markets_def no_budget_cfg_def balanced_cfg_def default_cfg_def
        deaf_env_def dead_env_def)
  have bud: "\<not> reached 0 (perTrackRecoveryLimit balanced_cfg)"
    by (simp add: reached_def perTrackRecoveryLimit_def balanced_cfg_def default_cfg_def)
  have bud': "reached 0 (perTrackRecoveryLimit no_budget_cfg)"
    by (simp add: reached_def perTrackRecoveryLimit_def no_budget_cfg_def)
  let ?u = "ex_track ''x'' (Some ''u'')"
  let ?h = "initial_hstate (fetched broken_env ex_request)"
  let ?a = "acquirePreviewForTrack broken_env (default_cfg None) ?u (h_stats ?h) (h_calls ?h)"
  have k: "truthy (v_previewUrl (init_acq (default_cfg None) ?u (h_stats ?h) (h_calls ?h)))"
    using dup_known [of ?u False None None "h_stats ?h" "h_calls ?h"] by (simp add: ex_track_def)
  from known_preview_kept [OF k, of broken_env] k
  have kt: "truthy (v_previewUrl ?a)" by (simp add: same_choice_def)
  have ex: "analyzeAudioWithEssentia broken_env (length (calls ?a)) (the (v_previewUrl ?a))
      = Inl NetworkError"
    by (simp add: broken_env_def)
  have an: "truthy (req_artistName ex_request)" by (simp add: ex_request_def truthy_def)
  note T = provider_failures_do_not_abort [where e = deaf_env and c = balanced_cfg and t = ?t
      and s = initial_stats and cs = "[]" and r = ex_request and docs = "[]"]
  note V = provider_failures_do_not_abort [where e = deaf_env and c = no_budget_cfg and t = ?t
      and s = initial_stats and cs = "[]"]
  note U = provider_failures_do_not_abort [where e = broken_env and c = "default_cfg None"
      and t = ?u and h = ?h and err = NetworkError and rnd = 1]
  from U kt ex have p: "trackProfiles (snd (analyze_track broken_env (default_cfg None) 1 ?u ?h))
      = trackProfiles ?h"
    by blast
  from T an have q: "res_status (fst (analyze_artist deaf_env ex_request [])) = 200"
    by simp
  from V nf [of no_budget_cfg] st' ac' rm' bud'
  have w: "previewRecoveryLimited
        (stats (acquirePreviewForTrack deaf_env no_budget_cfg ?t initial_stats []))"
    by simp
  from T nf [of balanced_cfg] sc st tr ac rm bud
  have x: "AggregatorCall (primaryArtist ?t) (track_name ?t)
      \<in> set (made_calls deaf_env balanced_cfg ?t initial_stats [])
   \<and> SoundCloudCall (primaryArtist ?t) (track_name ?t)
      \<in> set (made_calls deaf_env balanced_cfg ?t initial_stats [])
   \<and> ItunesCall (apple_term (hd (artists ?t)) (track_name ?t)) 1
      \<in> set (made_calls deaf_env balanced_cfg ?t initial_stats [])
   \<and> ItunesCall (hd (artists ?t)) 10
      \<in> set (made_calls deaf_env balanced_cfg ?t initial_stats [])
   \<and> SpotifySearchCall
        (hd (exact_patterns (track_name ?t) (hd (artistCandidates balanced_cfg ?t))))
        (hd (recovery_markets deaf_env balanced_cfg))
      \<in> set (made_calls deaf_env balanced_cfg ?t initial_stats [])"
    by simp
  from x w p q show ?thesis by blast
qed


lemma init_suppressed:
  assumes "truthy (preview_url t)"
    and "forceFlag c \<or> (soundcloudPrimary c \<and> \<not> apple_sourced t)"
  shows "v_previewUrl (init_acq c t s cs) = None \<and> v_audioSource (init_acq c t s cs) = None"
  using assms
  by (auto simp: init_acq_def Let_def soundcloudPrimary_def apple_sourced_def truthy_def)

lemma early_first_call:
  assumes "\<not> truthy (v_previewUrl a)" and "forceSoundCloudTest c" and "scClientId e"
  shows "calls (early_soundcloud e c t a)
     = calls a @ [SoundCloudCall (primaryArtist t) (track_name t)]"
  using assms by (simp add: early_soundcloud_def sc_query_calls)

lemma relaxed_first_call:
  assumes nt: "\<not> truthy (v_previewUrl a)" and fc: "forceSoundCloudTest c \<or> soundcloudPrimary c"
    and sc: "scClientId e"
  shows "\<exists>q xs. calls (relaxed_soundcloud e c t a) = calls a @ SoundCloudCall (primaryArtist t) q # xs
     \<and> (q = [] \<or> (q = fst (simplifyName (track_name t)) \<and> q \<noteq> track_name t))"
proof -
  let ?simple = "fst (simplifyName (track_name t))"
  let ?a0 = "if snd (simplifyName (track_name t))
             then a\<lparr>stats := (stats a)\<lparr>pr_suffixStrips := pr_suffixStrips (stats a) + 1\<rparr>\<rparr> else a"
  let ?q1 = "sc_query e (tmpl (primaryArtist t) @ '' :: '' @ ?simple)
                    (primaryArtist t) ?simple (8 / 10) False True False ?a0"
  have c0: "calls ?a0 = calls a" by simp
  have n0: "\<not> truthy (v_previewUrl ?a0)" using nt by simp
  show ?thesis
  proof (cases "?simple \<noteq> [] \<and> ?simple \<noteq> track_name t")
    case True
    have c1: "calls (snd ?q1) = calls a @ [SoundCloudCall (primaryArtist t) ?simple]"
      using sc_query_calls [of e _ "primaryArtist t" ?simple _ _ _ _ ?a0] c0 by simp
    let ?q2 = "sc_query e (tmpl (primaryArtist t)) (primaryArtist t) []
                            (7 / 10) False False True (snd ?q1)"
    have c2: "calls (snd ?q2) = calls (snd ?q1) @ [SoundCloudCall (primaryArtist t) []]"
      by (rule sc_query_calls)
    have "relaxed_soundcloud e c t a = snd ?q1 \<or> relaxed_soundcloud e c t a = snd ?q2"
      using True nt fc sc
      by (cases ?q1) (auto simp: relaxed_soundcloud_def Let_def split: option.splits)
    then have "\<exists>xs. calls (relaxed_soundcloud e c t a)
        = calls a @ SoundCloudCall (primaryArtist t) ?simple # xs"
      using c1 c2 by auto
    with True show ?thesis by blast
  next
    case False
    let ?r1 = "if ?simple \<noteq> [] \<and> ?simple \<noteq> track_name t then ?q1 else (None, ?a0)"
    let ?q2 = "sc_query e (tmpl (primaryArtist t)) (primaryArtist t) []
                            (7 / 10) False False True (snd ?r1)"
    have r1: "?r1 = (None, ?a0)" by (simp only: False if_False)
    have c2: "calls (snd ?q2) = calls (snd ?r1) @ [SoundCloudCall (primaryArtist t) []]"
      by (rule sc_query_calls)
    have g: "relaxed_soundcloud e c t a
        = (case ?r1 of (Some err, a1) \<Rightarrow> a1
           | (None, a1) \<Rightarrow> if \<not> truthy (v_previewUrl a1)
                then snd (sc_query e (tmpl (primaryArtist t)) (primaryArtist t) []
                            (7 / 10) False False True a1) else a1)"
      using nt fc sc by (simp add: relaxed_soundcloud_def Let_def)
    have "relaxed_soundcloud e c t a
        = snd (sc_query e (tmpl (primaryArtist t)) (primaryArtist t) []
                            (7 / 10) False False True ?a0)"
      unfolding g r1 using n0 by simp
    then have "calls (relaxed_soundcloud e c t a)
        = calls a @ [SoundCloudCall (primaryArtist t) []]"
      using sc_query_calls [of e _ "primaryArtist t" "[]" _ _ _ _ ?a0] c0 by simp
    then show ?thesis by simp
  qed
qed

lemma sc_query_source:
  assumes "\<not> truthy (v_previewUrl a)"
  shows "\<not> truthy (v_previewUrl (snd (sc_query e q ar nm d f1 f2 f3 a)))
       \<or> v_audioSource (snd (sc_query e q ar nm d f1 f2 f3 a)) = Some ''soundcloud''"
  using assms
  by (auto simp add: sc_query_def call_soundcloud_def take_soundcloud_def split: sum.splits)

lemma early_source:
  assumes "\<not> truthy (v_previewUrl a) \<or> v_audioSource a = Some ''soundcloud''"
  shows "\<not> truthy (v_previewUrl (early_soundcloud e c t a))
       \<or> v_audioSource (early_soundcloud e c t a) = Some ''soundcloud''"
  using assms sc_query_source [of a e] by (auto simp: early_soundcloud_def)

lemma soundcloud_step_source:
  assumes "\<not> truthy (v_previewUrl a) \<or> v_audioSource a = Some ''soundcloud''"
  shows "\<not> truthy (v_previewUrl (soundcloud_step e t a))
       \<or> v_audioSource (soundcloud_step e t a) = Some ''soundcloud''"
  using assms sc_query_source [of a e] by (auto simp: soundcloud_step_def)

lemma relaxed_source:
  assumes "\<not> truthy (v_previewUrl a) \<or> v_audioSource a = Some ''soundcloud''"
  shows "\<not> truthy (v_previewUrl (relaxed_soundcloud e c t a))
       \<or> v_audioSource (relaxed_soundcloud e c t a) = Some ''soundcloud''"
proof (cases "\<not> truthy (v_previewUrl a) \<and> (forceSoundCloudTest c \<or> soundcloudPrimary c) \<and> scClientId e")
  case False
  then show ?thesis using assms by (auto simp: relaxed_soundcloud_def)
next
  case True
  let ?simple = "fst (simplifyName (track_name t))"
  let ?a0 = "if snd (simplifyName (track_name t))
             then a\<lparr>stats := (stats a)\<lparr>pr_suffixStrips := pr_suffixStrips (stats a) + 1\<rparr>\<rparr> else a"
  let ?r1 = "if ?simple \<noteq> [] \<and> ?simple \<noteq> track_name t
             then sc_query e (tmpl (primaryArtist t) @ '' :: '' @ ?simple)
                    (primaryArtist t) ?simple (8 / 10) False True False ?a0
             else (None, ?a0)"
  have n0: "\<not> truthy (v_previewUrl ?a0)" using True by simp
  have s1: "\<not> truthy (v_previewUrl (snd ?r1)) \<or> v_audioSource (snd ?r1) = Some ''soundcloud''"
    using sc_query_source [OF n0, of e] n0 by auto
  let ?q2 = "sc_query e (tmpl (primaryArtist t)) (primaryArtist t) []
                            (7 / 10) False False True (snd ?r1)"
  have s2: "\<not> truthy (v_previewUrl (snd ?r1)) \<Longrightarrow>
      \<not> truthy (v_previewUrl (snd ?q2)) \<or> v_audioSource (snd ?q2) = Some ''soundcloud''"
    by (rule sc_query_source)
  have "relaxed_soundcloud e c t a = snd ?r1
      \<or> (\<not> truthy (v_previewUrl (snd ?r1)) \<and> relaxed_soundcloud e c t a = snd ?q2)"
    using True by (cases ?r1) (auto simp: relaxed_soundcloud_def Let_def split: option.splits)
  with s1 s2 show ?thesis by auto
qed

lemma tail_grow:
  "calls_grow a
     (restore_spotify_step c (restore_apple_step c (spotify_fallback_step c t
        (aggregator_step e t (soundcloud_step e t (apple_broad_step e c t
           (apple_exact_step e c t (note_recovery_disabled c (spotify_recovery e c t
              (apple_primary_step e c t a))))))))))"
proof -
  define a3 where "a3 = apple_primary_step e c t a"
  define a4 where "a4 = spotify_recovery e c t a3"
  define a5 where "a5 = note_recovery_disabled c a4"
  define a6 where "a6 = apple_exact_step e c t a5"
  define a7 where "a7 = apple_broad_step e c t a6"
  define a8 where "a8 = soundcloud_step e t a7"
  define a9 where "a9 = aggregator_step e t a8"
  have g3: "calls_grow a a3" by (simp add: a3_def apple_primary_grow)
  have g4: "calls_grow a a4" using g3 recovery_grow [of a3 e c t] by (auto simp: a4_def intro: calls_grow_trans)
  have g5: "calls_grow a a5" using g4 note_grow [of a4 c] by (auto simp: a5_def intro: calls_grow_trans)
  have g6: "calls_grow a a6" using g5 exact_grow [of a5 e c t] by (auto simp: a6_def intro: calls_grow_trans)
  have g7: "calls_grow a a7" using g6 broad_grow [of a6 e c t] by (auto simp: a7_def intro: calls_grow_trans)
  have g8: "calls_grow a a8" using g7 sc_grow [of a7 e t] by (auto simp: a8_def intro: calls_grow_trans)
  have g9: "calls_grow a a9" using g8 agg_grow [of a8 e t] by (auto simp: a9_def intro: calls_grow_trans)
  have "calls (restore_spotify_step c (restore_apple_step c (spotify_fallback_step c t a9)))
      = calls a9"
    by (simp add: restore_spotify_dead restore_apple_calls fallback_calls)
  with g9 have "calls_grow a (restore_spotify_step c (restore_apple_step c
      (spotify_fallback_step c t a9)))"
    by (simp add: calls_grow_def)
  then show ?thesis by (simp add: a9_def a8_def a7_def a6_def a5_def a4_def a3_def)
qed

lemma suppressed_relaxed_query:
  assumes n0: "\<not> truthy (v_previewUrl (init_acq c t s cs))"
    and fc: "forceSoundCloudTest c" and sc: "scClientId e"
    and miss: "sc_miss (searchSoundCloudAudio e (length cs) (primaryArtist t) (track_name t))"
  shows "\<exists>q rest. made_calls e c t s cs
        = SoundCloudCall (primaryArtist t) (track_name t) # SoundCloudCall (primaryArtist t) q # rest
     \<and> (q = [] \<or> (q = fst (simplifyName (track_name t)) \<and> q \<noteq> track_name t))"
proof -
  define a0 where "a0 = init_acq c t s cs"
  define a1 where "a1 = early_soundcloud e c t a0"
  define a2 where "a2 = relaxed_soundcloud e c t a1"
  have c0: "calls a0 = cs" by (simp add: a0_def init_calls)
  have f0: "\<not> truthy (v_previewUrl a0)" using n0 by (simp add: a0_def)
  have c1: "calls a1 = cs @ [SoundCloudCall (primaryArtist t) (track_name t)]"
    using early_first_call [OF f0 fc sc, of t] c0 by (simp add: a1_def)
  have "still_unresolved a0 a1"
    unfolding a1_def early_soundcloud_def using f0 fc sc miss c0
    by (simp add: sc_query_unresolved)
  then have f1: "\<not> truthy (v_previewUrl a1)" by (simp add: still_unresolved_def)
  from relaxed_first_call [OF f1 _ sc, of c t] fc
  obtain q xs where c2: "calls a2 = calls a1 @ SoundCloudCall (primaryArtist t) q # xs"
    and q: "q = [] \<or> (q = fst (simplifyName (track_name t)) \<and> q \<noteq> track_name t)"
    by (auto simp: a2_def)
  have "calls_grow a2 (acquirePreviewForTrack e c t s cs)"
    unfolding acquirePreviewForTrack_def a2_def a1_def a0_def by (rule tail_grow)
  then obtain ys where "calls (acquirePreviewForTrack e c t s cs) = calls a2 @ ys"
    by (auto simp: calls_grow_def)
  with c1 c2 have "made_calls e c t s cs
      = SoundCloudCall (primaryArtist t) (track_name t) # SoundCloudCall (primaryArtist t) q
          # (xs @ ys)"
    by (simp add: made_calls_def)
  with q show ?thesis by blast
qed

lemma note_pick:
  "v_previewUrl (note_recovery_disabled c a) = v_previewUrl a
   \<and> v_audioSource (note_recovery_disabled c a) = v_audioSource a
   \<and> calls (note_recovery_disabled c a) = calls a"
  by (simp add: note_recovery_disabled_def)

lemma restored_after_aggregator:
  assumes n0: "\<not> truthy (v_previewUrl (init_acq c t s cs))" and fc: "forceSoundCloudTest c"
  shows "v_audioSource (acquirePreviewForTrack e c t s cs) = Some ''soundcloud''
       \<or> AggregatorCall (primaryArtist t) (track_name t) \<in> set (made_calls e c t s cs)"
proof -
  define a0 where "a0 = init_acq c t s cs"
  define a1 where "a1 = early_soundcloud e c t a0"
  define a2 where "a2 = relaxed_soundcloud e c t a1"
  define a5 where "a5 = note_recovery_disabled c a2"
  define a8 where "a8 = soundcloud_step e t a5"
  define a9 where "a9 = aggregator_step e t a8"
  define a11 where "a11 = restore_apple_step c a9"
  have res: "acquirePreviewForTrack e c t s cs = a11"
    using fc
    by (simp add: acquirePreviewForTrack_def restore_spotify_dead a0_def a1_def a2_def a5_def
        a8_def a9_def a11_def apple_primary_skip recovery_skip exact_skip broad_skip
        spotify_fallback_step_def)
  have c0: "calls a0 = cs" by (simp add: a0_def init_calls)
  have p0: "\<not> truthy (v_previewUrl a0) \<or> v_audioSource a0 = Some ''soundcloud''"
    using n0 by (simp add: a0_def)
  have p1: "\<not> truthy (v_previewUrl a1) \<or> v_audioSource a1 = Some ''soundcloud''"
    unfolding a1_def by (rule early_source [OF p0])
  have p2: "\<not> truthy (v_previewUrl a2) \<or> v_audioSource a2 = Some ''soundcloud''"
    unfolding a2_def by (rule relaxed_source [OF p1])
  have p5: "\<not> truthy (v_previewUrl a5) \<or> v_audioSource a5 = Some ''soundcloud''"
    using p2 by (simp add: a5_def note_pick)
  have p8: "\<not> truthy (v_previewUrl a8) \<or> v_audioSource a8 = Some ''soundcloud''"
    unfolding a8_def by (rule soundcloud_step_source [OF p5])
  show ?thesis
  proof (cases "truthy (v_previewUrl a8)")
    case True
    then have "a11 = a8" by (simp add: a11_def a9_def agg_keep restore_apple_keep)
    with True p8 show ?thesis by (simp add: res)
  next
    case False
    have g1: "calls_grow a0 a1" by (simp add: a1_def early_grow)
    have g2: "calls_grow a0 a2"
      using g1 relaxed_grow [of a1 e c t] by (auto simp: a2_def intro: calls_grow_trans)
    have g5: "calls_grow a0 a5" using g2 by (simp add: a5_def calls_grow_def note_pick)
    have g8: "calls_grow a0 a8"
      using g5 sc_grow [of a5 e t] by (auto simp: a8_def intro: calls_grow_trans)
    have c9: "calls a9 = calls a8 @ [AggregatorCall (primaryArtist t) (track_name t)]"
      unfolding a9_def by (rule agg_call [OF False])
    have g911: "calls_grow a9 a11" by (simp add: calls_grow_def a11_def restore_apple_calls)
    have "AggregatorCall (primaryArtist t) (track_name t)
        \<in> set (drop (length cs) (calls a11))"
      by (rule in_made [OF g8 c9 _ g911 c0]) simp
    then show ?thesis by (simp add: made_calls_def res)
  qed
qed

lemma apple_preview_kept:
  assumes ap: "apple_sourced t" and nf: "\<not> forceFlag c"
  shows "v_previewUrl (acquirePreviewForTrack e c t s cs) = preview_url t
       \<and> v_audioSource (acquirePreviewForTrack e c t s cs) = Some ''apple''
       \<and> v_previewUrl (init_acq c t s cs) = preview_url t
       \<and> made_calls e c t s cs = []"
proof -
  have i: "v_previewUrl (init_acq c t s cs) = preview_url t
      \<and> v_audioSource (init_acq c t s cs) = Some ''apple''"
    using ap nf by (simp add: init_acq_def Let_def apple_sourced_def)
  with ap have k: "truthy (v_previewUrl (init_acq c t s cs))" by (simp add: apple_sourced_def)
  from known_preview_kept [OF k, of e] i show ?thesis
    by (simp add: same_choice_def made_calls_def init_calls)
qed

lemma suppressed_forced:
  "forceFlag c \<or> (soundcloudPrimary c \<and> \<not> apple_sourced t) \<Longrightarrow> forceSoundCloudTest c"
  by (auto simp: forceSoundCloudTest_def)

text \<open>
  C5 (as the code has it). With \<^verbatim>\<open>forceSoundCloudTest\<close> in the body every known preview
  is suppressed, and under \<open>soundcloud_primary\<close> a known Spotify preview is; an Apple
  preview is kept under \<open>soundcloud_primary\<close> alone, and then no provider is asked. After
  a suppression, when a SoundCloud client id is configured and the exact SoundCloud
  query yields nothing, the next call is a relaxed SoundCloud query: for the simplified
  name when it differs from the name, and artist-only otherwise. After a suppression the
  result either comes from SoundCloud or the aggregator was asked before the end. When
  SoundCloud and the aggregator yield nothing under \<^verbatim>\<open>forceSoundCloudTest\<close>, a preview that
  came from Apple is returned again, with source \<open>apple\<close>.
\<close>

theorem forced_test_suppresses_and_restores:
  "(truthy (preview_url t) \<and> (forceFlag c \<or> (soundcloudPrimary c \<and> \<not> apple_sourced t))
      \<longrightarrow> v_previewUrl (init_acq c t s cs) = None \<and> v_audioSource (init_acq c t s cs) = None)
   \<and> (apple_sourced t \<and> \<not> forceFlag c
      \<longrightarrow> v_previewUrl (init_acq c t s cs) = preview_url t
        \<and> v_previewUrl (acquirePreviewForTrack e c t s cs) = preview_url t
        \<and> v_audioSource (acquirePreviewForTrack e c t s cs) = Some ''apple''
        \<and> made_calls e c t s cs = [])
   \<and> (truthy (preview_url t) \<and> (forceFlag c \<or> (soundcloudPrimary c \<and> \<not> apple_sourced t))
        \<and> scClientId e
        \<and> sc_miss (searchSoundCloudAudio e (length cs) (primaryArtist t) (track_name t))
      \<longrightarrow> (\<exists>q rest. made_calls e c t s cs
               = SoundCloudCall (primaryArtist t) (track_name t)
                   # SoundCloudCall (primaryArtist t) q # rest
             \<and> (q = [] \<or> (q = fst (simplifyName (track_name t)) \<and> q \<noteq> track_name t))))
   \<and> (truthy (preview_url t) \<and> (forceFlag c \<or> (soundcloudPrimary c \<and> \<not> apple_sourced t))
      \<longrightarrow> v_audioSource (acquirePreviewForTrack e c t s cs) = Some ''soundcloud''
        \<or> AggregatorCall (primaryArtist t) (track_name t) \<in> set (made_calls e c t s cs))
   \<and> (apple_sourced t \<and> forceFlag c
        \<and> (\<forall>n ar nm. sc_miss (searchSoundCloudAudio e n ar nm))
        \<and> (\<forall>n ar nm. agg_miss (findAlternativeAudioSource e n ar nm))
      \<longrightarrow> v_previewUrl (acquirePreviewForTrack e c t s cs) = preview_url t
        \<and> v_audioSource (acquirePreviewForTrack e c t s cs) = Some ''apple'')"
proof -
  have sup: "v_previewUrl (init_acq c t s cs) = None \<and> v_audioSource (init_acq c t s cs) = None"
    if "truthy (preview_url t)" "forceFlag c \<or> (soundcloudPrimary c \<and> \<not> apple_sourced t)"
    using that by (rule init_suppressed)
  have n0: "\<not> truthy (v_previewUrl (init_acq c t s cs))"
    if "truthy (preview_url t)" "forceFlag c \<or> (soundcloudPrimary c \<and> \<not> apple_sourced t)"
    using sup [OF that] by (simp add: truthy_def)
  have p2: "\<exists>q rest. made_calls e c t s cs
               = SoundCloudCall (primaryArtist t) (track_name t)
                   # SoundCloudCall (primaryArtist t) q # rest
             \<and> (q = [] \<or> (q = fst (simplifyName (track_name t)) \<and> q \<noteq> track_name t))"
    if "truthy (preview_url t)" "forceFlag c \<or> (soundcloudPrimary c \<and> \<not> apple_sourced t)"
      "scClientId e"
      "sc_miss (searchSoundCloudAudio e (length cs) (primaryArtist t) (track_name t))"
    using suppressed_relaxed_query [OF n0 [OF that(1,2)] suppressed_forced [OF that(2)] that(3,4)] .
  have p4: "v_audioSource (acquirePreviewForTrack e c t s cs) = Some ''soundcloud''
        \<or> AggregatorCall (primaryArtist t) (track_name t) \<in> set (made_calls e c t s cs)"
    if "truthy (preview_url t)" "forceFlag c \<or> (soundcloudPrimary c \<and> \<not> apple_sourced t)"
    using restored_after_aggregator [OF n0 [OF that] suppressed_forced [OF that(2)]] .
  have p5: "v_previewUrl (acquirePreviewForTrack e c t s cs) = preview_url t
        \<and> v_audioSource (acquirePreviewForTrack e c t s cs) = Some ''apple''"
    if ap: "apple_sourced t" and ff: "forceFlag c"
      and scm: "\<forall>n ar nm. sc_miss (searchSoundCloudAudio e n ar nm)"
      and agm: "\<forall>n ar nm. agg_miss (findAlternativeAudioSource e n ar nm)"
  proof -
    have tr: "truthy (preview_url t)" using ap by (simp add: apple_sourced_def)
    have fc: "forceSoundCloudTest c" using ff by (simp add: forceSoundCloudTest_def)
    have m1: "sc_miss (searchSoundCloudAudio e n ar nm)" for n ar nm using scm by simp
    have m2: "agg_miss (findAlternativeAudioSource e n ar nm)" for n ar nm using agm by simp
    have m3: "failed (itunes_search e n q l)" if "\<not> forceSoundCloudTest c" for n q l
      using that fc by simp
    have m4: "failed (spotify_search e n p m)" if "\<not> forceSoundCloudTest c" for n p m
      using that fc by simp
    have i0: "\<not> truthy (v_previewUrl (init_acq c t s cs))"
      using n0 [OF tr] ff by simp
    from acquire_all_miss [OF i0 m1 m3 m4 m2] fc ap show ?thesis by simp
  qed
  from sup apple_preview_kept [of t c e s cs] p2 p4 p5 show ?thesis by blast
qed

theorem forced_test_suppresses_and_restores_witness:
  "v_previewUrl (init_acq forced_cfg apple_known_track initial_stats []) = None
   \<and> hd (made_calls deaf_env forced_cfg apple_known_track initial_stats [])
       = SoundCloudCall (primaryArtist apple_known_track) (track_name apple_known_track)
   \<and> 2 \<le> length (made_calls deaf_env forced_cfg apple_known_track initial_stats [])
   \<and> v_previewUrl (acquirePreviewForTrack deaf_env forced_cfg apple_known_track initial_stats [])
       = Some ''u''
   \<and> v_audioSource (acquirePreviewForTrack deaf_env forced_cfg apple_known_track initial_stats [])
       = Some ''apple''
   \<and> made_calls deaf_env sc_primary_cfg apple_known_track initial_stats [] = []"
proof -
  let ?t = apple_known_track
  have ap: "apple_sourced ?t"
    by (simp add: apple_sourced_def apple_known_track_def ex_track_def truthy_def)
  have tr: "truthy (preview_url ?t)" using ap by (simp add: apple_sourced_def)
  have pu: "preview_url ?t = Some ''u''" by (simp add: apple_known_track_def ex_track_def)
  have ff: "forceFlag forced_cfg" by (simp add: forced_cfg_def)
  have nff: "\<not> forceFlag sc_primary_cfg" by (simp add: sc_primary_cfg_def default_cfg_def)
  have sc: "scClientId deaf_env" by (simp add: deaf_env_def)
  have m1: "\<forall>n ar nm. sc_miss (searchSoundCloudAudio deaf_env n ar nm)"
    by (simp add: deaf_env_def dead_env_def sc_miss_def sc_hit_def)
  have m2: "\<forall>n ar nm. agg_miss (findAlternativeAudioSource deaf_env n ar nm)"
    by (simp add: deaf_env_def dead_env_def agg_miss_def)
  from m1 have m0: "sc_miss (searchSoundCloudAudio deaf_env (length ([] :: provider_call list))
      (primaryArtist ?t) (track_name ?t))"
    by blast
  note T = forced_test_suppresses_and_restores [where t = ?t and c = forced_cfg
      and e = deaf_env and s = initial_stats and cs = "[]"]
  note U = forced_test_suppresses_and_restores [where t = ?t and c = sc_primary_cfg
      and e = deaf_env and s = initial_stats and cs = "[]"]
  from T tr ff have a: "v_previewUrl (init_acq forced_cfg ?t initial_stats []) = None"
    by blast
  from T tr ff sc m0 obtain q rest where
    "made_calls deaf_env forced_cfg ?t initial_stats []
       = SoundCloudCall (primaryArtist ?t) (track_name ?t) # SoundCloudCall (primaryArtist ?t) q # rest"
    by blast
  then have b: "hd (made_calls deaf_env forced_cfg ?t initial_stats [])
       = SoundCloudCall (primaryArtist ?t) (track_name ?t)
     \<and> 2 \<le> length (made_calls deaf_env forced_cfg ?t initial_stats [])"
    by simp
  from T ap ff m1 m2 have d: "v_previewUrl (acquirePreviewForTrack deaf_env forced_cfg ?t initial_stats [])
       = preview_url ?t
     \<and> v_audioSource (acquirePreviewForTrack deaf_env forced_cfg ?t initial_stats []) = Some ''apple''"
    by blast
  from U ap nff have f: "made_calls deaf_env sc_primary_cfg ?t initial_stats [] = []"
    by blast
  from a b d f pu show ?thesis by simp
qed

text \<open>
  Under \<open>soundcloud_primary\<close> a track whose known preview comes from Apple keeps it: the
  preview is not suppressed and no SoundCloud query is made.
\<close>

theorem apple_preview_not_suppressed_counterexample:
  "soundcloudPrimary sc_primary_cfg \<and> forceSoundCloudTest sc_primary_cfg
   \<and> truthy (preview_url apple_known_track) \<and> scClientId deaf_env
   \<and> v_previewUrl (init_acq sc_primary_cfg apple_known_track initial_stats []) = Some ''u''
   \<and> made_calls deaf_env sc_primary_cfg apple_known_track initial_stats [] = []"
proof -
  have ap: "apple_sourced apple_known_track"
    by (simp add: apple_sourced_def apple_known_track_def ex_track_def truthy_def)
  have nff: "\<not> forceFlag sc_primary_cfg" by (simp add: sc_primary_cfg_def default_cfg_def)
  have sp: "soundcloudPrimary sc_primary_cfg"
    by (simp add: sc_primary_cfg_def default_cfg_def soundcloudPrimary_def)
  have pu: "preview_url apple_known_track = Some ''u''"
    by (simp add: apple_known_track_def ex_track_def)
  from apple_preview_kept [OF ap nff, of deaf_env initial_stats "[]"] sp pu ap
  show ?thesis
    by (simp add: forceSoundCloudTest_def deaf_env_def apple_sourced_def)
qed


end
